(* ===== verification/Prelude.thy ===== *)
theory Prelude
  imports Main "HOL-Library.AList" "HOL-Library.Multiset"
begin

text \<open>
  Shared vocabulary of the development. The Python sources keep their state in
  dictionaries whose iteration order is the insertion order (room membership, the
  per-player maps of a game); such a dictionary is an association list with distinct
  keys, written \<open>('k, 'v) pydict\<close>. Assignment \<open>d[k] = v\<close> is \<open>AList.update\<close>
  (in place for a present key, appended for a new one), \<open>del d[k]\<close> is
  \<open>AList.delete\<close>, \<open>d.get(k, v0)\<close> is \<open>dict_get\<close>, \<open>k in d\<close> is \<open>dict_has\<close>.
  The lemmas below say how these operations act on the key list and on the
  multiset of values; they are collected in \<open>dict_simps\<close>.
\<close>

named_theorems dict_simps "rewriting Python dictionary operations"

type_synonym ('k, 'v) pydict = "('k \<times> 'v) list"

definition dict_has :: "('k, 'v) pydict \<Rightarrow> 'k \<Rightarrow> bool" where
  "dict_has d k \<longleftrightarrow> k \<in> set (map fst d)"

definition dict_get :: "('k, 'v) pydict \<Rightarrow> 'k \<Rightarrow> 'v \<Rightarrow> 'v" where
  "dict_get d k v0 = (case map_of d k of None \<Rightarrow> v0 | Some v \<Rightarrow> v)"

definition dict_keys :: "('k, 'v) pydict \<Rightarrow> 'k list" where
  "dict_keys d = map fst d"

definition dict_values :: "('k, 'v) pydict \<Rightarrow> 'v list" where
  "dict_values d = map snd d"

subsection \<open>Keys\<close>

lemma dict_has_map_of [dict_simps]: "dict_has d k \<longleftrightarrow> map_of d k \<noteq> None"
  by (simp add: dict_has_def map_of_eq_None_iff)

lemma dict_get_Some [dict_simps]: "map_of d k = Some v \<Longrightarrow> dict_get d k v0 = v"
  by (simp add: dict_get_def)

lemma dict_get_None [dict_simps]: "map_of d k = None \<Longrightarrow> dict_get d k v0 = v0"
  by (simp add: dict_get_def)

lemma keys_update_present [dict_simps]:
  "k \<in> set (map fst d) \<Longrightarrow> map fst (AList.update k v d) = map fst d"
  by (induction d) auto

lemma keys_update_new [dict_simps]:
  "k \<notin> set (map fst d) \<Longrightarrow> AList.update k v d = d @ [(k, v)]"
  by (induction d) auto

lemma keys_update_set [dict_simps]:
  "fst ` set (AList.update k v d) = insert k (fst ` set d)"
  using dom_update [of k v d] by simp

lemma distinct_keys_update [dict_simps]:
  "distinct (map fst d) \<Longrightarrow> distinct (map fst (AList.update k v d))"
  by (rule distinct_update)

lemma keys_delete [dict_simps]: "map fst (AList.delete k d) = removeAll k (map fst d)"
  by (rule delete_keys)

lemma map_of_update_same [dict_simps]: "map_of (AList.update k v d) k = Some v"
  by (simp add: update_conv')

lemma map_of_update_other [dict_simps]:
  "k' \<noteq> k \<Longrightarrow> map_of (AList.update k v d) k' = map_of d k'"
  by (simp add: update_conv')

subsection \<open>Values\<close>

lemma values_update_present [dict_simps]:
  "distinct (map fst d) \<Longrightarrow> map_of d k = Some v' \<Longrightarrow>
   mset (map snd (AList.update k v d)) = mset (map snd d) - {#v'#} + {#v#}"
proof (induction d)
  case Nil
  then show ?case by simp
next
  case (Cons p d)
  obtain a b where p: "p = (a, b)" by (cases p)
  show ?case
  proof (cases "a = k")
    case True
    with Cons.prems p show ?thesis by simp
  next
    case False
    with Cons.prems p have "map_of d k = Some v'" and "distinct (map fst d)" by auto
    with Cons.IH have IH: "mset (map snd (AList.update k v d)) = mset (map snd d) - {#v'#} + {#v#}"
      by blast
    from \<open>map_of d k = Some v'\<close> have "v' \<in># mset (map snd d)"
      by (auto dest: map_of_SomeD intro: rev_image_eqI)
    with False p IH show ?thesis by (auto simp: add_mset_diff_bothsides insert_DiffM)
  qed
qed

lemma map_of_in_values [dict_simps]: "map_of d k = Some v \<Longrightarrow> v \<in> set (map snd d)"
  by (auto dest: map_of_SomeD intro: rev_image_eqI)

lemma update_present_map [dict_simps]:
  "distinct (map fst d) \<Longrightarrow> k \<in> fst ` set d \<Longrightarrow>
   AList.update k v d = map (\<lambda>(k', v'). (k', if k' = k then v else v')) d"
proof (induction d)
  case Nil
  then show ?case by simp
next
  case (Cons p d)
  obtain a b where p: "p = (a, b)" by (cases p)
  show ?case
  proof (cases "a = k")
    case True
    with Cons.prems p have "k \<notin> fst ` set d" by auto
    then have "map (\<lambda>(k', v'). (k', if k' = k then v else v')) d = d"
      by (induction d) auto
    with True p show ?thesis by simp
  next
    case False
    with Cons p show ?thesis by auto
  qed
qed

lemma count_list_distinct [dict_simps]:
  "distinct xs \<Longrightarrow> x \<in> set xs \<Longrightarrow> count_list xs x = 1"
  by (induction xs) auto

lemma sum_update_present [dict_simps]:
  "distinct (map fst d) \<Longrightarrow> map_of d k = Some v' \<Longrightarrow>
   sum_list (map (\<lambda>(k, x). f x) (AList.update k v d)) + f v'
     = sum_list (map (\<lambda>(k, x). f x) d) + (f v :: 'b :: comm_monoid_add)"
proof (induction d)
  case Nil
  then show ?case by simp
next
  case (Cons p d)
  obtain a b where p: "p = (a, b)" by (cases p)
  show ?case
  proof (cases "a = k")
    case True
    with Cons.prems p show ?thesis by (simp add: add_ac)
  next
    case False
    with Cons.prems p have "sum_list (map (\<lambda>(k, x). f x) (AList.update k v d)) + f v'
        = sum_list (map (\<lambda>(k, x). f x) d) + f v" by (intro Cons.IH) auto
    with False p show ?thesis by (simp add: add_ac)
  qed
qed

lemma map_of_update_keys_other [dict_simps]:
  "map fst d = map fst d' \<Longrightarrow> map_of d k = None \<longleftrightarrow> map_of d' k = None"
  by (metis map_of_eq_None_iff set_map)

lemma sum_list_by_keys [dict_simps]:
  "distinct (map fst d) \<Longrightarrow>
   sum_list (map (\<lambda>(k, x). f x) d) = sum_list (map (\<lambda>k. f (the (map_of d k))) (map fst d))"
proof (induction d)
  case Nil
  then show ?case by simp
next
  case (Cons p d)
  obtain a b where p: "p = (a, b)" by (cases p)
  with Cons.prems have notin: "a \<notin> set (map fst d)" and dist: "distinct (map fst d)" by auto
  from notin have eq: "map (\<lambda>k. f (the (map_of d k))) (map fst d)
           = map (\<lambda>k. f (the (map_of ((a, b) # d) k))) (map fst d)" by auto
  have "sum_list (map (\<lambda>(k, x). f x) ((a, b) # d))
        = f b + sum_list (map (\<lambda>k. f (the (map_of d k))) (map fst d))"
    using Cons.IH dist by (simp del: map_map)
  also have "\<dots> = f b + sum_list (map (\<lambda>k. f (the (map_of ((a, b) # d) k))) (map fst d))"
    by (simp only: eq)
  finally show ?case using p by (simp del: map_map)
qed

lemma sum_list_le_length:
  "\<forall>x \<in> set xs. g x \<le> (1 :: nat) \<Longrightarrow> sum_list (map g xs) \<le> length xs"
  by (induction xs) fastforce+

lemma sum_list_lt_length:
  "\<forall>x \<in> set xs. g x \<le> (1 :: nat) \<Longrightarrow> u \<in> set xs \<Longrightarrow> g u = 0 \<Longrightarrow>
   sum_list (map g xs) < length xs"
proof (induction xs)
  case Nil
  then show ?case by simp
next
  case (Cons a xs)
  show ?case
  proof (cases "a = u")
    case True
    with Cons.prems sum_list_le_length [of xs g] show ?thesis by simp
  next
    case False
    with Cons.prems Cons.IH show ?thesis by fastforce
  qed
qed

lemma size_sum_list_mset:
  "size (sum_list (map (f :: 'a \<Rightarrow> 'b multiset) xs)) = sum_list (map (\<lambda>x. size (f x)) xs)"
  by (induction xs) simp_all

lemma update_keys_ne_Nil [dict_simps]: "map fst (AList.update k v d) \<noteq> []"
  by (cases d) auto

lemma update_same_value [dict_simps]: "map_of d k = Some v \<Longrightarrow> AList.update k v d = d"
  by (induction d) auto

end
