(* ===== verification/Rooms.thy ===== *)
theory Rooms
  imports Prelude
begin

text \<open>
  The room registry of \<^verbatim>\<open>src/backend/app/room_manager.py\<close>. The module keeps one global
  dictionary \<^verbatim>\<open>rooms\<close> from room id to a room; a room is the dictionary
  \<^verbatim>\<open>{"room_id": ..., "users": {username: ready}}\<close>, modelled as the record \<open>room\<close>
  whose \<open>users\<close> field keeps the insertion order of the Python dictionary (the game
  later takes its player order from it). The registry itself is a map, since nothing
  iterates over it. Each operation takes the registry and returns the new one; the
  failures \<^verbatim>\<open>(False, "...")\<close> are the values of \<open>room_error\<close>.

  The random room id: \<^verbatim>\<open>random.choices(ascii_uppercase + digits, k=8)\<close> picks eight
  positions in the 36-letter alphabet. The random source is a parameter
  \<open>rnd :: nat \<Rightarrow> nat \<Rightarrow> nat\<close>: \<open>rnd t i\<close> is the position picked for letter \<open>i\<close> of
  attempt \<open>t\<close>. The retry loop of \<^verbatim>\<open>create_room\<close> runs until an attempt gives an unused
  id, which need not happen, so it is a \<^theory_text>\<open>partial_function (option)\<close>.
\<close>

record room =
  room_id :: string
  users :: "(string, bool) pydict"

type_synonym rooms = "string \<rightharpoonup> room"

datatype room_error = RoomNotFound | UserNotInRoom

definition room_id_alphabet :: string where
  "room_id_alphabet = ''ABCDEFGHIJKLMNOPQRSTUVWXYZ0123456789''"

definition generate_random_room_id :: "nat \<Rightarrow> (nat \<Rightarrow> nat) \<Rightarrow> string" where
  "generate_random_room_id len pick =
     map (\<lambda>i. room_id_alphabet ! (pick i mod length room_id_alphabet)) [0..<len]"

partial_function (option) find_room_id :: "rooms \<Rightarrow> (nat \<Rightarrow> nat \<Rightarrow> nat) \<Rightarrow> nat \<Rightarrow> string option" where
  "find_room_id rms rnd t =
     (let rid = generate_random_room_id 8 (rnd t)
      in if rms rid \<noteq> None then find_room_id rms rnd (Suc t) else Some rid)"

definition join_room :: "rooms \<Rightarrow> string \<Rightarrow> string \<Rightarrow> room_error + rooms" where
  "join_room rms rid u =
     (case rms rid of
        None \<Rightarrow> Inl RoomNotFound
      | Some r \<Rightarrow>
          if \<not> dict_has (users r) u
          then Inr (rms(rid \<mapsto> r\<lparr>users := AList.update u False (users r)\<rparr>))
          else Inr rms)"

definition create_room :: "rooms \<Rightarrow> (nat \<Rightarrow> nat \<Rightarrow> nat) \<Rightarrow> string \<Rightarrow> (string \<times> rooms) option" where
  "create_room rms rnd u =
     (case find_room_id rms rnd 0 of
        None \<Rightarrow> None
      | Some rid \<Rightarrow>
          (let rms1 = rms(rid \<mapsto> \<lparr>room_id = rid, users = []\<rparr>)
           in case join_room rms1 rid u of
                Inl _ \<Rightarrow> Some (rid, rms1)
              | Inr rms2 \<Rightarrow> Some (rid, rms2)))"

definition set_ready :: "rooms \<Rightarrow> string \<Rightarrow> string \<Rightarrow> room_error + rooms" where
  "set_ready rms rid u =
     (case rms rid of
        None \<Rightarrow> Inl RoomNotFound
      | Some r \<Rightarrow>
          if \<not> dict_has (users r) u then Inl UserNotInRoom
          else Inr (rms(rid \<mapsto> r\<lparr>users := AList.update u True (users r)\<rparr>)))"

definition all_ready :: "rooms \<Rightarrow> string \<Rightarrow> bool" where
  "all_ready rms rid =
     (case rms rid of
        None \<Rightarrow> False
      | Some r \<Rightarrow> list_all id (dict_values (users r)))"

definition get_room_info :: "rooms \<Rightarrow> string \<Rightarrow> room option" where
  "get_room_info rms rid = rms rid"

definition leave_room :: "rooms \<Rightarrow> string \<Rightarrow> string \<Rightarrow> room_error + rooms" where
  "leave_room rms rid u =
     (case rms rid of
        None \<Rightarrow> Inl RoomNotFound
      | Some r \<Rightarrow>
          if dict_has (users r) u
          then Inr (rms(rid \<mapsto> r\<lparr>users := AList.delete u (users r)\<rparr>))
          else Inr rms)"

text \<open>
  The registry operations that can fail, as one datatype of requests with one
  step function: the HTTP routes \<^verbatim>\<open>/room/join\<close> and \<^verbatim>\<open>/room/leave\<close> of
  \<^verbatim>\<open>main.py\<close> and the lobby channel's \<^verbatim>\<open>ready\<close> action call exactly these.
\<close>

datatype room_op = JoinRoom string string | SetReady string string | LeaveRoom string string

fun apply_room_op :: "rooms \<Rightarrow> room_op \<Rightarrow> room_error + rooms" where
  "apply_room_op rms (JoinRoom rid u) = join_room rms rid u"
| "apply_room_op rms (SetReady rid u) = set_ready rms rid u"
| "apply_room_op rms (LeaveRoom rid u) = leave_room rms rid u"

text \<open>
  Well-formedness of the registry: each room is stored under its own id and its
  membership has no duplicate user. The ids in use are finite (rooms are only ever
  created one at a time).
\<close>

definition room_wf :: "string \<Rightarrow> room \<Rightarrow> bool" where
  "room_wf rid r \<longleftrightarrow> room_id r = rid \<and> distinct (dict_keys (users r))"

definition rooms_wf :: "rooms \<Rightarrow> bool" where
  "rooms_wf rms \<longleftrightarrow> finite (dom rms) \<and> (\<forall>rid \<in> dom rms. room_wf rid (the (rms rid)))"

subsection \<open>Basic facts\<close>

lemma rooms_wfD:
  "rooms_wf rms \<Longrightarrow> rms rid = Some r \<Longrightarrow> room_id r = rid \<and> distinct (map fst (users r))"
  by (force simp: rooms_wf_def room_wf_def dict_keys_def)

lemma rooms_wf_upd:
  "rooms_wf rms \<Longrightarrow> room_wf rid r \<Longrightarrow> rooms_wf (rms(rid \<mapsto> r))"
  by (auto simp: rooms_wf_def)

lemma room_wf_users_update:
  "room_wf rid r \<Longrightarrow> room_wf rid (r\<lparr>users := AList.update u b (users r)\<rparr>)"
  by (simp add: room_wf_def dict_keys_def distinct_update)

lemma room_wf_users_delete:
  "room_wf rid r \<Longrightarrow> room_wf rid (r\<lparr>users := AList.delete u (users r)\<rparr>)"
  by (simp add: room_wf_def dict_keys_def distinct_delete)

lemma rooms_wf_room:
  "rooms_wf rms \<Longrightarrow> rms rid = Some r \<Longrightarrow> room_wf rid r"
  by (force simp: rooms_wf_def)

lemmas room_wf_lemmas = rooms_wf_upd room_wf_users_update room_wf_users_delete rooms_wf_room

lemma generate_random_room_id_length: "length (generate_random_room_id len pick) = len"
  by (simp add: generate_random_room_id_def)

lemma generate_random_room_id_chars:
  "set (generate_random_room_id len pick) \<subseteq> set room_id_alphabet"
proof -
  have "0 < length room_id_alphabet" by (simp add: room_id_alphabet_def)
  then show ?thesis by (auto simp: generate_random_room_id_def intro!: nth_mem)
qed

subsection \<open>The room-id retry loop\<close>

text \<open>An attempt whose id is unused ends the loop; every returned id is unused.\<close>

lemma find_room_id_unfold:
  "find_room_id rms rnd t =
     (if rms (generate_random_room_id 8 (rnd t)) \<noteq> None then find_room_id rms rnd (Suc t)
      else Some (generate_random_room_id 8 (rnd t)))"
  by (subst find_room_id.simps) (simp add: Let_def)

lemma find_room_id_returns:
  "rms (generate_random_room_id 8 (rnd (t + k))) = None \<Longrightarrow>
   \<exists>rid. find_room_id rms rnd t = Some rid"
proof (induction k arbitrary: t)
  case 0
  then show ?case by (subst find_room_id_unfold) simp
next
  case (Suc k)
  then have "\<exists>rid. find_room_id rms rnd (Suc t) = Some rid"
    by (metis add_Suc_shift)
  then show ?case by (subst find_room_id_unfold) auto
qed

lemma find_room_id_fresh:
  assumes "find_room_id rms rnd t = Some rid"
  shows "rms rid = None \<and> (\<exists>t'. rid = generate_random_room_id 8 (rnd t'))"
proof (rule find_room_id.raw_induct
    [where P = "\<lambda>rms rnd t rid. rms rid = None \<and> (\<exists>t'. rid = generate_random_room_id 8 (rnd t'))",
     OF _ assms])
  fix f rms rnd t rid
  assume IH: "\<And>rms rnd t rid. f rms rnd t = Some rid \<Longrightarrow>
      rms rid = None \<and> (\<exists>t'. rid = generate_random_room_id 8 (rnd t'))"
    and eq: "(let rid = generate_random_room_id 8 (rnd t)
       in if rms rid \<noteq> None then f rms rnd (Suc t) else Some rid) = Some rid"
  show "rms rid = None \<and> (\<exists>t'. rid = generate_random_room_id 8 (rnd t'))"
  proof (cases "rms (generate_random_room_id 8 (rnd t)) = None")
    case True
    with eq show ?thesis by (auto simp: Let_def)
  next
    case False
    with eq have "f rms rnd (Suc t) = Some rid" by (simp add: Let_def)
    then show ?thesis by (rule IH)
  qed
qed

subsection \<open>Functional behaviour of the operations\<close>

lemma join_room_new:
  "rms rid = Some r \<Longrightarrow> \<not> dict_has (users r) u \<Longrightarrow>
   join_room rms rid u = Inr (rms(rid \<mapsto> r\<lparr>users := users r @ [(u, False)]\<rparr>))"
  by (simp add: join_room_def dict_has_def keys_update_new)

lemma join_room_present:
  "rms rid = Some r \<Longrightarrow> dict_has (users r) u \<Longrightarrow> join_room rms rid u = Inr rms"
  by (simp add: join_room_def)

lemma join_room_missing: "rms rid = None \<Longrightarrow> join_room rms rid u = Inl RoomNotFound"
  by (simp add: join_room_def)

lemma join_room_member:
  "join_room rms rid u = Inr rms' \<Longrightarrow> \<exists>r'. rms' rid = Some r' \<and> dict_has (users r') u"
  by (auto simp: join_room_def dict_has_def keys_update_set split: option.splits if_splits)

lemma join_room_other:
  "join_room rms rid u = Inr rms' \<Longrightarrow> rid' \<noteq> rid \<Longrightarrow> rms' rid' = rms rid'"
  by (auto simp: join_room_def split: option.splits if_splits)

lemma join_room_wf:
  "rooms_wf rms \<Longrightarrow> join_room rms rid u = Inr rms' \<Longrightarrow> rooms_wf rms'"
  by (auto simp: join_room_def intro: room_wf_lemmas split: option.splits if_splits)

lemma set_ready_wf:
  "rooms_wf rms \<Longrightarrow> set_ready rms rid u = Inr rms' \<Longrightarrow> rooms_wf rms'"
  by (auto simp: set_ready_def intro: room_wf_lemmas split: option.splits if_splits)

lemma leave_room_wf:
  "rooms_wf rms \<Longrightarrow> leave_room rms rid u = Inr rms' \<Longrightarrow> rooms_wf rms'"
  by (auto simp: leave_room_def intro: room_wf_lemmas split: option.splits if_splits)

lemma create_room_result:
  assumes "create_room rms rnd u = Some (rid, rms')"
  shows "rms rid = None \<and> rms' = rms(rid \<mapsto> \<lparr>room_id = rid, users = [(u, False)]\<rparr>)"
proof -
  from assms obtain rid0 where f: "find_room_id rms rnd 0 = Some rid0"
    by (auto simp: create_room_def split: option.splits)
  with assms have "rid0 = rid"
    by (auto simp: create_room_def Let_def join_room_def split: option.splits if_splits)
  with f have "rms rid = None" using find_room_id_fresh by blast
  moreover from assms f \<open>rid0 = rid\<close> have "rms' = rms(rid \<mapsto> \<lparr>room_id = rid, users = [(u, False)]\<rparr>)"
    by (simp add: create_room_def join_room_def dict_has_def)
  ultimately show ?thesis by blast
qed

lemma create_room_wf:
  "rooms_wf rms \<Longrightarrow> create_room rms rnd u = Some (rid, rms') \<Longrightarrow> rooms_wf rms'"
  by (drule create_room_result) (auto simp: room_wf_def dict_keys_def intro: rooms_wf_upd)

lemma create_room_find:
  "create_room rms rnd u = Some (rid, rms') \<Longrightarrow> find_room_id rms rnd 0 = Some rid"
  by (auto simp: create_room_def Let_def join_room_def split: option.splits if_splits)

lemma create_room_id:
  assumes "create_room rms rnd u = Some (rid, rms')"
  shows "length rid = 8 \<and> set rid \<subseteq> set room_id_alphabet"
proof -
  from assms have "find_room_id rms rnd 0 = Some rid" by (rule create_room_find)
  then obtain t where "rid = generate_random_room_id 8 (rnd t)"
    using find_room_id_fresh by blast
  then show ?thesis using generate_random_room_id_length generate_random_room_id_chars by simp
qed

subsection \<open>Properties of the registry\<close>

text \<open>C27: Joining is idempotent. After a successful join the participant is a member
  exactly once, and joining again leaves the registry as it is.\<close>

theorem join_room_exactly_once:
  assumes "rooms_wf rms" and "join_room rms rid u = Inr rms'"
  shows "(\<exists>r'. rms' rid = Some r' \<and> count_list (map fst (users r')) u = 1)
         \<and> join_room rms' rid u = Inr rms'"
proof -
  from assms(2) obtain r' where r': "rms' rid = Some r'" and mem: "dict_has (users r') u"
    using join_room_member by blast
  from assms have "rooms_wf rms'" by (rule join_room_wf)
  with r' have "distinct (map fst (users r'))" by (blast dest: rooms_wfD)
  with mem have "count_list (map fst (users r')) u = 1"
    by (simp add: dict_has_def count_list_distinct)
  moreover from r' mem have "join_room rms' rid u = Inr rms'" by (rule join_room_present)
  ultimately show ?thesis using r' by blast
qed

text \<open>C31: \<open>all_ready\<close> of a room with no members is true: \<^verbatim>\<open>all()\<close> of no values is
  \<^verbatim>\<open>True\<close>. The spec requires a non-empty room.\<close>

theorem all_ready_empty_room:
  "rms rid = Some r \<Longrightarrow> users r = [] \<Longrightarrow> all_ready rms rid"
  by (simp add: all_ready_def dict_values_def)

text \<open>A new member joins unready, so a room that was all ready is no longer so.\<close>

lemma join_room_breaks_all_ready:
  assumes "rms rid = Some r" and "\<not> dict_has (users r) u" and "join_room rms rid u = Inr rms'"
  shows "\<not> all_ready rms' rid"
proof -
  from assms have "rms' = rms(rid \<mapsto> r\<lparr>users := users r @ [(u, False)]\<rparr>)"
    by (simp add: join_room_new)
  then show ?thesis by (simp add: all_ready_def dict_values_def)
qed

text \<open>C28: \<open>set_ready\<close> marks the participant ready, keeps the membership and its
  order, and never clears another member's readiness; it fails with
  \<open>RoomNotFound\<close> or \<open>UserNotInRoom\<close> exactly when the room or the member is missing.\<close>

theorem set_ready_behaviour:
  "rooms_wf rms \<Longrightarrow> set_ready rms rid u =
     (case rms rid of
        None \<Rightarrow> Inl RoomNotFound
      | Some r \<Rightarrow> if map_of (users r) u = None then Inl UserNotInRoom
                  else Inr (rms(rid \<mapsto> r\<lparr>users := map (\<lambda>(v, b). (v, b \<or> v = u)) (users r)\<rparr>)))"
proof (cases "rms rid")
  case None
  then show ?thesis by (simp add: set_ready_def)
next
  case (Some r)
  assume wf: "rooms_wf rms"
  with Some have d: "distinct (map fst (users r))" by (blast dest: rooms_wfD)
  have "map (\<lambda>(k', v'). (k', if k' = u then True else v')) (users r)
        = map (\<lambda>(v, b). (v, b \<or> v = u)) (users r)"
    by (auto split: prod.splits)
  with d Some show ?thesis
    by (auto simp: set_ready_def dict_has_map_of update_present_map map_of_eq_None_iff)
qed

text \<open>C29: \<open>create_room\<close> returns as soon as one attempt of the random source draws an
  unused id: with such an attempt the retry loop ends.\<close>

theorem create_room_terminates:
  assumes "rms (generate_random_room_id 8 (rnd k)) = None"
  shows "\<exists>rid rms'. create_room rms rnd u = Some (rid, rms')"
proof -
  from assms obtain rid where "find_room_id rms rnd 0 = Some rid"
    using find_room_id_returns [of rms rnd 0 k] by auto
  then show ?thesis
    by (auto simp: create_room_def Let_def join_room_def split: option.splits sum.splits)
qed

text \<open>C30: A created room has a fresh 8-character id over \<open>A-Z0-9\<close>, holds exactly its
  creator, unready, and no other room changes.\<close>

theorem create_room_fresh:
  assumes "create_room rms rnd u = Some (rid, rms')"
  shows "rms rid = None \<and> length rid = 8 \<and> set rid \<subseteq> set room_id_alphabet
         \<and> rms' = rms(rid \<mapsto> \<lparr>room_id = rid, users = [(u, False)]\<rparr>)"
  using create_room_id [OF assms] create_room_result [OF assms] by blast

text \<open>Every registry request keeps the registry well formed: rooms stored under
  their own id, no member twice.\<close>

lemma room_ops_wf:
  "rooms_wf rms \<Longrightarrow> apply_room_op rms op = Inr rms' \<Longrightarrow> rooms_wf rms'"
  by (cases op) (auto intro: join_room_wf set_ready_wf leave_room_wf)

text \<open>Leaving removes the participant and keeps the order of the others; leaving
  again changes nothing (idempotent).\<close>

lemma leave_room_removes:
  assumes "rms rid = Some r" and "leave_room rms rid u = Inr rms'"
  shows "\<exists>r'. rms' rid = Some r' \<and> map fst (users r') = removeAll u (map fst (users r))
             \<and> leave_room rms' rid u = Inr rms'"
proof (cases "dict_has (users r) u")
  case True
  with assms have "rms' = rms(rid \<mapsto> r\<lparr>users := AList.delete u (users r)\<rparr>)"
    by (simp add: leave_room_def)
  then show ?thesis
    by (simp add: leave_room_def dict_has_def delete_keys)
next
  case False
  with assms have "rms' = rms" by (simp add: leave_room_def)
  with False assms show ?thesis
    by (simp add: leave_room_def dict_has_def)
qed

subsection \<open>Witnesses\<close>

theorem join_room_exactly_once_witness:
  "rooms_wf [''R1'' \<mapsto> \<lparr>room_id = ''R1'', users = [(''alice'', True)]\<rparr>]
   \<and> join_room [''R1'' \<mapsto> \<lparr>room_id = ''R1'', users = [(''alice'', True)]\<rparr>] ''R1'' ''bob''
       = Inr [''R1'' \<mapsto> \<lparr>room_id = ''R1'', users = [(''alice'', True), (''bob'', False)]\<rparr>]
   \<and> join_room [''R1'' \<mapsto> \<lparr>room_id = ''R1'', users = [(''alice'', True), (''bob'', False)]\<rparr>] ''R1'' ''bob''
       = Inr [''R1'' \<mapsto> \<lparr>room_id = ''R1'', users = [(''alice'', True), (''bob'', False)]\<rparr>]"
proof -
  have h1: "rooms_wf [''R1'' \<mapsto> \<lparr>room_id = ''R1'', users = [(''alice'', True)]\<rparr>]"
    by (simp add: rooms_wf_def room_wf_def dict_keys_def)
  have h2: "join_room [''R1'' \<mapsto> \<lparr>room_id = ''R1'', users = [(''alice'', True)]\<rparr>] ''R1'' ''bob''
       = Inr [''R1'' \<mapsto> \<lparr>room_id = ''R1'', users = [(''alice'', True), (''bob'', False)]\<rparr>]"
    by (simp add: join_room_def dict_has_def)
  from join_room_exactly_once [OF h1 h2] h1 h2 show ?thesis by blast
qed

theorem all_ready_empty_room_witness:
  "all_ready [''R1'' \<mapsto> \<lparr>room_id = ''R1'', users = []\<rparr>] ''R1''"
  by (rule all_ready_empty_room, simp, simp)

theorem set_ready_behaviour_witness:
  "set_ready [''R1'' \<mapsto> \<lparr>room_id = ''R1'', users = [(''alice'', False), (''bob'', False)]\<rparr>] ''R1'' ''bob''
     = Inr [''R1'' \<mapsto> \<lparr>room_id = ''R1'', users = [(''alice'', False), (''bob'', True)]\<rparr>]"
proof -
  have h: "rooms_wf [''R1'' \<mapsto> \<lparr>room_id = ''R1'', users = [(''alice'', False), (''bob'', False)]\<rparr>]"
    by (simp add: rooms_wf_def room_wf_def dict_keys_def)
  show ?thesis using set_ready_behaviour [OF h, of "''R1''" "''bob''"] by simp
qed

theorem create_room_terminates_witness:
  "\<exists>rid rms'. create_room Map.empty (\<lambda>t i. t + i) ''alice'' = Some (rid, rms')"
  by (rule create_room_terminates [of _ _ 0]) simp

theorem create_room_fresh_witness:
  "create_room Map.empty (\<lambda>t i. 0) ''alice''
     = Some (''AAAAAAAA'', [''AAAAAAAA'' \<mapsto> \<lparr>room_id = ''AAAAAAAA'', users = [(''alice'', False)]\<rparr>])
   \<and> length ''AAAAAAAA'' = 8"
proof -
  have gen: "generate_random_room_id 8 (\<lambda>i. 0) = ''AAAAAAAA''"
    by (simp add: generate_random_room_id_def room_id_alphabet_def upt_rec)
  have c: "create_room Map.empty (\<lambda>t i. 0) ''alice''
     = Some (''AAAAAAAA'', [''AAAAAAAA'' \<mapsto> \<lparr>room_id = ''AAAAAAAA'', users = [(''alice'', False)]\<rparr>])"
    by (simp add: create_room_def find_room_id_unfold gen join_room_def dict_has_def)
  from create_room_fresh [OF c] c show ?thesis by simp
qed

end
