(* ===== verification/Cards.thy ===== *)
theory Cards
  imports Prelude
begin

text \<open>
  Cards and the pure helpers of \<^verbatim>\<open>src/backend/app/game_modes/poker_battle.py\<close>.
  A card is the dictionary \<^verbatim>\<open>{"suit": ..., "rank": ...}\<close>, a record of two strings:
  the game compares cards by dictionary equality (\<^verbatim>\<open>card not in hand\<close>), which is
  equality of both fields. \<open>new_deck\<close> is the comprehension of \<^verbatim>\<open>initialize_game\<close>;
  \<open>shuffle\<close> is CPython's \<^verbatim>\<open>random.shuffle\<close> (Fisher--Yates from the last index
  down to 1, swapping with \<^verbatim>\<open>randbelow(i + 1)\<close>), with the random draws as a
  parameter \<open>rb\<close>: \<open>rb i\<close> is the draw of iteration \<open>i\<close>, reduced below \<open>i + 1\<close>.
  The scoring configuration (the JSON file \<^verbatim>\<open>config/poker_battle.json\<close>, not part
  of the sources) is the record \<open>config\<close>. \<open>card_weight\<close> reads it as the code does,
  with default 0 for a missing rank or suit and the suit lower-cased (ASCII letters,
  the only ones the deck uses). \<open>py_sort_desc\<close> is \<^verbatim>\<open>list.sort(key=f, reverse=True)\<close>
  as CPython implements it: reverse, stable ascending sort, reverse.
\<close>

record card =
  suit :: string
  rank :: string

definition suits :: "string list" where
  "suits = [''clubs'', ''diamonds'', ''hearts'', ''spades'']"

definition ranks :: "string list" where
  "ranks = [''A''] @ map (\<lambda>d. [d]) ''23456789'' @ [''10'', ''J'', ''Q'', ''K'']"

definition new_deck :: "card list" where
  "new_deck = concat (map (\<lambda>s. map (\<lambda>r. \<lparr>suit = s, rank = r\<rparr>) ranks) suits)"

definition swap :: "nat \<Rightarrow> nat \<Rightarrow> 'a list \<Rightarrow> 'a list" where
  "swap i j xs = xs[i := xs ! j, j := xs ! i]"

fun fisher_yates :: "(nat \<Rightarrow> nat) \<Rightarrow> nat \<Rightarrow> 'a list \<Rightarrow> 'a list" where
  "fisher_yates rb 0 xs = xs"
| "fisher_yates rb (Suc i) xs = fisher_yates rb i (swap (Suc i) (rb (Suc i) mod (Suc i + 1)) xs)"

definition shuffle :: "(nat \<Rightarrow> nat) \<Rightarrow> 'a list \<Rightarrow> 'a list" where
  "shuffle rb xs = fisher_yates rb (length xs - 1) xs"

record config =
  card_value_order :: "(string, int) pydict"
  suit_order :: "(string, int) pydict"
  score_2_win :: int
  score_2_lose :: int
  score_3_win :: int
  score_3_draw :: int
  score_3_lose :: int

definition lower_char :: "char \<Rightarrow> char" where
  "lower_char c =
     (if of_char (CHR ''A'') \<le> (of_char c :: nat) \<and> (of_char c :: nat) \<le> of_char (CHR ''Z'')
      then char_of (of_char c + (32 :: nat)) else c)"

definition py_lower :: "string \<Rightarrow> string" where
  "py_lower s = map lower_char s"

definition rank_weight :: "config \<Rightarrow> card \<Rightarrow> int" where
  "rank_weight cfg c = dict_get (card_value_order cfg) (rank c) 0"

definition suit_weight :: "config \<Rightarrow> card \<Rightarrow> int" where
  "suit_weight cfg c = dict_get (suit_order cfg) (py_lower (suit c)) 0"

definition card_weight :: "config \<Rightarrow> card \<Rightarrow> int" where
  "card_weight cfg c = rank_weight cfg c * 10 + suit_weight cfg c"

definition py_sort_desc :: "('a \<Rightarrow> int) \<Rightarrow> 'a list \<Rightarrow> 'a list" where
  "py_sort_desc f xs = rev (sort_key f (rev xs))"

text \<open>A configuration of the documented shape, used by the witnesses.\<close>

definition example_config :: config where
  "example_config =
     \<lparr>card_value_order = zip ranks [1, 2, 3, 4, 5, 6, 7, 8, 9, 10, 11, 12, 13],
      suit_order = zip suits [1, 2, 3, 4],
      score_2_win = 10, score_2_lose = -10,
      score_3_win = 20, score_3_draw = 0, score_3_lose = -20\<rparr>"

subsection \<open>The deck\<close>

lemma length_new_deck: "length new_deck = 52"
  by (simp add: new_deck_def suits_def ranks_def)

lemma distinct_new_deck: "distinct new_deck"
  by (simp add: new_deck_def suits_def ranks_def)

subsection \<open>Shuffling is a permutation\<close>

lemma mset_swap_nth:
  "i < length xs \<Longrightarrow> j < length xs \<Longrightarrow> mset (swap i j xs) = mset xs"
  unfolding swap_def by (cases "i = j") (simp_all add: mset_update nth_mem_mset)

lemma length_swap [simp]: "length (swap i j xs) = length xs"
  by (simp add: swap_def)

lemma mset_fisher_yates: "i < length xs \<Longrightarrow> mset (fisher_yates rb i xs) = mset xs"
proof (induction i arbitrary: xs)
  case 0
  then show ?case by simp
next
  case (Suc i)
  let ?ys = "swap (Suc i) (rb (Suc i) mod (Suc i + 1)) xs"
  have j: "rb (Suc i) mod (Suc i + 1) < length xs"
  proof -
    have "rb (Suc i) mod (Suc i + 1) < Suc i + 1" by simp
    with Suc.prems show ?thesis by linarith
  qed
  have "mset ?ys = mset xs" using Suc.prems j by (intro mset_swap_nth) auto
  moreover have "mset (fisher_yates rb i ?ys) = mset ?ys" using Suc.prems by (intro Suc.IH) simp
  ultimately show ?case by simp
qed

lemma mset_shuffle: "mset (shuffle rb xs) = mset xs"
  by (cases xs) (simp_all add: shuffle_def mset_fisher_yates)

lemma length_shuffle: "length (shuffle rb xs) = length xs"
  using mset_shuffle [of rb xs] by (metis size_mset)

subsection \<open>The descending sort\<close>

lemma sorted_map_neg_rev:
  "sorted (map (\<lambda>x. - f x) (rev ys)) \<longleftrightarrow> sorted (map (f :: 'a \<Rightarrow> int) ys)"
  by (simp add: rev_map [symmetric] sorted_wrt_rev sorted_wrt_map sorted_map)

lemma py_sort_desc_mset: "mset (py_sort_desc f xs) = mset xs"
  by (simp add: py_sort_desc_def)

lemma py_sort_desc_sorted:
  assumes "sorted_wrt (\<lambda>x y. f y \<le> f x) xs"
  shows "py_sort_desc f xs = xs"
proof -
  have s: "sorted (map f (rev xs))" using assms by (simp add: sorted_map sorted_wrt_rev)
  show ?thesis by (simp add: py_sort_desc_def sort_key_id_if_sorted [OF s])
qed

lemma py_sort_desc_two:
  "py_sort_desc f [x, y] = (if f x < f y then [y, x] else [x, y])"
  by (simp add: py_sort_desc_def)

subsection \<open>Properties\<close>

text \<open>C35: The deck dealt by \<open>initialize_game\<close>, the fresh deck shuffled by CPython's
  Fisher--Yates, is a permutation of the 52 distinct cards, whatever the random draws.\<close>

theorem shuffled_deck_permutation:
  "mset (shuffle rb new_deck) = mset new_deck \<and> distinct (shuffle rb new_deck)
   \<and> length (shuffle rb new_deck) = 52"
proof -
  have m: "mset (shuffle rb new_deck) = mset new_deck" by (rule mset_shuffle)
  then have "distinct (shuffle rb new_deck)"
    using distinct_new_deck by (metis mset_eq_imp_distinct_iff)
  with m show ?thesis by (simp add: length_shuffle length_new_deck)
qed

text \<open>\<^verbatim>\<open>sort(key=f, reverse=True)\<close>, as CPython runs it (reverse, stable sort,
  reverse), equals the reference stable sort by the negated key: the result is
  sorted by decreasing key and keeps the input order among equal keys.\<close>

lemma py_sort_desc_equiv:
  "py_sort_desc f xs = sort_key (\<lambda>x. - f x) xs"
proof (rule properties_for_sort_key [symmetric])
  show "mset (py_sort_desc f xs) = mset xs" by (rule py_sort_desc_mset)
next
  fix k
  have "filter (\<lambda>x. - f k = - f x) (py_sort_desc f xs)
        = rev (filter (\<lambda>y. f y = f k) (sort_key f (rev xs)))"
    by (simp add: py_sort_desc_def rev_filter eq_commute)
  also have "\<dots> = filter (\<lambda>x. - f k = - f x) xs"
    by (simp add: sort_key_stable rev_filter [symmetric] eq_commute)
  finally show "filter (\<lambda>x. - f k = - f x) (py_sort_desc f xs) = filter (\<lambda>x. - f k = - f x) xs" .
next
  show "sorted (map (\<lambda>x. - f x) (py_sort_desc f xs))"
    by (simp add: py_sort_desc_def sorted_map_neg_rev del: sorted_map)
qed

text \<open>With suit weights in \<open>0..9\<close>, as the weight formula \<open>rank * 10 + suit\<close>
  presumes, a card outweighs another exactly when its rank weight is larger, or the
  rank weights are equal and its suit weight is larger.\<close>

lemma card_weight_lex:
  assumes "0 \<le> suit_weight cfg c1" "suit_weight cfg c1 < 10"
      and "0 \<le> suit_weight cfg c2" "suit_weight cfg c2 < 10"
  shows "card_weight cfg c1 < card_weight cfg c2 \<longleftrightarrow>
         rank_weight cfg c1 < rank_weight cfg c2
         \<or> (rank_weight cfg c1 = rank_weight cfg c2 \<and> suit_weight cfg c1 < suit_weight cfg c2)"
  using assms unfolding card_weight_def by linarith

end
