(* ===== verification/Ledger.thy ===== *)
theory Ledger
  imports Prelude
begin

text \<open>
  The database of \<^verbatim>\<open>src/backend/app/models.py\<close> and the statements the backend runs
  on it: registration and login (\<^verbatim>\<open>user_manager.py\<close>) and the writes that close a
  round (\<^verbatim>\<open>finish_game\<close>, \<^verbatim>\<open>poker_battle.py\<close> lines 131--168). Each table is the
  list of its rows in insertion order. An \<^verbatim>\<open>Integer\<close> primary key of SQLite is the
  row id, one more than the largest in the table. The schema's constraints are the
  \<^verbatim>\<open>unique=True\<close> columns: \<^verbatim>\<open>users.username\<close> and \<^verbatim>\<open>game_sessions.room_id\<close>; an
  insert that violates one raises \<^verbatim>\<open>IntegrityError\<close>, the value \<open>IntegrityError\<close>.
  The awaits between the statements are not interleaved here; each function is one
  uninterrupted sequence of statements.
\<close>

record user_row =
  user_id :: nat
  username :: string
  password :: string
  points :: int

record session_row =
  session_id :: nat
  session_room_id :: string
  session_game_time :: nat
  session_players :: string

record game_record_row =
  record_id :: nat
  record_user_id :: nat
  record_session_id :: nat
  record_game_time :: nat
  record_room_id :: string
  record_opponents :: string
  record_result :: string
  record_score_change :: int

record db =
  users_tbl :: "user_row list"
  sessions_tbl :: "session_row list"
  records_tbl :: "game_record_row list"

datatype ledger_error = UserExists | UserNotFound | WrongPassword | IntegrityError

definition empty_db :: db where
  "empty_db = \<lparr>users_tbl = [], sessions_tbl = [], records_tbl = []\<rparr>"

definition next_row_id :: "nat list \<Rightarrow> nat" where
  "next_row_id ids = Suc (fold max ids 0)"

definition find_user :: "db \<Rightarrow> string \<Rightarrow> user_row option" where
  "find_user d u = find (\<lambda>row. username row = u) (users_tbl d)"

definition register_user :: "db \<Rightarrow> string \<Rightarrow> string \<Rightarrow> ledger_error + db" where
  "register_user d u p =
     (if find_user d u \<noteq> None then Inl UserExists
      else Inr (d\<lparr>users_tbl := users_tbl d @
             [\<lparr>user_id = next_row_id (map user_id (users_tbl d)), username = u,
               password = p, points = 0\<rparr>]\<rparr>))"

definition login_user :: "db \<Rightarrow> string \<Rightarrow> string \<Rightarrow> ledger_error + unit" where
  "login_user d u p =
     (case find_user d u of
        None \<Rightarrow> Inl UserNotFound
      | Some row \<Rightarrow> if password row \<noteq> p then Inl WrongPassword else Inr ())"

fun join_comma :: "string list \<Rightarrow> string" where
  "join_comma [] = []"
| "join_comma [x] = x"
| "join_comma (x # y # xs) = x @ '','' @ join_comma (y # xs)"

definition result_label :: "int \<Rightarrow> string" where
  "result_label sc = (if sc > 0 then ''win'' else if sc < 0 then ''loss'' else ''draw'')"

definition insert_session :: "db \<Rightarrow> string \<Rightarrow> nat \<Rightarrow> string list \<Rightarrow> ledger_error + (nat \<times> db)" where
  "insert_session d rid t players =
     (if \<exists>row \<in> set (sessions_tbl d). session_room_id row = rid then Inl IntegrityError
      else (let sid = next_row_id (map session_id (sessions_tbl d))
            in Inr (sid, d\<lparr>sessions_tbl := sessions_tbl d @
                 [\<lparr>session_id = sid, session_room_id = rid, session_game_time = t,
                   session_players = join_comma players\<rparr>]\<rparr>)))"

definition set_points :: "nat \<Rightarrow> int \<Rightarrow> user_row list \<Rightarrow> user_row list" where
  "set_points uid v rows = map (\<lambda>row. if user_id row = uid then row\<lparr>points := v\<rparr> else row) rows"

definition record_player ::
  "string \<Rightarrow> nat \<Rightarrow> string list \<Rightarrow> (string, int) pydict \<Rightarrow> nat \<Rightarrow> string \<Rightarrow> db \<Rightarrow> db" where
  "record_player rid t players results sid p d =
     (case find_user d p of
        None \<Rightarrow> d
      | Some ud \<Rightarrow>
          (let sc = dict_get results p 0;
               d1 = d\<lparr>users_tbl := set_points (user_id ud) (points ud + sc) (users_tbl d)\<rparr>
           in d1\<lparr>records_tbl := records_tbl d1 @
                [\<lparr>record_id = next_row_id (map record_id (records_tbl d1)),
                  record_user_id = user_id ud, record_session_id = sid, record_game_time = t,
                  record_room_id = rid, record_opponents = join_comma (filter (\<lambda>q. q \<noteq> p) players),
                  record_result = result_label sc, record_score_change = sc\<rparr>]\<rparr>))"

definition record_round ::
  "db \<Rightarrow> string \<Rightarrow> nat \<Rightarrow> string list \<Rightarrow> (string, int) pydict \<Rightarrow> ledger_error + db" where
  "record_round d rid t players results =
     (case insert_session d rid t players of
        Inl e \<Rightarrow> Inl e
      | Inr (sid, d1) \<Rightarrow> Inr (fold (record_player rid t players results sid) players d1))"

text \<open>The username column is unique: no two rows share a username.\<close>

definition db_wf :: "db \<Rightarrow> bool" where
  "db_wf d \<longleftrightarrow> distinct (map username (users_tbl d)) \<and> distinct (map user_id (users_tbl d))"

subsection \<open>Rows and lookups\<close>

lemma fold_max_ge: "m \<le> fold max ids m \<and> (\<forall>x \<in> set ids. x \<le> fold max ids (m :: nat))"
proof (induction ids arbitrary: m)
  case Nil
  then show ?case by simp
next
  case (Cons a ids)
  from Cons.IH [of "max a m"] show ?case by auto
qed

lemma next_row_id_fresh: "next_row_id ids \<notin> set ids"
  using fold_max_ge [of 0 ids] unfolding next_row_id_def by (meson Suc_n_not_le_n)

lemma find_append_None: "find P xs = None \<Longrightarrow> find P (xs @ ys) = find P ys"
  by (induction xs) auto

lemma find_user_Some:
  "find_user d u = Some row \<Longrightarrow> row \<in> set (users_tbl d) \<and> username row = u"
  by (auto simp: find_user_def find_Some_iff)

lemma find_user_None: "find_user d u = None \<longleftrightarrow> (\<forall>row \<in> set (users_tbl d). username row \<noteq> u)"
  by (auto simp: find_user_def find_None_iff)

lemma find_user_append_new:
  "find_user d u = None \<Longrightarrow> username row = u \<Longrightarrow>
   find_user (d\<lparr>users_tbl := users_tbl d @ [row]\<rparr>) u = Some row"
  by (simp add: find_user_def find_append_None)

lemma sessions_record_player [simp]:
  "sessions_tbl (record_player rid t players results sid p d) = sessions_tbl d"
  by (simp add: record_player_def Let_def split: option.splits)

lemma sessions_fold_record_player:
  "sessions_tbl (fold (record_player rid t players results sid) ps d) = sessions_tbl d"
  by (induction ps arbitrary: d) simp_all

subsection \<open>Recording a round\<close>

lemma record_round_Inr:
  "record_round d rid t ps res = Inr d' \<Longrightarrow>
   (\<forall>row \<in> set (sessions_tbl d). session_room_id row \<noteq> rid)
   \<and> (\<exists>sid. sessions_tbl d' = sessions_tbl d @
        [\<lparr>session_id = sid, session_room_id = rid, session_game_time = t,
          session_players = join_comma ps\<rparr>])"
  by (auto simp: record_round_def insert_session_def Let_def sessions_fold_record_player
           split: if_splits)

lemma record_round_fresh_room:
  "\<forall>row \<in> set (sessions_tbl d). session_room_id row \<noteq> rid \<Longrightarrow>
   \<exists>d'. record_round d rid t ps res = Inr d'"
  by (auto simp: record_round_def insert_session_def Let_def)

lemma record_round_dup_room:
  "\<exists>row \<in> set (sessions_tbl d). session_room_id row = rid \<Longrightarrow>
   record_round d rid t ps res = Inl IntegrityError"
  by (simp add: record_round_def insert_session_def)

lemma record_round_then_dup:
  "record_round d rid t ps res = Inr d' \<Longrightarrow> \<exists>row \<in> set (sessions_tbl d'). session_room_id row = rid"
  by (drule record_round_Inr) auto

subsection \<open>The user table stays well formed\<close>

lemma set_points_keys [simp]:
  "map username (set_points uid v rows) = map username rows \<and> map user_id (set_points uid v rows) = map user_id rows"
  by (induction rows) (simp_all add: set_points_def)

lemma users_record_player:
  "map username (users_tbl (record_player rid t ps res sid p d)) = map username (users_tbl d)
   \<and> map user_id (users_tbl (record_player rid t ps res sid p d)) = map user_id (users_tbl d)"
  by (simp add: record_player_def Let_def split: option.splits)

lemma db_wf_record_player: "db_wf d \<Longrightarrow> db_wf (record_player rid t ps res sid p d)"
  using users_record_player [of rid t ps res sid p d] by (simp add: db_wf_def)

lemma db_wf_fold_record_player: "db_wf d \<Longrightarrow> db_wf (fold (record_player rid t ps res sid) qs d)"
  by (induction qs arbitrary: d) (simp_all add: db_wf_record_player)

lemma record_round_wf: "db_wf d \<Longrightarrow> record_round d rid t ps res = Inr d' \<Longrightarrow> db_wf d'"
  by (auto simp: record_round_def insert_session_def Let_def db_wf_def
           intro!: db_wf_fold_record_player [unfolded db_wf_def] split: if_splits)

lemma register_user_wf: "db_wf d \<Longrightarrow> register_user d u p = Inr d' \<Longrightarrow> db_wf d'"
  using next_row_id_fresh [of "map user_id (users_tbl d)"]
  by (auto simp: register_user_def db_wf_def find_user_None split: if_splits)

subsection \<open>What a recorded round leaves in the tables\<close>

lemma find_set_points:
  "map_option user_id (find (\<lambda>row. username row = u) (set_points uid v rows))
   = map_option user_id (find (\<lambda>row. username row = u) rows)"
  by (induction rows) (auto simp: set_points_def)

lemma find_user_record_player:
  "map_option user_id (find_user (record_player rid t ps res sid q d) u) = map_option user_id (find_user d u)"
  by (simp add: record_player_def Let_def find_user_def find_set_points split: option.splits)

lemma records_record_player:
  "\<exists>new. records_tbl (record_player rid t ps res sid q d) = records_tbl d @ new"
  by (simp add: record_player_def Let_def split: option.splits)

lemma records_fold_record_player:
  "\<exists>new. records_tbl (fold (record_player rid t ps res sid) qs d) = records_tbl d @ new"
proof (induction qs arbitrary: d)
  case (Cons q qs)
  from records_record_player [of rid t ps res sid q d] Cons.IH [of "record_player rid t ps res sid q d"]
  show ?case by auto
qed simp

text \<open>The row that \<open>record_player\<close> writes for a registered player.\<close>

abbreviation round_row :: "nat \<Rightarrow> string \<Rightarrow> nat \<Rightarrow> int \<Rightarrow> game_record_row \<Rightarrow> bool" where
  "round_row uid rid t sc row \<equiv>
     record_user_id row = uid \<and> record_room_id row = rid \<and> record_game_time row = t
     \<and> record_score_change row = sc \<and> record_result row = result_label sc"

lemma record_player_row:
  "find_user d p = Some ud \<Longrightarrow>
   \<exists>row \<in> set (records_tbl (record_player rid t ps res sid p d)).
     round_row (user_id ud) rid t (dict_get res p 0) row"
  by (simp add: record_player_def Let_def)

lemma fold_record_player_row:
  "p \<in> set qs \<Longrightarrow> map_option user_id (find_user d p) = Some uid \<Longrightarrow>
   \<exists>row \<in> set (records_tbl (fold (record_player rid t ps res sid) qs d)).
     round_row uid rid t (dict_get res p 0) row"
proof (induction qs arbitrary: d)
  case (Cons q qs)
  let ?d1 = "record_player rid t ps res sid q d"
  have u1: "map_option user_id (find_user ?d1 p) = Some uid"
    using Cons.prems(2) find_user_record_player [of rid t ps res sid q d p] by simp
  show ?case
  proof (cases "p \<in> set qs")
    case True
    from Cons.IH [OF True u1] show ?thesis by simp
  next
    case False
    with Cons.prems(1) have "p = q" by simp
    from Cons.prems(2) obtain ud where "find_user d p = Some ud" "user_id ud = uid" by auto
    with record_player_row [of d p ud rid t ps res sid] \<open>p = q\<close>
    obtain row where "row \<in> set (records_tbl ?d1)" "round_row uid rid t (dict_get res p 0) row"
      by blast
    with records_fold_record_player [of rid t ps res sid qs ?d1] show ?thesis by auto
  qed
qed simp

lemma find_user_fold_record_player:
  "map_option user_id (find_user (fold (record_player rid t ps res sid) qs d) u)
   = map_option user_id (find_user d u)"
  by (induction qs arbitrary: d) (simp_all add: find_user_record_player)

lemma record_round_row:
  assumes r: "record_round d rid t ps res = Inr d'" and p: "p \<in> set ps" and f: "find_user d p = Some ud"
  shows "(\<exists>ud'. find_user d' p = Some ud' \<and> user_id ud' = user_id ud)
         \<and> (\<exists>row \<in> set (records_tbl d'). round_row (user_id ud) rid t (dict_get res p 0) row)"
proof -
  from r obtain sid d1 where ins: "insert_session d rid t ps = Inr (sid, d1)"
      and d': "d' = fold (record_player rid t ps res sid) ps d1"
    by (auto simp: record_round_def split: sum.splits)
  from ins have "users_tbl d1 = users_tbl d"
    by (auto simp: insert_session_def Let_def split: if_splits)
  with f have u: "map_option user_id (find_user d1 p) = Some (user_id ud)"
    by (simp add: find_user_def)
  from find_user_fold_record_player [of rid t ps res sid ps d1 p] u d'
  have "\<exists>ud'. find_user d' p = Some ud' \<and> user_id ud' = user_id ud" by auto
  with fold_record_player_row [OF p u] d' show ?thesis by blast
qed

end
