(* ===== verification/Game.thy ===== *)
theory Game
  imports Rooms Cards Ledger
begin

text \<open>
  The game engine of \<^verbatim>\<open>src/backend/app/game_modes/poker_battle.py\<close>. The module keeps
  the global dictionary \<^verbatim>\<open>game_states\<close> from room id to a game state, here the map
  \<open>game_states\<close>; a game state is the record \<open>game_state\<close>, whose per-player
  dictionaries (\<^verbatim>\<open>hands\<close>, \<^verbatim>\<open>table\<close>, \<^verbatim>\<open>playerActions\<close>) keep their insertion order,
  the order of the room's members when the game was initialised. The timestamp
  \<^verbatim>\<open>datetime.utcnow()\<close> is the parameter \<open>now\<close>, the shuffle's random draws the parameter
  \<open>rb\<close>. Each engine function returns its outcome (an \<^verbatim>\<open>HTTPException\<close> or another
  exception as a \<open>game_error\<close>) together with the state it leaves behind: Python
  mutates the state in place, and two of the failures happen after a mutation, so the
  state after an exception is part of the model. \<open>KeyErr\<close> and \<open>TypeErr\<close> are the
  uncaught \<^verbatim>\<open>KeyError\<close>/\<^verbatim>\<open>TypeError\<close> of a dictionary subscript; \<open>DbError\<close> wraps
  a failure of the ledger's statements.
\<close>

record actions =
  drawn :: bool
  played :: bool

record game_state =
  deck :: "card list"
  hands :: "(string, card list) pydict"
  table :: "(string, card option) pydict"
  player_actions :: "(string, actions) pydict"
  game_time :: nat
  finished :: bool

type_synonym game_states = "string \<rightharpoonup> game_state"

datatype game_error =
    NotInitialized | AlreadyDrawn | DeckEmpty | AlreadyPlayed | CardNotHeld
  | AlreadyFinished | RoundIncomplete | UnsupportedPlayerCount
  | KeyErr | TypeErr | DbError ledger_error

record finish_result =
  results :: "(string, int) pydict"
  final_table :: "(string, card option) pydict"

definition fresh_actions :: actions where
  "fresh_actions = \<lparr>drawn = False, played = False\<rparr>"

definition new_game_state :: "string list \<Rightarrow> (nat \<Rightarrow> nat) \<Rightarrow> nat \<Rightarrow> game_state" where
  "new_game_state ps rb now =
     \<lparr>deck = shuffle rb new_deck,
      hands = map (\<lambda>p. (p, [])) ps,
      table = map (\<lambda>p. (p, None)) ps,
      player_actions = map (\<lambda>p. (p, fresh_actions)) ps,
      game_time = now,
      finished = False\<rparr>"

definition initialize_game ::
  "game_states \<Rightarrow> room option \<Rightarrow> (nat \<Rightarrow> nat) \<Rightarrow> nat \<Rightarrow> game_error + (game_state \<times> game_states)" where
  "initialize_game gs ro rb now =
     (case ro of
        None \<Rightarrow> Inl TypeErr
      | Some r \<Rightarrow>
          (let st = new_game_state (dict_keys (users r)) rb now
           in Inr (st, gs(room_id r \<mapsto> st))))"

definition has_drawn :: "game_state \<Rightarrow> string \<Rightarrow> bool" where
  "has_drawn st u = (case map_of (player_actions st) u of None \<Rightarrow> False | Some a \<Rightarrow> drawn a)"

definition has_played :: "game_state \<Rightarrow> string \<Rightarrow> bool" where
  "has_played st u = (case map_of (player_actions st) u of None \<Rightarrow> False | Some a \<Rightarrow> played a)"

definition draw_card :: "game_states \<Rightarrow> string \<Rightarrow> string \<Rightarrow> (game_error + card) \<times> game_states" where
  "draw_card gs rid u =
     (case gs rid of
        None \<Rightarrow> (Inl NotInitialized, gs)
      | Some st \<Rightarrow>
          if has_drawn st u then (Inl AlreadyDrawn, gs)
          else (case deck st of
                  [] \<Rightarrow> (Inl DeckEmpty, gs)
                | c # rest \<Rightarrow>
                    (case map_of (hands st) u of
                       None \<Rightarrow> (Inl KeyErr, gs(rid \<mapsto> st\<lparr>deck := rest\<rparr>))
                     | Some h \<Rightarrow>
                         (let st1 = st\<lparr>deck := rest, hands := AList.update u (h @ [c]) (hands st)\<rparr>
                          in case map_of (player_actions st) u of
                               None \<Rightarrow> (Inl KeyErr, gs(rid \<mapsto> st1))
                             | Some a \<Rightarrow>
                                 (Inr c, gs(rid \<mapsto> st1\<lparr>player_actions :=
                                    AList.update u (a\<lparr>drawn := True\<rparr>) (player_actions st)\<rparr>))))))"

definition play_card ::
  "game_states \<Rightarrow> string \<Rightarrow> string \<Rightarrow> card option \<Rightarrow> (game_error + unit) \<times> game_states" where
  "play_card gs rid u co =
     (case gs rid of
        None \<Rightarrow> (Inl NotInitialized, gs)
      | Some st \<Rightarrow>
          if has_played st u then (Inl AlreadyPlayed, gs)
          else (case (map_of (hands st) u, co) of
                  (Some h, Some c) \<Rightarrow>
                    if c \<notin> set h then (Inl CardNotHeld, gs)
                    else (let st1 = st\<lparr>hands := AList.update u (remove1 c h) (hands st),
                                       table := AList.update u (Some c) (table st)\<rparr>
                          in case map_of (player_actions st) u of
                               None \<Rightarrow> (Inl KeyErr, gs(rid \<mapsto> st1))
                             | Some a \<Rightarrow>
                                 (Inr (), gs(rid \<mapsto> st1\<lparr>player_actions :=
                                    AList.update u (a\<lparr>played := True\<rparr>) (player_actions st)\<rparr>)))
                | _ \<Rightarrow> (Inl CardNotHeld, gs)))"

definition round_complete :: "game_state \<Rightarrow> bool" where
  "round_complete st = list_all (\<lambda>(p, c). c \<noteq> None) (table st)"

definition played_weight :: "config \<Rightarrow> string \<times> card option \<Rightarrow> int" where
  "played_weight cfg pc = (case snd pc of None \<Rightarrow> 0 | Some c \<Rightarrow> card_weight cfg c)"

definition round_results ::
  "config \<Rightarrow> (string \<times> card option) list \<Rightarrow> game_error + (string, int) pydict" where
  "round_results cfg ranked =
     (case ranked of
        [a, b] \<Rightarrow> Inr (AList.update (fst b) (score_2_lose cfg)
                      (AList.update (fst a) (score_2_win cfg) []))
      | [a, b, c] \<Rightarrow> Inr (AList.update (fst c) (score_3_lose cfg)
                      (AList.update (fst b) (score_3_draw cfg)
                        (AList.update (fst a) (score_3_win cfg) [])))
      | _ \<Rightarrow> Inl UnsupportedPlayerCount)"

definition finish_game ::
  "game_states \<Rightarrow> db \<Rightarrow> room option \<Rightarrow> config \<Rightarrow> (game_error + finish_result) \<times> game_states \<times> db" where
  "finish_game gs d ro cfg =
     (case ro of
        None \<Rightarrow> (Inl TypeErr, gs, d)
      | Some r \<Rightarrow>
          (let rid = room_id r in
           case gs rid of
             None \<Rightarrow> (Inl NotInitialized, gs, d)
           | Some st \<Rightarrow>
               if finished st then (Inl AlreadyFinished, gs, d)
               else if \<not> round_complete st then (Inl RoundIncomplete, gs, d)
               else (case round_results cfg (py_sort_desc (played_weight cfg) (table st)) of
                       Inl e \<Rightarrow> (Inl e, gs, d)
                     | Inr res \<Rightarrow>
                         (case record_round d rid (game_time st) (dict_keys (table st)) res of
                            Inl e \<Rightarrow> (Inl (DbError e), gs, d)
                          | Inr d' \<Rightarrow>
                              (Inr \<lparr>results = res, final_table = table st\<rparr>,
                               gs(rid \<mapsto> st\<lparr>finished := True\<rparr>), d')))))"

subsection \<open>The invariant\<close>

text \<open>
  Each player is in one of three phases of a round: waiting (nothing drawn), holding
  the card drawn, or having played it. \<open>phase_of\<close> reads the phase off the player's
  hand, table slot and action flags; a combination outside the three is no phase.
  The invariant \<open>game_inv\<close>: the three per-player dictionaries have the same
  keys with no duplicates, every player is in a phase, and the cards of the deck,
  the hands and the table are exactly the 52 cards of a fresh deck.
\<close>

datatype phase = Waiting | Holding card | Played card

datatype player_event = DrawEv card | PlayEv card

text \<open>The abstract per-player machine the engine implements: a waiting player draws
  a card and holds it; a holding player plays that card.\<close>

inductive phase_step :: "phase \<Rightarrow> player_event \<Rightarrow> phase \<Rightarrow> bool" where
  draw: "phase_step Waiting (DrawEv c) (Holding c)"
| play: "phase_step (Holding c) (PlayEv c) (Played c)"

fun phase_of :: "card list \<Rightarrow> card option \<Rightarrow> bool \<Rightarrow> bool \<Rightarrow> phase option" where
  "phase_of [] None False False = Some Waiting"
| "phase_of [c] None True False = Some (Holding c)"
| "phase_of [] (Some c) True True = Some (Played c)"
| "phase_of _ _ _ _ = None"

definition player_phase :: "game_state \<Rightarrow> string \<Rightarrow> phase option" where
  "player_phase st p =
     (case (map_of (hands st) p, map_of (table st) p, map_of (player_actions st) p) of
        (Some h, Some tc, Some a) \<Rightarrow> phase_of h tc (drawn a) (played a)
      | _ \<Rightarrow> None)"

definition players :: "game_state \<Rightarrow> string list" where
  "players st = dict_keys (table st)"

definition option_mset :: "'a option \<Rightarrow> 'a multiset" where
  "option_mset co = (case co of None \<Rightarrow> {#} | Some c \<Rightarrow> {#c#})"

definition cards_in_play :: "game_state \<Rightarrow> card multiset" where
  "cards_in_play st =
     mset (deck st) + sum_list (map (\<lambda>(p, h). mset h) (hands st))
     + sum_list (map (\<lambda>(p, c). option_mset c) (table st))"

definition game_wf :: "game_state \<Rightarrow> bool" where
  "game_wf st \<longleftrightarrow> distinct (players st) \<and> dict_keys (hands st) = players st
                 \<and> dict_keys (player_actions st) = players st"

definition game_inv :: "game_state \<Rightarrow> bool" where
  "game_inv st \<longleftrightarrow> game_wf st \<and> list_all (\<lambda>p. player_phase st p \<noteq> None) (players st)
                  \<and> cards_in_play st = mset new_deck"

text \<open>The part of the invariant that does not count cards.\<close>

definition game_shape :: "game_state \<Rightarrow> bool" where
  "game_shape st \<longleftrightarrow> game_wf st \<and> list_all (\<lambda>p. player_phase st p \<noteq> None) (players st)"

text \<open>The number of cards a player holds in hand or on the table.\<close>

definition held :: "game_state \<Rightarrow> string \<Rightarrow> nat" where
  "held st p = length (the (map_of (hands st) p)) + size (option_mset (the (map_of (table st) p)))"

text \<open>Concrete rooms and rounds used by the witnesses: \<open>alice\<close> and \<open>bob\<close> have both
  played (7 of hearts, king of spades); the three-player round has a weight tie under
  a configuration without suit weights.\<close>

definition example_room :: room where
  "example_room = \<lparr>room_id = ''R1'', users = [(''alice'', True), (''bob'', True)]\<rparr>"

definition example_round :: game_state where
  "example_round =
     \<lparr>deck = [], hands = [(''alice'', []), (''bob'', [])],
      table = [(''alice'', Some \<lparr>suit = ''hearts'', rank = ''7''\<rparr>),
               (''bob'', Some \<lparr>suit = ''spades'', rank = ''K''\<rparr>)],
      player_actions = [(''alice'', \<lparr>drawn = True, played = True\<rparr>),
                        (''bob'', \<lparr>drawn = True, played = True\<rparr>)],
      game_time = 0, finished = False\<rparr>"

definition example_room3 :: room where
  "example_room3 = \<lparr>room_id = ''R3'', users = [(''alice'', True), (''bob'', True), (''carol'', True)]\<rparr>"

definition example_round3 :: game_state where
  "example_round3 =
     \<lparr>deck = [], hands = [(''alice'', []), (''bob'', []), (''carol'', [])],
      table = [(''alice'', Some \<lparr>suit = ''hearts'', rank = ''7''\<rparr>),
               (''bob'', Some \<lparr>suit = ''spades'', rank = ''7''\<rparr>),
               (''carol'', Some \<lparr>suit = ''clubs'', rank = ''2''\<rparr>)],
      player_actions = [(''alice'', \<lparr>drawn = True, played = True\<rparr>),
                        (''bob'', \<lparr>drawn = True, played = True\<rparr>),
                        (''carol'', \<lparr>drawn = True, played = True\<rparr>)],
      game_time = 0, finished = False\<rparr>"

definition tie_config :: config where
  "tie_config = example_config\<lparr>suit_order := []\<rparr>"

subsection \<open>Facts about phases and keys\<close>

lemma phase_of_Some:
  "phase_of h tc d pl = Some ph \<longleftrightarrow>
     (h = [] \<and> tc = None \<and> \<not> d \<and> \<not> pl \<and> ph = Waiting)
   \<or> (\<exists>c. h = [c] \<and> tc = None \<and> d \<and> \<not> pl \<and> ph = Holding c)
   \<or> (\<exists>c. h = [] \<and> tc = Some c \<and> d \<and> pl \<and> ph = Played c)"
  by (cases "(h, tc, d, pl)" rule: phase_of.cases) auto

lemma player_phase_Some:
  "player_phase st p = Some ph \<longleftrightarrow>
     (\<exists>h tc a. map_of (hands st) p = Some h \<and> map_of (table st) p = Some tc
        \<and> map_of (player_actions st) p = Some a \<and> phase_of h tc (drawn a) (played a) = Some ph)"
  by (auto simp: player_phase_def split: option.splits)

lemma game_wf_hands_None:
  "game_wf st \<Longrightarrow> map_of (hands st) u = None \<longleftrightarrow> u \<notin> set (players st)"
  by (simp add: game_wf_def players_def dict_keys_def map_of_eq_None_iff)
     (metis set_map)

lemma game_wf_actions_None:
  "game_wf st \<Longrightarrow> map_of (player_actions st) u = None \<longleftrightarrow> u \<notin> set (players st)"
  by (simp add: game_wf_def players_def dict_keys_def map_of_eq_None_iff)
     (metis set_map)

lemma game_wf_table_None:
  "map_of (table st) u = None \<longleftrightarrow> u \<notin> set (players st)"
  by (simp add: players_def dict_keys_def map_of_eq_None_iff)

lemma game_invD:
  "game_inv st \<Longrightarrow> u \<in> set (players st) \<Longrightarrow>
   game_wf st \<and> (\<exists>ph. player_phase st u = Some ph) \<and> cards_in_play st = mset new_deck"
  by (auto simp: game_inv_def list_all_iff)

lemma phase_not_drawn:
  "player_phase st u = Some ph \<Longrightarrow> \<not> has_drawn st u \<Longrightarrow>
   ph = Waiting \<and> map_of (hands st) u = Some [] \<and> map_of (table st) u = Some None
   \<and> map_of (player_actions st) u = Some fresh_actions"
  by (auto simp: player_phase_Some phase_of_Some has_drawn_def fresh_actions_def)

lemma phase_not_played:
  "player_phase st u = Some ph \<Longrightarrow> \<not> has_played st u \<Longrightarrow>
   map_of (table st) u = Some None
   \<and> (\<exists>h a. map_of (hands st) u = Some h \<and> map_of (player_actions st) u = Some a \<and> \<not> played a
       \<and> (h = [] \<and> \<not> drawn a \<or> (\<exists>c. h = [c] \<and> drawn a \<and> ph = Holding c)))"
  by (auto simp: player_phase_Some phase_of_Some has_played_def)

lemma sum_hands_update:
  "distinct (map fst (hands st)) \<Longrightarrow> map_of (hands st) u = Some h \<Longrightarrow>
   sum_list (map (\<lambda>(p, x). mset x) (AList.update u h' (hands st))) + mset h
     = sum_list (map (\<lambda>(p, x). mset x) (hands st)) + mset h'"
  by (rule sum_update_present)

lemma sum_table_update:
  "distinct (map fst (table st)) \<Longrightarrow> map_of (table st) u = Some tc \<Longrightarrow>
   sum_list (map (\<lambda>(p, x). option_mset x) (AList.update u tc' (table st))) + option_mset tc
     = sum_list (map (\<lambda>(p, x). option_mset x) (table st)) + option_mset tc'"
  by (rule sum_update_present)

subsection \<open>Drawing a card\<close>

text \<open>The state a successful draw of player \<open>u\<close> leaves: the deck's front card moved
  into the hand, the drawn flag set.\<close>

lemma game_inv_shape: "game_inv st \<longleftrightarrow> game_shape st \<and> cards_in_play st = mset new_deck"
  by (auto simp: game_inv_def game_shape_def)

lemma game_inv_shapeD: "game_inv st \<Longrightarrow> game_shape st"
  by (simp add: game_inv_shape)

lemma game_shapeD:
  "game_shape st \<Longrightarrow> u \<in> set (players st) \<Longrightarrow> game_wf st \<and> (\<exists>ph. player_phase st u = Some ph)"
  by (auto simp: game_shape_def list_all_iff)

lemma draw_card_player:
  assumes inv: "game_shape st" and g: "gs rid = Some st" and u: "u \<in> set (players st)"
      and nd: "\<not> has_drawn st u" and dk: "deck st = c # rest"
  shows "draw_card gs rid u =
           (Inr c, gs(rid \<mapsto> st\<lparr>deck := rest, hands := AList.update u [c] (hands st),
              player_actions := AList.update u (fresh_actions\<lparr>drawn := True\<rparr>) (player_actions st)\<rparr>))"
proof -
  from inv u obtain ph where "player_phase st u = Some ph" by (blast dest: game_shapeD)
  with nd have "map_of (hands st) u = Some []" and "map_of (player_actions st) u = Some fresh_actions"
    by (auto dest: phase_not_drawn)
  with g nd dk show ?thesis by (simp add: draw_card_def)
qed

lemma draw_step_phase:
  "map_of (table st) u = Some None \<Longrightarrow>
   player_phase (st\<lparr>deck := rest, hands := AList.update u [c] (hands st),
       player_actions := AList.update u (fresh_actions\<lparr>drawn := True\<rparr>) (player_actions st)\<rparr>) p
   = (if p = u then Some (Holding c) else player_phase st p)"
  by (auto simp: player_phase_def update_conv' fresh_actions_def)

lemma draw_step_shape:
  assumes inv: "game_shape st" and u: "u \<in> set (players st)" and nd: "\<not> has_drawn st u"
      and dk: "deck st = c # rest"
  shows "game_shape (st\<lparr>deck := rest, hands := AList.update u [c] (hands st),
            player_actions := AList.update u (fresh_actions\<lparr>drawn := True\<rparr>) (player_actions st)\<rparr>)
         \<and> cards_in_play (st\<lparr>deck := rest, hands := AList.update u [c] (hands st),
            player_actions := AList.update u (fresh_actions\<lparr>drawn := True\<rparr>) (player_actions st)\<rparr>)
           = cards_in_play st"
    (is "game_shape ?st' \<and> _")
proof -
  from inv u obtain ph where wf: "game_wf st" and ph: "player_phase st u = Some ph"
    by (blast dest: game_shapeD)
  from ph nd have h: "map_of (hands st) u = Some []" and t: "map_of (table st) u = Some None"
      and a: "map_of (player_actions st) u = Some fresh_actions"
    by (auto dest: phase_not_drawn)
  from wf have kh: "map fst (hands st) = players st" and ka: "map fst (player_actions st) = players st"
      and d: "distinct (players st)"
    by (auto simp: game_wf_def dict_keys_def)
  from u kh ka have uh: "u \<in> set (map fst (hands st))" and ua: "u \<in> set (map fst (player_actions st))"
    by simp_all
  have pl: "players ?st' = players st" by (simp add: players_def)
  have wf': "game_wf ?st'"
    using wf uh ua by (simp add: game_wf_def players_def dict_keys_def keys_update_present)
  have pp: "player_phase ?st' p = (if p = u then Some (Holding c) else player_phase st p)" for p
    using t by (rule draw_step_phase)
  have "list_all (\<lambda>p. player_phase ?st' p \<noteq> None) (players ?st')"
    using inv pl pp by (auto simp: game_shape_def list_all_iff)
  moreover have "cards_in_play ?st' = cards_in_play st"
  proof -
    from kh d have "distinct (map fst (hands st))" by simp
    from sum_hands_update [OF this h, of "[c]"]
    have "sum_list (map (\<lambda>(p, x). mset x) (AList.update u [c] (hands st)))
          = sum_list (map (\<lambda>(p, x). mset x) (hands st)) + {#c#}" by simp
    with dk show ?thesis by (simp add: cards_in_play_def)
  qed
  ultimately show ?thesis using wf' by (simp add: game_shape_def)
qed

lemma draw_step_inv:
  assumes inv: "game_inv st" and u: "u \<in> set (players st)" and nd: "\<not> has_drawn st u"
      and dk: "deck st = c # rest"
  shows "game_inv (st\<lparr>deck := rest, hands := AList.update u [c] (hands st),
            player_actions := AList.update u (fresh_actions\<lparr>drawn := True\<rparr>) (player_actions st)\<rparr>)"
  using inv draw_step_shape [OF _ u nd dk] by (simp add: game_inv_shape)

subsection \<open>Playing a card\<close>

lemma phase_Holding:
  "player_phase st u = Some (Holding c) \<Longrightarrow>
   map_of (hands st) u = Some [c] \<and> map_of (table st) u = Some None
   \<and> map_of (player_actions st) u = Some \<lparr>drawn = True, played = False\<rparr>"
  by (auto simp: player_phase_Some phase_of_Some)

lemma play_card_player:
  assumes g: "gs rid = Some st" and ph: "player_phase st u = Some (Holding c)"
  shows "play_card gs rid u (Some c) =
           (Inr (), gs(rid \<mapsto> st\<lparr>hands := AList.update u [] (hands st),
              table := AList.update u (Some c) (table st),
              player_actions := AList.update u \<lparr>drawn = True, played = True\<rparr> (player_actions st)\<rparr>))"
proof -
  from ph have "map_of (hands st) u = Some [c]"
      and "map_of (player_actions st) u = Some \<lparr>drawn = True, played = False\<rparr>"
    by (simp_all add: phase_Holding)
  with g show ?thesis by (simp add: play_card_def has_played_def)
qed

lemma play_step_phase:
  "player_phase (st\<lparr>hands := AList.update u [] (hands st),
       table := AList.update u (Some c) (table st),
       player_actions := AList.update u \<lparr>drawn = True, played = True\<rparr> (player_actions st)\<rparr>) p
   = (if p = u then Some (Played c) else player_phase st p)"
  by (auto simp: player_phase_def update_conv')

lemma play_step_shape:
  assumes inv: "game_shape st" and ph: "player_phase st u = Some (Holding c)"
  shows "game_shape (st\<lparr>hands := AList.update u [] (hands st),
            table := AList.update u (Some c) (table st),
            player_actions := AList.update u \<lparr>drawn = True, played = True\<rparr> (player_actions st)\<rparr>)
         \<and> cards_in_play (st\<lparr>hands := AList.update u [] (hands st),
            table := AList.update u (Some c) (table st),
            player_actions := AList.update u \<lparr>drawn = True, played = True\<rparr> (player_actions st)\<rparr>)
           = cards_in_play st"
    (is "game_shape ?st' \<and> _")
proof -
  from inv have wf: "game_wf st" by (simp add: game_shape_def)
  from ph have h: "map_of (hands st) u = Some [c]" and t: "map_of (table st) u = Some None"
      and a: "map_of (player_actions st) u = Some \<lparr>drawn = True, played = False\<rparr>"
    by (simp_all add: phase_Holding)
  from wf have kh: "map fst (hands st) = players st" and ka: "map fst (player_actions st) = players st"
      and d: "distinct (players st)"
    by (auto simp: game_wf_def dict_keys_def)
  from t have u: "u \<in> set (players st)"
    using game_wf_table_None by (metis option.distinct(1))
  with kh ka have uh: "u \<in> set (map fst (hands st))" and ua: "u \<in> set (map fst (player_actions st))"
      and ut: "u \<in> set (map fst (table st))"
    by (simp_all add: players_def dict_keys_def)
  have pl: "players ?st' = players st"
    using ut by (simp add: players_def dict_keys_def keys_update_present)
  have wf': "game_wf ?st'"
    using wf uh ua ut by (simp add: game_wf_def players_def dict_keys_def keys_update_present)
  have pp: "player_phase ?st' p = (if p = u then Some (Played c) else player_phase st p)" for p
    by (rule play_step_phase)
  have "list_all (\<lambda>p. player_phase ?st' p \<noteq> None) (players ?st')"
    using inv pl pp by (auto simp: game_shape_def list_all_iff)
  moreover have "cards_in_play ?st' = cards_in_play st"
  proof -
    from kh d have dh: "distinct (map fst (hands st))" by simp
    from d have dt: "distinct (map fst (table st))" by (simp add: players_def dict_keys_def)
    from sum_hands_update [OF dh h, of "[]"]
    have hs: "sum_list (map (\<lambda>(p, x). mset x) (AList.update u [] (hands st))) + {#c#}
          = sum_list (map (\<lambda>(p, x). mset x) (hands st))" by simp
    from sum_table_update [OF dt t, of "Some c"]
    have ts: "sum_list (map (\<lambda>(p, x). option_mset x) (AList.update u (Some c) (table st)))
          = sum_list (map (\<lambda>(p, x). option_mset x) (table st)) + {#c#}"
      by (simp add: option_mset_def)
    let ?S' = "sum_list (map (\<lambda>(p, x). mset x) (AList.update u [] (hands st)))"
    let ?T = "sum_list (map (\<lambda>(p, x). option_mset x) (table st))"
    have "cards_in_play ?st' = mset (deck st) + ?S' + (?T + {#c#})"
      by (simp add: cards_in_play_def ts)
    also have "\<dots> = mset (deck st) + (?S' + {#c#}) + ?T"
      by (simp add: add_ac)
    also have "\<dots> = cards_in_play st"
      using hs by (simp add: cards_in_play_def)
    finally show ?thesis .
  qed
  ultimately show ?thesis using wf' by (simp add: game_shape_def)
qed

lemma play_step_inv:
  assumes inv: "game_inv st" and ph: "player_phase st u = Some (Holding c)"
  shows "game_inv (st\<lparr>hands := AList.update u [] (hands st),
            table := AList.update u (Some c) (table st),
            player_actions := AList.update u \<lparr>drawn = True, played = True\<rparr> (player_actions st)\<rparr>)"
  using inv play_step_shape [OF _ ph] by (simp add: game_inv_shape)

subsection \<open>The initial state\<close>

lemma new_game_state_inv:
  assumes "distinct ps"
  shows "game_inv (new_game_state ps rb now)"
proof -
  let ?st = "new_game_state ps rb now"
  have pl: "players ?st = ps" by (simp add: new_game_state_def players_def dict_keys_def comp_def)
  have "game_wf ?st" using assms pl by (simp add: game_wf_def new_game_state_def dict_keys_def comp_def)
  moreover have "player_phase ?st p = Some Waiting" if "p \<in> set ps" for p
    using that by (simp add: player_phase_def new_game_state_def map_of_map_restrict fresh_actions_def)
  moreover have "cards_in_play ?st = mset new_deck"
  proof -
    have "sum_list (map (\<lambda>(p, x). mset x) (hands ?st)) = {#}"
      by (induction ps) (simp_all add: new_game_state_def)
    moreover have "sum_list (map (\<lambda>(p, x). option_mset x) (table ?st)) = {#}"
      by (induction ps) (simp_all add: new_game_state_def option_mset_def)
    ultimately show ?thesis by (simp add: cards_in_play_def new_game_state_def mset_shuffle)
  qed
  ultimately show ?thesis using pl by (simp add: game_inv_def list_all_iff)
qed

lemma fisher_yates_id: "fisher_yates (\<lambda>i. i) n xs = xs"
  by (induction n arbitrary: xs) (simp_all add: swap_def)

lemma shuffle_id: "shuffle (\<lambda>i. i) xs = xs"
  by (simp add: shuffle_def fisher_yates_id)

subsection \<open>Drawing: invariant, behaviour and the lost card\<close>

lemma draw_card_unchanged:
  "gs rid = Some st \<Longrightarrow> has_drawn st u \<or> deck st = [] \<Longrightarrow> snd (draw_card gs rid u) = gs"
  by (auto simp: draw_card_def split: list.splits)

text \<open>C2: A draw by a player of the game keeps the game invariant (no card duplicated
  or lost, every player in a phase) whatever its outcome, and touches no other room.\<close>

theorem draw_card_preserves_inv:
  assumes inv: "game_inv st" and g: "gs rid = Some st" and u: "u \<in> set (players st)"
      and r: "draw_card gs rid u = (res, gs')"
  shows "\<exists>st'. gs' rid = Some st' \<and> game_inv st' \<and> (\<forall>rid'. rid' \<noteq> rid \<longrightarrow> gs' rid' = gs rid')"
proof (cases "has_drawn st u \<or> deck st = []")
  case True
  with g r have "gs' = gs" using draw_card_unchanged by (metis snd_conv)
  with g inv show ?thesis by simp
next
  case False
  then obtain c rest where dk: "deck st = c # rest" and nd: "\<not> has_drawn st u"
    by (cases "deck st") auto
  from draw_card_player [where gs = gs and rid = rid, OF game_inv_shapeD [OF inv] g u nd dk] r
       draw_step_inv [OF inv u nd dk]
  show ?thesis by auto
qed

text \<open>C3: A draw by a name that is not a player of the game (a member who joined after
  the game started, or a message without the player's name) pops the deck's front
  card and then fails on \<^verbatim>\<open>state["hands"][username]\<close> with an uncaught \<^verbatim>\<open>KeyError\<close>:
  the card is in no deck, hand or table slot any more, so the game invariant is lost.\<close>

theorem draw_card_nonplayer_loses_card:
  assumes inv: "game_inv st" and g: "gs rid = Some st" and u: "u \<notin> set (players st)"
      and dk: "deck st = c # rest"
  shows "draw_card gs rid u = (Inl KeyErr, gs(rid \<mapsto> st\<lparr>deck := rest\<rparr>))
         \<and> c \<notin># cards_in_play (st\<lparr>deck := rest\<rparr>) \<and> \<not> game_inv (st\<lparr>deck := rest\<rparr>)"
proof -
  from inv have wf: "game_wf st" and cons: "cards_in_play st = mset new_deck"
    by (simp_all add: game_inv_def)
  from wf u have "map_of (hands st) u = None" and "map_of (player_actions st) u = None"
    by (simp_all add: game_wf_hands_None game_wf_actions_None)
  with g dk have d: "draw_card gs rid u = (Inl KeyErr, gs(rid \<mapsto> st\<lparr>deck := rest\<rparr>))"
    by (simp add: draw_card_def has_drawn_def)
  have split: "cards_in_play st = add_mset c (cards_in_play (st\<lparr>deck := rest\<rparr>))"
    using dk by (simp add: cards_in_play_def)
  have "count (mset new_deck) c \<le> 1"
    using distinct_new_deck by (simp add: distinct_count_atmost_1)
  moreover have "count (cards_in_play st) c = Suc (count (cards_in_play (st\<lparr>deck := rest\<rparr>)) c)"
    using split by simp
  ultimately have "c \<notin># cards_in_play (st\<lparr>deck := rest\<rparr>)"
    using cons by (simp add: not_in_iff)
  moreover have "c \<in># cards_in_play st" using split by simp
  then have "c \<in># mset new_deck" using cons by simp
  ultimately show ?thesis using d by (auto simp: game_inv_def)
qed

subsection \<open>Playing: invariant and the card-not-held error\<close>

lemma play_card_changes:
  assumes "play_card gs rid u co = (res, gs')" and "gs rid = Some st" and "gs' \<noteq> gs"
  shows "\<not> has_played st u \<and> (\<exists>h c. map_of (hands st) u = Some h \<and> co = Some c \<and> c \<in> set h)"
  using assms by (auto simp: play_card_def split: option.splits if_splits)

text \<open>C4: A play, by anyone and with any card, keeps the game invariant and touches
  no other room.\<close>

theorem play_card_preserves_inv:
  assumes inv: "game_inv st" and g: "gs rid = Some st" and r: "play_card gs rid u co = (res, gs')"
  shows "\<exists>st'. gs' rid = Some st' \<and> game_inv st' \<and> (\<forall>rid'. rid' \<noteq> rid \<longrightarrow> gs' rid' = gs rid')"
proof (cases "gs' = gs")
  case True
  with g inv show ?thesis by simp
next
  case False
  from play_card_changes [OF r g False] obtain h c where np: "\<not> has_played st u"
      and h: "map_of (hands st) u = Some h" and co: "co = Some c" and c: "c \<in> set h"
    by blast
  from inv have wf: "game_wf st" by (simp add: game_inv_def)
  have u: "u \<in> set (players st)" using game_wf_hands_None [OF wf, of u] h by simp
  with inv obtain ph where ph: "player_phase st u = Some ph" by (blast dest: game_invD)
  from phase_not_played [OF ph np] h c have hold: "player_phase st u = Some (Holding c)"
    using ph by auto
  from play_card_player [where gs = gs and rid = rid, OF g hold] r co play_step_inv [OF inv hold]
  show ?thesis by auto
qed

text \<open>C17: Playing a card the player does not hold fails with \<open>CardNotHeld\<close> and leaves
  every hand and table slot as it was.\<close>

theorem play_card_not_held:
  "gs rid = Some st \<Longrightarrow> \<not> has_played st u \<Longrightarrow> map_of (hands st) u = Some h \<Longrightarrow> c \<notin> set h \<Longrightarrow>
   play_card gs rid u (Some c) = (Inl CardNotHeld, gs)"
  by (simp add: play_card_def)

subsection \<open>Witnesses for drawing and playing\<close>

lemma new_deck_Cons:
  "new_deck = \<lparr>suit = ''clubs'', rank = ''A''\<rparr> # tl new_deck"
  by (simp add: new_deck_def suits_def ranks_def)

lemma two_player_inv: "game_inv (new_game_state [''alice'', ''bob''] (\<lambda>i. i) 0)"
  by (rule new_game_state_inv) simp

lemma two_player_deck:
  "deck (new_game_state [''alice'', ''bob''] (\<lambda>i. i) 0) = \<lparr>suit = ''clubs'', rank = ''A''\<rparr> # tl new_deck"
  by (simp add: new_game_state_def shuffle_id new_deck_Cons [symmetric])

lemma two_player_players:
  "players (new_game_state [''alice'', ''bob''] (\<lambda>i. i) 0) = [''alice'', ''bob'']"
  by (simp add: players_def new_game_state_def dict_keys_def)

theorem draw_card_preserves_inv_witness:
  "\<exists>st'. snd (draw_card [''R1'' \<mapsto> new_game_state [''alice'', ''bob''] (\<lambda>i. i) 0] ''R1'' ''alice'') ''R1''
          = Some st' \<and> game_inv st'"
proof -
  obtain res gs' where r: "draw_card [''R1'' \<mapsto> new_game_state [''alice'', ''bob''] (\<lambda>i. i) 0] ''R1'' ''alice''
      = (res, gs')" by fastforce
  have u: "''alice'' \<in> set (players (new_game_state [''alice'', ''bob''] (\<lambda>i. i) 0))"
    by (simp add: two_player_players)
  from draw_card_preserves_inv [OF two_player_inv _ u r] r show ?thesis by auto
qed

theorem draw_card_nonplayer_loses_card_witness:
  "fst (draw_card [''R1'' \<mapsto> new_game_state [''alice'', ''bob''] (\<lambda>i. i) 0] ''R1'' ''carol'') = Inl KeyErr
   \<and> \<lparr>suit = ''clubs'', rank = ''A''\<rparr>
       \<notin># cards_in_play ((new_game_state [''alice'', ''bob''] (\<lambda>i. i) 0)\<lparr>deck := tl new_deck\<rparr>)"
proof -
  have u: "''carol'' \<notin> set (players (new_game_state [''alice'', ''bob''] (\<lambda>i. i) 0))"
    by (simp add: two_player_players)
  from draw_card_nonplayer_loses_card [OF two_player_inv _ u two_player_deck] show ?thesis by simp
qed

theorem play_card_preserves_inv_witness:
  "\<exists>st'. snd (play_card [''R1'' \<mapsto> new_game_state [''alice'', ''bob''] (\<lambda>i. i) 0] ''R1'' ''bob''
            (Some \<lparr>suit = ''clubs'', rank = ''A''\<rparr>)) ''R1'' = Some st' \<and> game_inv st'"
proof -
  obtain res gs' where r: "play_card [''R1'' \<mapsto> new_game_state [''alice'', ''bob''] (\<lambda>i. i) 0] ''R1'' ''bob''
      (Some \<lparr>suit = ''clubs'', rank = ''A''\<rparr>) = (res, gs')" by fastforce
  from play_card_preserves_inv [OF two_player_inv _ r] r show ?thesis by auto
qed

theorem play_card_not_held_witness:
  "play_card [''R1'' \<mapsto> new_game_state [''alice'', ''bob''] (\<lambda>i. i) 0] ''R1'' ''bob''
     (Some \<lparr>suit = ''clubs'', rank = ''A''\<rparr>)
   = (Inl CardNotHeld, [''R1'' \<mapsto> new_game_state [''alice'', ''bob''] (\<lambda>i. i) 0])"
  by (rule play_card_not_held [where h = "[]"], simp,
      simp_all add: new_game_state_def has_played_def fresh_actions_def)

subsection \<open>Finishing a round\<close>

lemma finish_game_Inr:
  "finish_game gs d ro cfg = (Inr fr, gs', d') \<Longrightarrow>
   \<exists>r st res. ro = Some r \<and> gs (room_id r) = Some st \<and> \<not> finished st \<and> round_complete st
     \<and> round_results cfg (py_sort_desc (played_weight cfg) (table st)) = Inr res
     \<and> record_round d (room_id r) (game_time st) (dict_keys (table st)) res = Inr d'
     \<and> fr = \<lparr>results = res, final_table = table st\<rparr> \<and> gs' = gs(room_id r \<mapsto> st\<lparr>finished := True\<rparr>)"
  by (auto simp: finish_game_def Let_def split: option.splits if_splits sum.splits)

lemma round_results_Inr:
  "length xs \<in> {2, 3} \<Longrightarrow> \<exists>res. round_results cfg xs = Inr res"
  by (auto simp: round_results_def numeral_eq_Suc length_Suc_conv)

lemma length_py_sort_desc [simp]: "length (py_sort_desc f xs) = length xs"
  by (simp add: py_sort_desc_def length_sort)

text \<open>C9: \<open>finish_game\<close> succeeds at most once per round: once it has returned a result,
  calling it again fails with \<open>AlreadyFinished\<close> and changes nothing.\<close>

theorem finish_game_once:
  "finish_game gs d ro cfg = (Inr fr, gs', d') \<Longrightarrow>
   finish_game gs' d' ro cfg = (Inl AlreadyFinished, gs', d')"
  by (drule finish_game_Inr) (auto simp: finish_game_def)

text \<open>C10: After a room's first round is recorded, no later round of that room can be
  finished: the ledger's session insert violates the unique \<^verbatim>\<open>game_sessions.room_id\<close>
  column, \<open>finish_game\<close> fails with an \<^verbatim>\<open>IntegrityError\<close>, and the new round stays
  unfinished with no score applied (so \<^verbatim>\<open>restart_game\<close> cannot start a scorable round).\<close>

theorem finish_game_second_round_fails:
  assumes first: "finish_game gs d (Some r) cfg = (Inr fr, gs1, d1)"
      and g: "gs2 (room_id r) = Some st" and nf: "\<not> finished st" and rc: "round_complete st"
      and n: "length (table st) \<in> {2, 3}"
  shows "finish_game gs2 d1 (Some r) cfg = (Inl (DbError IntegrityError), gs2, d1)"
proof -
  from finish_game_Inr [OF first] obtain st0 :: game_state and res0 where
    "record_round d (room_id r) (game_time st0) (dict_keys (table st0)) res0 = Inr d1" by blast
  then have dup: "\<exists>row \<in> set (sessions_tbl d1). session_room_id row = room_id r"
    by (rule record_round_then_dup)
  from n obtain res where res: "round_results cfg (py_sort_desc (played_weight cfg) (table st)) = Inr res"
    using round_results_Inr [of "py_sort_desc (played_weight cfg) (table st)" cfg] by auto
  from g nf rc res record_round_dup_room [OF dup] show ?thesis
    by (simp add: finish_game_def)
qed

text \<open>C11: Two players, both played: the heavier card wins the configured 2-player win
  score and the other player gets the lose score; on equal weights the player listed
  first in the table wins. The round is marked finished and the ledger records it.\<close>

theorem finish_two_players:
  assumes g: "gs (room_id r) = Some st" and nf: "\<not> finished st"
      and t: "table st = [(a, Some ca), (b, Some cb)]" and ab: "a \<noteq> b"
      and fresh: "\<forall>row \<in> set (sessions_tbl d). session_room_id row \<noteq> room_id r"
  shows "\<exists>d'. finish_game gs d (Some r) cfg =
           (Inr \<lparr>results = (if card_weight cfg ca < card_weight cfg cb
                             then [(b, score_2_win cfg), (a, score_2_lose cfg)]
                             else [(a, score_2_win cfg), (b, score_2_lose cfg)]),
                 final_table = table st\<rparr>,
            gs(room_id r \<mapsto> st\<lparr>finished := True\<rparr>), d')"
proof -
  let ?res = "if card_weight cfg ca < card_weight cfg cb
              then [(b, score_2_win cfg), (a, score_2_lose cfg)]
              else [(a, score_2_win cfg), (b, score_2_lose cfg)]"
  have rr: "round_results cfg (py_sort_desc (played_weight cfg) (table st)) = Inr ?res"
    using t ab by (simp add: round_results_def py_sort_desc_two played_weight_def)
  obtain d' where "record_round d (room_id r) (game_time st) (dict_keys (table st)) ?res = Inr d'"
    using record_round_fresh_room [OF fresh] by blast
  with g nf t rr show ?thesis by (auto simp: finish_game_def round_complete_def)
qed

text \<open>C12: Three players, the table's cards in non-increasing weight: the first player
  in the table wins, the second draws, the third loses. Ties therefore go to the
  earlier table entry; the table's order is fixed when the game is initialised (the
  room's join order), not the order of play.\<close>

theorem finish_three_players:
  assumes g: "gs (room_id r) = Some st" and nf: "\<not> finished st"
      and t: "table st = [(a, Some ca), (b, Some cb), (c, Some cc)]" and dist: "distinct [a, b, c]"
      and w: "card_weight cfg cc \<le> card_weight cfg cb" "card_weight cfg cb \<le> card_weight cfg ca"
      and fresh: "\<forall>row \<in> set (sessions_tbl d). session_room_id row \<noteq> room_id r"
  shows "\<exists>d'. finish_game gs d (Some r) cfg =
           (Inr \<lparr>results = [(a, score_3_win cfg), (b, score_3_draw cfg), (c, score_3_lose cfg)],
                 final_table = table st\<rparr>,
            gs(room_id r \<mapsto> st\<lparr>finished := True\<rparr>), d')"
proof -
  let ?res = "[(a, score_3_win cfg), (b, score_3_draw cfg), (c, score_3_lose cfg)]"
  have "sorted_wrt (\<lambda>x y. played_weight cfg y \<le> played_weight cfg x) (table st)"
    using t w by (simp add: played_weight_def)
  then have "py_sort_desc (played_weight cfg) (table st) = table st" by (rule py_sort_desc_sorted)
  then have rr: "round_results cfg (py_sort_desc (played_weight cfg) (table st)) = Inr ?res"
    using t dist by (simp add: round_results_def)
  obtain d' where "record_round d (room_id r) (game_time st) (dict_keys (table st)) ?res = Inr d'"
    using record_round_fresh_room [OF fresh] by blast
  with g nf t rr show ?thesis by (auto simp: finish_game_def round_complete_def)
qed

subsection \<open>Witnesses for finishing\<close>

lemma example_finish:
  "finish_game [''R1'' \<mapsto> example_round] empty_db (Some example_room) example_config
   = (Inr \<lparr>results = [(''bob'', 10), (''alice'', -10)], final_table = table example_round\<rparr>,
      fst (snd (finish_game [''R1'' \<mapsto> example_round] empty_db (Some example_room) example_config)),
      snd (snd (finish_game [''R1'' \<mapsto> example_round] empty_db (Some example_room) example_config)))"
proof -
  have "fst (finish_game [''R1'' \<mapsto> example_round] empty_db (Some example_room) example_config)
        = Inr \<lparr>results = [(''bob'', 10), (''alice'', -10)], final_table = table example_round\<rparr>"
    by code_simp
  then show ?thesis by (metis prod.collapse)
qed

theorem finish_game_once_witness:
  "finish_game
     (fst (snd (finish_game [''R1'' \<mapsto> example_round] empty_db (Some example_room) example_config)))
     (snd (snd (finish_game [''R1'' \<mapsto> example_round] empty_db (Some example_room) example_config)))
     (Some example_room) example_config
   = (Inl AlreadyFinished,
      fst (snd (finish_game [''R1'' \<mapsto> example_round] empty_db (Some example_room) example_config)),
      snd (snd (finish_game [''R1'' \<mapsto> example_round] empty_db (Some example_room) example_config)))"
  by (rule finish_game_once [OF example_finish])

theorem finish_game_second_round_fails_witness:
  "finish_game [''R1'' \<mapsto> example_round]
     (snd (snd (finish_game [''R1'' \<mapsto> example_round] empty_db (Some example_room) example_config)))
     (Some example_room) example_config
   = (Inl (DbError IntegrityError), [''R1'' \<mapsto> example_round],
      snd (snd (finish_game [''R1'' \<mapsto> example_round] empty_db (Some example_room) example_config)))"
  by (rule finish_game_second_round_fails [OF example_finish], simp add: example_room_def,
      simp_all add: example_round_def round_complete_def)

theorem finish_two_players_witness:
  "\<exists>d'. finish_game [''R1'' \<mapsto> example_round] empty_db (Some example_room) example_config =
     (Inr \<lparr>results = [(''bob'', 10), (''alice'', -10)], final_table = table example_round\<rparr>,
      [''R1'' \<mapsto> example_round](''R1'' \<mapsto> example_round\<lparr>finished := True\<rparr>), d')"
proof -
  have w: "card_weight example_config \<lparr>suit = ''hearts'', rank = ''7''\<rparr>
         < card_weight example_config \<lparr>suit = ''spades'', rank = ''K''\<rparr>" by code_simp
  have "\<exists>d'. finish_game [''R1'' \<mapsto> example_round] empty_db (Some example_room) example_config =
     (Inr \<lparr>results = (if card_weight example_config \<lparr>suit = ''hearts'', rank = ''7''\<rparr>
                         < card_weight example_config \<lparr>suit = ''spades'', rank = ''K''\<rparr>
                       then [(''bob'', score_2_win example_config), (''alice'', score_2_lose example_config)]
                       else [(''alice'', score_2_win example_config), (''bob'', score_2_lose example_config)]),
           final_table = table example_round\<rparr>,
      [''R1'' \<mapsto> example_round](room_id example_room \<mapsto> example_round\<lparr>finished := True\<rparr>), d')"
    by (rule finish_two_players)
       (simp_all add: example_room_def example_round_def empty_db_def)
  with w show ?thesis by (simp add: example_config_def example_room_def)
qed

theorem finish_three_players_witness:
  "\<exists>d'. finish_game [''R3'' \<mapsto> example_round3] empty_db (Some example_room3) tie_config =
     (Inr \<lparr>results = [(''alice'', 20), (''bob'', 0), (''carol'', -20)], final_table = table example_round3\<rparr>,
      [''R3'' \<mapsto> example_round3](''R3'' \<mapsto> example_round3\<lparr>finished := True\<rparr>), d')"
proof -
  have w1: "card_weight tie_config \<lparr>suit = ''clubs'', rank = ''2''\<rparr>
          \<le> card_weight tie_config \<lparr>suit = ''spades'', rank = ''7''\<rparr>" by code_simp
  have w2: "card_weight tie_config \<lparr>suit = ''spades'', rank = ''7''\<rparr>
          \<le> card_weight tie_config \<lparr>suit = ''hearts'', rank = ''7''\<rparr>" by code_simp
  have "\<exists>d'. finish_game [''R3'' \<mapsto> example_round3] empty_db (Some example_room3) tie_config =
     (Inr \<lparr>results = [(''alice'', score_3_win tie_config), (''bob'', score_3_draw tie_config),
                       (''carol'', score_3_lose tie_config)], final_table = table example_round3\<rparr>,
      [''R3'' \<mapsto> example_round3](room_id example_room3 \<mapsto> example_round3\<lparr>finished := True\<rparr>), d')"
    by (rule finish_three_players [OF _ _ _ _ w1 w2])
       (simp_all add: example_room3_def example_round3_def empty_db_def)
  then show ?thesis by (simp add: tie_config_def example_config_def example_room3_def)
qed

subsection \<open>Counting cards: the deck never runs out\<close>

lemma held_phase:
  "player_phase st p = Some ph \<Longrightarrow> held st p \<le> 1 \<and> (ph = Waiting \<longrightarrow> held st p = 0)"
  by (auto simp: player_phase_Some phase_of_Some held_def option_mset_def)

lemma deck_length:
  assumes inv: "game_inv st"
  shows "length (deck st) + sum_list (map (held st) (players st)) = 52"
proof -
  from inv have wf: "game_wf st" and cons: "cards_in_play st = mset new_deck"
    by (simp_all add: game_inv_def)
  from wf have kh: "map fst (hands st) = players st" and d: "distinct (players st)"
    by (simp_all add: game_wf_def dict_keys_def)
  have kt: "map fst (table st) = players st" by (simp add: players_def dict_keys_def)
  have "size (cards_in_play st) = 52" using cons by (simp add: length_new_deck)
  moreover have "size (sum_list (map (\<lambda>(p, x). mset x) (hands st)))
        = sum_list (map (\<lambda>p. length (the (map_of (hands st) p))) (players st))"
  proof -
    have "size (sum_list (map (\<lambda>(p, x). mset x) (hands st)))
          = sum_list (map (\<lambda>(p, x). length x) (hands st))"
      by (simp add: size_sum_list_mset split_def)
    also have "\<dots> = sum_list (map (\<lambda>p. length (the (map_of (hands st) p))) (map fst (hands st)))"
      using kh d by (intro sum_list_by_keys) simp
    finally show ?thesis using kh by simp
  qed
  moreover have "size (sum_list (map (\<lambda>(p, x). option_mset x) (table st)))
        = sum_list (map (\<lambda>p. size (option_mset (the (map_of (table st) p)))) (players st))"
  proof -
    have "size (sum_list (map (\<lambda>(p, x). option_mset x) (table st)))
          = sum_list (map (\<lambda>(p, x). size (option_mset x)) (table st))"
      by (simp add: size_sum_list_mset split_def)
    also have "\<dots> = sum_list (map (\<lambda>p. size (option_mset (the (map_of (table st) p)))) (map fst (table st)))"
      using kt d by (intro sum_list_by_keys) simp
    finally show ?thesis using kt by simp
  qed
  ultimately show ?thesis
    by (simp add: cards_in_play_def held_def [abs_def] sum_list_addf)
qed

lemma deck_nonempty:
  assumes inv: "game_inv st" and n: "length (players st) \<le> 52"
      and u: "u \<in> set (players st)" and nd: "\<not> has_drawn st u"
  shows "deck st \<noteq> []"
proof -
  have le1: "\<forall>p \<in> set (players st). held st p \<le> 1"
    using inv held_phase by (fastforce simp: game_inv_def list_all_iff)
  from inv u obtain ph where ph: "player_phase st u = Some ph" by (blast dest: game_invD)
  with nd have "ph = Waiting" by (blast dest: phase_not_drawn)
  with ph have "held st u = 0" by (blast dest: held_phase)
  with le1 u have "sum_list (map (held st) (players st)) < length (players st)"
    by (rule sum_list_lt_length)
  with deck_length [OF inv] n show ?thesis by auto
qed

subsection \<open>Initialisation, the single draw, and refinement of the phase machine\<close>

text \<open>C18: \<open>initialize_game\<close> (also run by \<^verbatim>\<open>restart_game\<close>) replaces the room's game by
  a fresh one: a shuffled 52-card deck, the room's members as players in join order,
  each waiting with an empty hand and table slot, not finished; the invariant holds
  and no other room changes.\<close>

theorem initialize_game_fresh:
  assumes wf: "rooms_wf rms" and r: "rms rid = Some r"
      and i: "initialize_game gs (Some r) rb now = Inr (st, gs')"
  shows "gs' rid = Some st \<and> game_inv st \<and> length (deck st) = 52 \<and> \<not> finished st
         \<and> players st = dict_keys (users r)
         \<and> (\<forall>p \<in> set (players st). player_phase st p = Some Waiting)
         \<and> (\<forall>rid'. rid' \<noteq> rid \<longrightarrow> gs' rid' = gs rid')"
proof -
  from rooms_wfD [OF wf r] have rid: "room_id r = rid" and d: "distinct (dict_keys (users r))"
    by (simp_all add: dict_keys_def)
  from i have eq: "st = new_game_state (dict_keys (users r)) rb now \<and> gs' = gs(room_id r \<mapsto> st)"
    by (auto simp: initialize_game_def Let_def)
  then have st: "st = new_game_state (dict_keys (users r)) rb now" and gs': "gs' = gs(room_id r \<mapsto> st)"
    by simp_all
  have "players st = dict_keys (users r)"
    by (simp add: st new_game_state_def players_def dict_keys_def comp_def)
  moreover have "\<forall>p \<in> set (players st). player_phase st p = Some Waiting"
    using calculation
    by (simp add: st player_phase_def new_game_state_def map_of_map_restrict fresh_actions_def)
  moreover have "length (deck st) = 52"
    by (simp add: st new_game_state_def length_shuffle length_new_deck)
  ultimately show ?thesis
    using new_game_state_inv [OF d] st gs' rid by (simp add: new_game_state_def)
qed

text \<open>C19: In a game of at most 52 players, a player who has not drawn gets the deck's
  front card (never \<open>DeckEmpty\<close>): the deck shrinks by exactly that card, and a second
  draw fails with \<open>AlreadyDrawn\<close>.\<close>

theorem draw_card_once:
  assumes inv: "game_inv st" and g: "gs rid = Some st" and n: "length (players st) \<le> 52"
      and u: "u \<in> set (players st)" and nd: "\<not> has_drawn st u"
  shows "\<exists>c st'. draw_card gs rid u = (Inr c, gs(rid \<mapsto> st')) \<and> deck st = c # deck st'
           \<and> fst (draw_card (gs(rid \<mapsto> st')) rid u) = Inl AlreadyDrawn"
proof -
  from deck_nonempty [OF inv n u nd] obtain c rest where dk: "deck st = c # rest"
    by (cases "deck st") auto
  let ?st' = "st\<lparr>deck := rest, hands := AList.update u [c] (hands st),
      player_actions := AList.update u (fresh_actions\<lparr>drawn := True\<rparr>) (player_actions st)\<rparr>"
  have "has_drawn ?st' u" by (simp add: has_drawn_def update_conv' fresh_actions_def)
  then have "fst (draw_card (gs(rid \<mapsto> ?st')) rid u) = Inl AlreadyDrawn"
    by (simp add: draw_card_def)
  with draw_card_player [where gs = gs and rid = rid, OF game_inv_shapeD [OF inv] g u nd dk] dk show ?thesis
    by auto
qed

lemma draw_card_Inr:
  "draw_card gs rid u = (Inr c, gs') \<Longrightarrow> gs rid = Some st \<Longrightarrow>
   \<not> has_drawn st u \<and> (\<exists>rest. deck st = c # rest) \<and> map_of (hands st) u \<noteq> None"
  by (auto simp: draw_card_def Let_def split: list.splits option.splits if_splits)

lemma play_card_Inr:
  "play_card gs rid u co = (Inr x, gs') \<Longrightarrow> gs rid = Some st \<Longrightarrow>
   \<not> has_played st u \<and> (\<exists>h c. map_of (hands st) u = Some h \<and> co = Some c \<and> c \<in> set h)"
  by (auto simp: play_card_def split: option.splits if_splits)

text \<open>C20: A successful draw refines the abstract phase machine: the drawing player takes
  a \<open>DrawEv\<close> step of \<open>phase_step\<close> with the deck's front card, every other player's phase
  is unchanged, and the invariant is kept.\<close>

theorem draw_card_refines:
  assumes inv: "game_inv st" and g: "gs rid = Some st" and r: "draw_card gs rid u = (Inr c, gs')"
  shows "\<exists>st'. gs' rid = Some st' \<and> game_inv st' \<and> deck st = c # deck st'
           \<and> (\<exists>ph ph'. player_phase st u = Some ph \<and> player_phase st' u = Some ph'
                      \<and> phase_step ph (DrawEv c) ph')
           \<and> (\<forall>p. p \<noteq> u \<longrightarrow> player_phase st' p = player_phase st p)"
proof -
  from draw_card_Inr [OF r g] obtain rest where nd: "\<not> has_drawn st u"
      and dk: "deck st = c # rest" and h: "map_of (hands st) u \<noteq> None" by blast
  from inv have "game_wf st" by (simp add: game_inv_def)
  with h have u: "u \<in> set (players st)" by (simp add: game_wf_hands_None)
  with inv obtain ph where ph: "player_phase st u = Some ph" by (blast dest: game_invD)
  with nd have w: "ph = Waiting" and t: "map_of (table st) u = Some None"
    by (auto dest: phase_not_drawn)
  from draw_card_player [where gs = gs and rid = rid, OF game_inv_shapeD [OF inv] g u nd dk] r
  have gs': "gs' = gs(rid \<mapsto> st\<lparr>deck := rest, hands := AList.update u [c] (hands st),
      player_actions := AList.update u (fresh_actions\<lparr>drawn := True\<rparr>) (player_actions st)\<rparr>)"
    by simp
  show ?thesis
    using gs' draw_step_inv [OF inv u nd dk] draw_step_phase [OF t] ph w dk
    by (auto intro: phase_step.draw)
qed

text \<open>C21: A successful play refines the abstract phase machine: the player takes a
  \<open>PlayEv\<close> step with the card named in the message, every other player's phase and the
  deck are unchanged, and the invariant is kept.\<close>

theorem play_card_refines:
  assumes inv: "game_inv st" and g: "gs rid = Some st" and r: "play_card gs rid u co = (Inr x, gs')"
  shows "\<exists>c st'. co = Some c \<and> gs' rid = Some st' \<and> game_inv st' \<and> deck st' = deck st
           \<and> (\<exists>ph ph'. player_phase st u = Some ph \<and> player_phase st' u = Some ph'
                      \<and> phase_step ph (PlayEv c) ph')
           \<and> (\<forall>p. p \<noteq> u \<longrightarrow> player_phase st' p = player_phase st p)"
proof -
  from play_card_Inr [OF r g] obtain h c where np: "\<not> has_played st u"
      and h: "map_of (hands st) u = Some h" and co: "co = Some c" and c: "c \<in> set h" by blast
  from inv have wf: "game_wf st" by (simp add: game_inv_def)
  have u: "u \<in> set (players st)" using game_wf_hands_None [OF wf, of u] h by simp
  with inv obtain ph where ph: "player_phase st u = Some ph" by (blast dest: game_invD)
  from phase_not_played [OF ph np] h c have hold: "player_phase st u = Some (Holding c)"
    using ph by auto
  from play_card_player [where gs = gs and rid = rid, OF g hold] r co
  have gs': "gs' = gs(rid \<mapsto> st\<lparr>hands := AList.update u [] (hands st),
      table := AList.update u (Some c) (table st),
      player_actions := AList.update u \<lparr>drawn = True, played = True\<rparr> (player_actions st)\<rparr>)"
    by simp
  show ?thesis
    using gs' co play_step_inv [OF inv hold] play_step_phase hold
    by (auto intro: phase_step.play)
qed

subsection \<open>Witnesses for initialisation, the single draw and refinement\<close>

theorem initialize_game_fresh_witness:
  "initialize_game Map.empty (Some example_room) (\<lambda>i. i) 0
     = Inr (new_game_state [''alice'', ''bob''] (\<lambda>i. i) 0,
            [''R1'' \<mapsto> new_game_state [''alice'', ''bob''] (\<lambda>i. i) 0])
   \<and> game_inv (new_game_state [''alice'', ''bob''] (\<lambda>i. i) 0)
   \<and> length (deck (new_game_state [''alice'', ''bob''] (\<lambda>i. i) 0)) = 52"
proof -
  have wf: "rooms_wf [''R1'' \<mapsto> example_room]"
    by (simp add: rooms_wf_def room_wf_def example_room_def dict_keys_def)
  have r: "[''R1'' \<mapsto> example_room] ''R1'' = Some example_room" by simp
  have i: "initialize_game Map.empty (Some example_room) (\<lambda>i. i) 0
     = Inr (new_game_state [''alice'', ''bob''] (\<lambda>i. i) 0,
            [''R1'' \<mapsto> new_game_state [''alice'', ''bob''] (\<lambda>i. i) 0])"
    by (simp add: initialize_game_def Let_def example_room_def dict_keys_def)
  from initialize_game_fresh [OF wf r i] i show ?thesis by simp
qed

theorem draw_card_once_witness:
  "\<exists>c st'. draw_card [''R1'' \<mapsto> new_game_state [''alice'', ''bob''] (\<lambda>i. i) 0] ''R1'' ''alice''
      = (Inr c, [''R1'' \<mapsto> new_game_state [''alice'', ''bob''] (\<lambda>i. i) 0](''R1'' \<mapsto> st'))
    \<and> deck (new_game_state [''alice'', ''bob''] (\<lambda>i. i) 0) = c # deck st'
    \<and> fst (draw_card ([''R1'' \<mapsto> new_game_state [''alice'', ''bob''] (\<lambda>i. i) 0](''R1'' \<mapsto> st')) ''R1'' ''alice'')
        = Inl AlreadyDrawn"
proof (rule draw_card_once [OF two_player_inv])
  show "[''R1'' \<mapsto> new_game_state [''alice'', ''bob''] (\<lambda>i. i) 0] ''R1''
        = Some (new_game_state [''alice'', ''bob''] (\<lambda>i. i) 0)" by simp
qed (simp_all add: players_def dict_keys_def has_drawn_def new_game_state_def fresh_actions_def)

lemma two_player_draw:
  "draw_card [''R1'' \<mapsto> new_game_state [''alice'', ''bob''] (\<lambda>i. i) 0] ''R1'' ''alice''
   = (Inr \<lparr>suit = ''clubs'', rank = ''A''\<rparr>,
      [''R1'' \<mapsto> new_game_state [''alice'', ''bob''] (\<lambda>i. i) 0](''R1'' \<mapsto>
        (new_game_state [''alice'', ''bob''] (\<lambda>i. i) 0)\<lparr>deck := tl new_deck,
          hands := AList.update ''alice'' [\<lparr>suit = ''clubs'', rank = ''A''\<rparr>]
                     (hands (new_game_state [''alice'', ''bob''] (\<lambda>i. i) 0)),
          player_actions := AList.update ''alice'' (fresh_actions\<lparr>drawn := True\<rparr>)
                     (player_actions (new_game_state [''alice'', ''bob''] (\<lambda>i. i) 0))\<rparr>))"
  by (rule draw_card_player [OF game_inv_shapeD [OF two_player_inv] _ _ _ two_player_deck])
     (simp_all add: players_def dict_keys_def has_drawn_def new_game_state_def fresh_actions_def)

theorem draw_card_refines_witness:
  "\<exists>st'. snd (draw_card [''R1'' \<mapsto> new_game_state [''alice'', ''bob''] (\<lambda>i. i) 0] ''R1'' ''alice'') ''R1''
          = Some st'
     \<and> player_phase st' ''alice'' = Some (Holding \<lparr>suit = ''clubs'', rank = ''A''\<rparr>)"
proof -
  have g: "[''R1'' \<mapsto> new_game_state [''alice'', ''bob''] (\<lambda>i. i) 0] ''R1''
      = Some (new_game_state [''alice'', ''bob''] (\<lambda>i. i) 0)" by simp
  from draw_card_refines [OF two_player_inv g two_player_draw] show ?thesis
    by (auto simp: two_player_draw elim!: phase_step.cases)
qed

theorem play_card_refines_witness:
  "\<exists>st'. snd (play_card (snd (draw_card [''R1'' \<mapsto> new_game_state [''alice'', ''bob''] (\<lambda>i. i) 0] ''R1'' ''alice''))
            ''R1'' ''alice'' (Some \<lparr>suit = ''clubs'', rank = ''A''\<rparr>)) ''R1'' = Some st'
     \<and> player_phase st' ''alice'' = Some (Played \<lparr>suit = ''clubs'', rank = ''A''\<rparr>)"
proof -
  let ?S = "new_game_state [''alice'', ''bob''] (\<lambda>i. i) 0"
  let ?S1 = "?S\<lparr>deck := tl new_deck,
          hands := AList.update ''alice'' [\<lparr>suit = ''clubs'', rank = ''A''\<rparr>] (hands ?S),
          player_actions := AList.update ''alice'' (fresh_actions\<lparr>drawn := True\<rparr>) (player_actions ?S)\<rparr>"
  have inv1: "game_inv ?S1"
    by (rule draw_step_inv [OF two_player_inv _ _ two_player_deck])
       (simp_all add: players_def dict_keys_def has_drawn_def new_game_state_def fresh_actions_def)
  have hold: "player_phase ?S1 ''alice'' = Some (Holding \<lparr>suit = ''clubs'', rank = ''A''\<rparr>)"
    by (simp add: player_phase_def new_game_state_def fresh_actions_def)
  have g: "snd (draw_card [''R1'' \<mapsto> ?S] ''R1'' ''alice'') ''R1'' = Some ?S1"
    by (simp add: two_player_draw)
  obtain gs' where p: "play_card (snd (draw_card [''R1'' \<mapsto> ?S] ''R1'' ''alice'')) ''R1'' ''alice''
      (Some \<lparr>suit = ''clubs'', rank = ''A''\<rparr>) = (Inr (), gs')"
    using play_card_player [where gs = "snd (draw_card [''R1'' \<mapsto> ?S] ''R1'' ''alice'')"
        and rid = "''R1''", OF g hold] by simp
  from play_card_refines [OF inv1 g p] hold p show ?thesis
    by (auto elim!: phase_step.cases)
qed

end
