(* ===== verification/Hub.thy ===== *)
theory Hub
  imports Prelude
begin

text \<open>
  The connection hub: the dictionaries \<^verbatim>\<open>room_connections\<close> (lobby channel,
  \<^verbatim>\<open>room_ws.py\<close>) and \<^verbatim>\<open>ws_connections\<close> (game channel, \<^verbatim>\<open>poker_battle.py\<close>) from
  room id to the list of open websockets, and the three ways the handlers use them:
  appending a new connection, \<^verbatim>\<open>list.remove\<close> on disconnect, and the fan-out loop
  \<^verbatim>\<open>for conn in ...: await conn.send_text(data)\<close>. Connections are values of a type
  variable \<open>'c\<close>; which of them are still open is a predicate \<open>alive\<close>. A send to a
  closed connection raises, and since the loop has no \<^verbatim>\<open>try\<close>, the exception ends
  the loop: \<open>send_all\<close> returns the deliveries made and the connection that failed.
\<close>

type_synonym 'c conn_table = "string \<rightharpoonup> 'c list"

datatype hub_error = HubKeyError | HubValueError

definition conns :: "'c conn_table \<Rightarrow> string \<Rightarrow> 'c list" where
  "conns t rid = (case t rid of None \<Rightarrow> [] | Some cs \<Rightarrow> cs)"

definition attach :: "'c conn_table \<Rightarrow> string \<Rightarrow> 'c \<Rightarrow> 'c conn_table" where
  "attach t rid c = (let t1 = (if t rid = None then t(rid \<mapsto> []) else t) in t1(rid \<mapsto> conns t1 rid @ [c]))"

definition detach :: "'c conn_table \<Rightarrow> string \<Rightarrow> 'c \<Rightarrow> hub_error + 'c conn_table" where
  "detach t rid c =
     (case t rid of
        None \<Rightarrow> Inl HubKeyError
      | Some cs \<Rightarrow> if c \<in> set cs then Inr (t(rid \<mapsto> remove1 c cs)) else Inl HubValueError)"

fun send_all :: "('c \<Rightarrow> bool) \<Rightarrow> 'c list \<Rightarrow> 'm \<Rightarrow> ('c \<times> 'm) list \<times> 'c option" where
  "send_all alive [] m = ([], None)"
| "send_all alive (c # cs) m =
     (if alive c then (let (out, err) = send_all alive cs m in ((c, m) # out, err))
      else ([], Some c))"

definition broadcast :: "'c conn_table \<Rightarrow> string \<Rightarrow> ('c \<Rightarrow> bool) \<Rightarrow> 'm \<Rightarrow> ('c \<times> 'm) list \<times> 'c option" where
  "broadcast t rid alive m = send_all alive (conns t rid) m"

subsection \<open>Basic facts\<close>

lemma attach_upd: "attach t rid c = t(rid \<mapsto> conns t rid @ [c])"
  by (cases "t rid") (simp_all add: attach_def conns_def Let_def)

lemma send_all_eq:
  "send_all alive cs m =
     (map (\<lambda>c. (c, m)) (takeWhile alive cs), (case dropWhile alive cs of [] \<Rightarrow> None | c # _ \<Rightarrow> Some c))"
  by (induction cs) (auto split: list.splits)

lemma conns_upd: "conns (t(rid \<mapsto> cs)) rid' = (if rid' = rid then cs else conns t rid')"
  by (simp add: conns_def)

lemma detach_Inr:
  "detach t rid c = Inr t' \<longleftrightarrow> c \<in> set (conns t rid) \<and> t' = t(rid \<mapsto> remove1 c (conns t rid))"
  by (auto simp: detach_def conns_def split: option.splits)

lemma count_remove1_other: "c' \<noteq> c \<Longrightarrow> count_list (remove1 c cs) c' = count_list cs c'"
  by (induction cs) auto

lemma count_remove1_same: "count_list (remove1 c cs) c = count_list cs c - 1"
  by (induction cs) auto

lemma remove1_append_notin: "c \<notin> set cs \<Longrightarrow> remove1 c (cs @ [c]) = cs"
  by (induction cs) auto

subsection \<open>Properties\<close>

text \<open>Disconnecting a connection removes one occurrence of it from its room's list
  and nothing else: every other connection of that room keeps its multiplicity, and
  the lists of all other rooms are unchanged.\<close>

lemma detach_keeps_others:
  assumes "detach t rid c = Inr t'"
  shows "conns t' rid = remove1 c (conns t rid)
         \<and> (\<forall>c'. c' \<noteq> c \<longrightarrow> count_list (conns t' rid) c' = count_list (conns t rid) c')
         \<and> (\<forall>rid'. rid' \<noteq> rid \<longrightarrow> conns t' rid' = conns t rid')"
  using assms by (simp add: detach_Inr conns_upd count_remove1_other)

text \<open>Attaching a new connection and detaching it again gives back the room's list
  of connections.\<close>

lemma attach_detach_roundtrip:
  assumes "c \<notin> set (conns t rid)"
  shows "detach (attach t rid c) rid c = Inr (t(rid \<mapsto> conns t rid))"
  using assms by (simp add: detach_Inr attach_upd conns_upd remove1_append_notin)

text \<open>The fan-out loop delivers the message to the longest prefix of the room's
  connections that are open and stops at the first closed one, which it reports.\<close>

lemma broadcast_prefix:
  "broadcast t rid alive m =
     (map (\<lambda>c. (c, m)) (takeWhile alive (conns t rid)),
      (case dropWhile alive (conns t rid) of [] \<Rightarrow> None | c # _ \<Rightarrow> Some c))"
  by (simp add: broadcast_def send_all_eq)

text \<open>C16: A closed connection in a room's list cuts the fan-out: the connections after
  it receive nothing, even when they are open.\<close>

theorem broadcast_cut:
  assumes "conns t rid = pre @ d # post" "list_all alive pre" "\<not> alive d"
  shows "broadcast t rid alive m = (map (\<lambda>c. (c, m)) pre, Some d)"
  using assms by (simp add: broadcast_def send_all_eq list_all_iff)

theorem broadcast_cut_witness:
  "broadcast [''R1'' \<mapsto> [1, 2, 3 :: nat]] ''R1'' (\<lambda>c. c \<noteq> 2) ''m'' = ([(1, ''m'')], Some 2)"
  using broadcast_cut [of "[''R1'' \<mapsto> [1, 2, 3 :: nat]]" "''R1''" "[1]" 2 "[3]" "\<lambda>c. c \<noteq> 2"]
  by (simp add: conns_def)

end
