(* ===== verification/Coordinator.thy ===== *)
theory Coordinator
  imports Game Hub
begin

text \<open>
  The session coordinator: the two websocket handlers, \<^verbatim>\<open>room_websocket\<close>
  (\<^verbatim>\<open>room_ws.py\<close>, the lobby channel) and \<^verbatim>\<open>game_websocket\<close> (\<^verbatim>\<open>poker_battle.py\<close>
  lines 187--258, the game channel). One inbound message is one call of
  \<open>lobby_handle\<close> or \<open>game_handle\<close>: it reads and updates the shared \<open>world\<close> (the
  module globals \<^verbatim>\<open>rooms\<close>, \<^verbatim>\<open>game_states\<close>, the database and the two connection
  tables), and returns the messages it sent, in order, and the exception that ended
  it, if any. A failed send (\<open>SendFailed\<close>) ends the message's processing where it
  happens, as the unguarded \<^verbatim>\<open>for conn in ...\<close> loops do; an exception that is not
  an \<^verbatim>\<open>HTTPException\<close> (\<open>Uncaught\<close>: \<^verbatim>\<open>KeyError\<close>, \<^verbatim>\<open>TypeError\<close>, a database error)
  escapes the handler, as do the handler's own \<^verbatim>\<open>AttributeError\<close> and \<^verbatim>\<open>TypeError\<close>
  on odd messages (\<open>Crash\<close>). What each exception does to the connection is the system
  step's business (theory \<open>System\<close>). Which connections are open is the parameter
  \<open>alive\<close>; the random draws and the clock of \<^verbatim>\<open>restart_game\<close> are \<open>rb\<close> and \<open>now\<close>;
  the module's \<^verbatim>\<open>CONFIG\<close> is \<open>cfg\<close>. A message whose JSON does not parse is skipped
  (\<^verbatim>\<open>continue\<close>): \<open>LobbyMalformed\<close>, \<open>GameMalformed\<close>.
\<close>

type_synonym conn = nat

record world =
  w_rooms :: rooms
  w_games :: game_states
  w_db :: db
  lobby_conns :: "conn conn_table"
  game_conns :: "conn conn_table"

datatype detail = RoomErr room_error | GameErr game_error | UnknownAction

datatype out_msg =
    UpdateRoom "room option"
  | GameStart string
  | Echo
  | ErrorMsg detail
  | DrawnMsg string card "game_state option"
  | PlayedMsg string "card option" "game_state option"
  | FinishMsg finish_result
  | RestartMsg game_state

text \<open>Python exceptions the handlers raise themselves, outside the engine:
  \<^verbatim>\<open>message.get\<close> on a JSON document that is not an object, and a dictionary
  lookup with an unhashable (list or object) username.\<close>

datatype py_error = AttributeError | TypeError

datatype exc = SendFailed conn | Uncaught game_error | Crash py_error

type_synonym outcome = "world \<times> (conn \<times> out_msg) list \<times> exc option"

text \<open>An inbound message after \<^verbatim>\<open>json.loads\<close>: \<open>LobbyMalformed\<close> and
  \<open>GameMalformed\<close> do not parse, \<open>LobbyNotObject\<close> and \<open>GameNotObject\<close> parse to a
  document that is not an object, the \<open>Unhashable\<close> forms carry a list or object as
  username; a username that is a string, \<^verbatim>\<open>None\<close> or a number only ever fails the
  membership tests and is a string of the model.\<close>

datatype lobby_in = LobbyReady string | LobbyReadyUnhashable | LobbyOther | LobbyNotObject | LobbyMalformed

datatype game_in =
    DrawIn string | DrawUnhashable | PlayIn string "card option" | PlayUnhashable
  | RestartIn | FinishIn | UnknownIn | GameNotObject | GameMalformed

text \<open>The engine's failures raised as \<^verbatim>\<open>HTTPException\<close>, which the handlers catch.\<close>

fun is_http :: "game_error \<Rightarrow> bool" where
  "is_http KeyErr = False"
| "is_http TypeErr = False"
| "is_http (DbError e) = False"
| "is_http _ = True"

definition unicast :: "(conn \<Rightarrow> bool) \<Rightarrow> conn \<Rightarrow> out_msg \<Rightarrow> (conn \<times> out_msg) list \<times> exc option" where
  "unicast alive ws m = (case send_all alive [ws] m of (out, e) \<Rightarrow> (out, map_option SendFailed e))"

definition lobby_bcast ::
  "world \<Rightarrow> (conn \<Rightarrow> bool) \<Rightarrow> string \<Rightarrow> out_msg \<Rightarrow> (conn \<times> out_msg) list \<times> exc option" where
  "lobby_bcast w alive rid m =
     (case broadcast (lobby_conns w) rid alive m of (out, e) \<Rightarrow> (out, map_option SendFailed e))"

definition game_bcast ::
  "world \<Rightarrow> (conn \<Rightarrow> bool) \<Rightarrow> string \<Rightarrow> out_msg \<Rightarrow> (conn \<times> out_msg) list \<times> exc option" where
  "game_bcast w alive rid m =
     (case broadcast (game_conns w) rid alive m of (out, e) \<Rightarrow> (out, map_option SendFailed e))"

subsection \<open>The lobby channel\<close>

definition lobby_ready :: "world \<Rightarrow> (conn \<Rightarrow> bool) \<Rightarrow> string \<Rightarrow> conn \<Rightarrow> string \<Rightarrow> outcome" where
  "lobby_ready w alive rid ws u =
     (case set_ready (w_rooms w) rid u of
        Inl e \<Rightarrow> (case unicast alive ws (ErrorMsg (RoomErr e)) of (out, x) \<Rightarrow> (w, out, x))
      | Inr rms \<Rightarrow>
          (let w1 = w\<lparr>w_rooms := rms\<rparr> in
           case lobby_bcast w1 alive rid (UpdateRoom (get_room_info rms rid)) of
             (out1, Some x) \<Rightarrow> (w1, out1, Some x)
           | (out1, None) \<Rightarrow>
               if all_ready rms rid
               then (case lobby_bcast w1 alive rid (GameStart rid) of (out2, x) \<Rightarrow> (w1, out1 @ out2, x))
               else (w1, out1, None)))"

text \<open>\<^verbatim>\<open>set_ready\<close> with a list or object as username: the room test passes or
  fails as usual, then \<^verbatim>\<open>username not in rooms[room_id]["users"]\<close> raises
  \<^verbatim>\<open>TypeError\<close>.\<close>

definition lobby_ready_unhashable :: "world \<Rightarrow> (conn \<Rightarrow> bool) \<Rightarrow> string \<Rightarrow> conn \<Rightarrow> outcome" where
  "lobby_ready_unhashable w alive rid ws =
     (case w_rooms w rid of
        None \<Rightarrow> (case unicast alive ws (ErrorMsg (RoomErr RoomNotFound)) of (out, x) \<Rightarrow> (w, out, x))
      | Some _ \<Rightarrow> (w, [], Some (Crash TypeError)))"

fun lobby_handle :: "world \<Rightarrow> (conn \<Rightarrow> bool) \<Rightarrow> string \<Rightarrow> conn \<Rightarrow> lobby_in \<Rightarrow> outcome" where
  "lobby_handle w alive rid ws (LobbyReady u) = lobby_ready w alive rid ws u"
| "lobby_handle w alive rid ws LobbyReadyUnhashable = lobby_ready_unhashable w alive rid ws"
| "lobby_handle w alive rid ws LobbyOther = (case unicast alive ws Echo of (out, x) \<Rightarrow> (w, out, x))"
| "lobby_handle w alive rid ws LobbyNotObject = (w, [], Some (Crash AttributeError))"
| "lobby_handle w alive rid ws LobbyMalformed = (w, [], None)"

subsection \<open>The game channel\<close>

definition game_draw :: "world \<Rightarrow> (conn \<Rightarrow> bool) \<Rightarrow> string \<Rightarrow> conn \<Rightarrow> string \<Rightarrow> outcome" where
  "game_draw w alive rid ws u =
     (case draw_card (w_games w) rid u of
        (Inl e, gs) \<Rightarrow>
          if is_http e then (case unicast alive ws (ErrorMsg (GameErr e)) of (out, x) \<Rightarrow> (w\<lparr>w_games := gs\<rparr>, out, x))
          else (w\<lparr>w_games := gs\<rparr>, [], Some (Uncaught e))
      | (Inr c, gs) \<Rightarrow>
          (let w1 = w\<lparr>w_games := gs\<rparr> in
           case game_bcast w1 alive rid (DrawnMsg u c (gs rid)) of (out, x) \<Rightarrow> (w1, out, x)))"

text \<open>The check after every \<^verbatim>\<open>play_card\<close> message: when the room's table is full,
  the round is finished and its result (or the \<^verbatim>\<open>HTTPException\<close>) broadcast.\<close>

definition auto_finish :: "world \<Rightarrow> (conn \<Rightarrow> bool) \<Rightarrow> config \<Rightarrow> string \<Rightarrow> outcome" where
  "auto_finish w alive cfg rid =
     (case w_games w rid of
        None \<Rightarrow> (w, [], None)
      | Some st \<Rightarrow>
          if \<not> round_complete st then (w, [], None)
          else (case finish_game (w_games w) (w_db w) (get_room_info (w_rooms w) rid) cfg of
                  (Inr res, gs, d) \<Rightarrow>
                    (let w1 = w\<lparr>w_games := gs, w_db := d\<rparr> in
                     case game_bcast w1 alive rid (FinishMsg res) of (out, x) \<Rightarrow> (w1, out, x))
                | (Inl e, gs, d) \<Rightarrow>
                    (let w1 = w\<lparr>w_games := gs, w_db := d\<rparr> in
                     if is_http e
                     then (case game_bcast w1 alive rid (ErrorMsg (GameErr e)) of (out, x) \<Rightarrow> (w1, out, x))
                     else (w1, [], Some (Uncaught e)))))"

definition play_then_finish :: "world \<Rightarrow> (conn \<Rightarrow> bool) \<Rightarrow> config \<Rightarrow> string \<Rightarrow> out_msg \<Rightarrow> outcome" where
  "play_then_finish w alive cfg rid m =
     (case game_bcast w alive rid m of
        (out1, Some x) \<Rightarrow> (w, out1, Some x)
      | (out1, None) \<Rightarrow> (case auto_finish w alive cfg rid of (w2, out2, x) \<Rightarrow> (w2, out1 @ out2, x)))"

definition game_play ::
  "world \<Rightarrow> (conn \<Rightarrow> bool) \<Rightarrow> config \<Rightarrow> string \<Rightarrow> string \<Rightarrow> card option \<Rightarrow> outcome" where
  "game_play w alive cfg rid u co =
     (case play_card (w_games w) rid u co of
        (Inl e, gs) \<Rightarrow>
          if is_http e then play_then_finish (w\<lparr>w_games := gs\<rparr>) alive cfg rid (ErrorMsg (GameErr e))
          else (w\<lparr>w_games := gs\<rparr>, [], Some (Uncaught e))
      | (Inr _, gs) \<Rightarrow> play_then_finish (w\<lparr>w_games := gs\<rparr>) alive cfg rid (PlayedMsg u co (gs rid)))"

text \<open>\<^verbatim>\<open>draw_card\<close> and \<^verbatim>\<open>play_card\<close> with a list or object as username: the
  missing game raises its \<^verbatim>\<open>HTTPException\<close> as usual (unicast for a draw; broadcast,
  then the round check, for a play); otherwise
  \<^verbatim>\<open>state["playerActions"].get(username, {})\<close> raises \<^verbatim>\<open>TypeError\<close>.\<close>

definition game_draw_unhashable :: "world \<Rightarrow> (conn \<Rightarrow> bool) \<Rightarrow> string \<Rightarrow> conn \<Rightarrow> outcome" where
  "game_draw_unhashable w alive rid ws =
     (case w_games w rid of
        None \<Rightarrow> (case unicast alive ws (ErrorMsg (GameErr NotInitialized)) of (out, x) \<Rightarrow> (w, out, x))
      | Some _ \<Rightarrow> (w, [], Some (Crash TypeError)))"

definition game_play_unhashable :: "world \<Rightarrow> (conn \<Rightarrow> bool) \<Rightarrow> config \<Rightarrow> string \<Rightarrow> outcome" where
  "game_play_unhashable w alive cfg rid =
     (case w_games w rid of
        None \<Rightarrow> play_then_finish w alive cfg rid (ErrorMsg (GameErr NotInitialized))
      | Some _ \<Rightarrow> (w, [], Some (Crash TypeError)))"

definition game_restart ::
  "world \<Rightarrow> (conn \<Rightarrow> bool) \<Rightarrow> (nat \<Rightarrow> nat) \<Rightarrow> nat \<Rightarrow> string \<Rightarrow> conn \<Rightarrow> outcome" where
  "game_restart w alive rb now rid ws =
     (case initialize_game (w_games w) (get_room_info (w_rooms w) rid) rb now of
        Inl e \<Rightarrow>
          if is_http e then (case unicast alive ws (ErrorMsg (GameErr e)) of (out, x) \<Rightarrow> (w, out, x))
          else (w, [], Some (Uncaught e))
      | Inr (st, gs) \<Rightarrow>
          (let w1 = w\<lparr>w_games := gs\<rparr> in
           case game_bcast w1 alive rid (RestartMsg st) of (out, x) \<Rightarrow> (w1, out, x)))"

definition game_finish :: "world \<Rightarrow> (conn \<Rightarrow> bool) \<Rightarrow> config \<Rightarrow> string \<Rightarrow> conn \<Rightarrow> outcome" where
  "game_finish w alive cfg rid ws =
     (case finish_game (w_games w) (w_db w) (get_room_info (w_rooms w) rid) cfg of
        (Inr res, gs, d) \<Rightarrow>
          (let w1 = w\<lparr>w_games := gs, w_db := d\<rparr> in
           case game_bcast w1 alive rid (FinishMsg res) of (out, x) \<Rightarrow> (w1, out, x))
      | (Inl e, gs, d) \<Rightarrow>
          (let w1 = w\<lparr>w_games := gs, w_db := d\<rparr> in
           if is_http e then (case unicast alive ws (ErrorMsg (GameErr e)) of (out, x) \<Rightarrow> (w1, out, x))
           else (w1, [], Some (Uncaught e))))"

fun game_handle ::
  "world \<Rightarrow> (conn \<Rightarrow> bool) \<Rightarrow> config \<Rightarrow> (nat \<Rightarrow> nat) \<Rightarrow> nat \<Rightarrow> string \<Rightarrow> conn \<Rightarrow> game_in \<Rightarrow> outcome" where
  "game_handle w alive cfg rb now rid ws (DrawIn u) = game_draw w alive rid ws u"
| "game_handle w alive cfg rb now rid ws DrawUnhashable = game_draw_unhashable w alive rid ws"
| "game_handle w alive cfg rb now rid ws (PlayIn u co) = game_play w alive cfg rid u co"
| "game_handle w alive cfg rb now rid ws PlayUnhashable = game_play_unhashable w alive cfg rid"
| "game_handle w alive cfg rb now rid ws RestartIn = game_restart w alive rb now rid ws"
| "game_handle w alive cfg rb now rid ws FinishIn = game_finish w alive cfg rid ws"
| "game_handle w alive cfg rb now rid ws UnknownIn =
     (case unicast alive ws (ErrorMsg UnknownAction) of (out, x) \<Rightarrow> (w, out, x))"
| "game_handle w alive cfg rb now rid ws GameNotObject = (w, [], Some (Crash AttributeError))"
| "game_handle w alive cfg rb now rid ws GameMalformed = (w, [], None)"

text \<open>A world for the witnesses: room \<open>R1\<close> of \<open>example_room\<close> (alice and bob, both
  ready), lobby connections 1 and 2, game connections 3 and 4, and a round in which
  alice has played the 7 of hearts and bob holds the king of spades.\<close>

definition example_round_pre :: game_state where
  "example_round_pre =
     example_round\<lparr>hands := [(''alice'', []), (''bob'', [\<lparr>suit = ''spades'', rank = ''K''\<rparr>])],
                   table := [(''alice'', Some \<lparr>suit = ''hearts'', rank = ''7''\<rparr>), (''bob'', None)],
                   player_actions := [(''alice'', \<lparr>drawn = True, played = True\<rparr>),
                                      (''bob'', \<lparr>drawn = True, played = False\<rparr>)]\<rparr>"

definition example_world :: world where
  "example_world =
     \<lparr>w_rooms = [''R1'' \<mapsto> example_room], w_games = [''R1'' \<mapsto> example_round_pre],
      w_db = empty_db, lobby_conns = [''R1'' \<mapsto> [1, 2]], game_conns = [''R1'' \<mapsto> [3, 4]]\<rparr>"

subsection \<open>Sending\<close>

lemma send_all_alive: "list_all alive cs \<Longrightarrow> send_all alive cs m = (map (\<lambda>c. (c, m)) cs, None)"
  by (induction cs) auto

lemma game_bcast_alive:
  "list_all alive (conns (game_conns w) rid) \<Longrightarrow>
   game_bcast w alive rid m = (map (\<lambda>c. (c, m)) (conns (game_conns w) rid), None)"
  by (simp add: game_bcast_def broadcast_def send_all_alive)

lemma lobby_bcast_alive:
  "list_all alive (conns (lobby_conns w) rid) \<Longrightarrow>
   lobby_bcast w alive rid m = (map (\<lambda>c. (c, m)) (conns (lobby_conns w) rid), None)"
  by (simp add: lobby_bcast_def broadcast_def send_all_alive)

lemma unicast_alive: "alive ws \<Longrightarrow> unicast alive ws m = ([(ws, m)], None)"
  by (simp add: unicast_def)

lemmas send_alive = game_bcast_alive lobby_bcast_alive unicast_alive

lemma play_card_http_unchanged:
  "play_card gs rid u co = (Inl e, gs') \<Longrightarrow> is_http e \<Longrightarrow> gs' = gs"
  by (auto simp: play_card_def Let_def split: option.splits if_splits prod.splits)

lemma set_ready_all_ready_same:
  assumes "rms rid = Some r" "map_of (users r) u = Some True"
  shows "set_ready rms rid u = Inr rms"
  using assms by (simp add: set_ready_def dict_has_map_of update_same_value fun_upd_idem)

subsection \<open>Properties\<close>

text \<open>C15: A failed \<^verbatim>\<open>play_card\<close> leaves the game unchanged and its error goes to every
  connection of the room's game channel, not only to the player who sent the
  message as the protocol prescribes for play failures.\<close>

theorem play_error_broadcast:
  assumes p: "play_card (w_games w) rid u co = (Inl e, gs)" and h: "is_http e"
      and a: "list_all alive (conns (game_conns w) rid)"
  shows "gs = w_games w
         \<and> (\<exists>rest. fst (snd (game_handle w alive cfg rb now rid ws (PlayIn u co)))
                   = map (\<lambda>c. (c, ErrorMsg (GameErr e))) (conns (game_conns w) rid) @ rest)"
proof -
  have g: "gs = w_games w" using play_card_http_unchanged [OF p h] .
  have "game_bcast (w\<lparr>w_games := gs\<rparr>) alive rid (ErrorMsg (GameErr e))
        = (map (\<lambda>c. (c, ErrorMsg (GameErr e))) (conns (game_conns w) rid), None)"
    using game_bcast_alive [of alive "w\<lparr>w_games := gs\<rparr>"] a by simp
  with p h g show ?thesis by (auto simp: game_play_def play_then_finish_def split: prod.splits)
qed

text \<open>C13: The play that fills the table finishes the round in the same message: every
  connection of the room's game channel receives the play, then the round's result,
  and the world holds the finished game and the updated ledger.\<close>

theorem play_completes_round:
  assumes p: "play_card (w_games w) rid u co = (Inr (), gs)" and g: "gs rid = Some st"
      and rc: "round_complete st"
      and f: "finish_game gs (w_db w) (get_room_info (w_rooms w) rid) cfg = (Inr res, gs', d')"
      and a: "list_all alive (conns (game_conns w) rid)"
  shows "game_handle w alive cfg rb now rid ws (PlayIn u co) =
           (w\<lparr>w_games := gs', w_db := d'\<rparr>,
            map (\<lambda>c. (c, PlayedMsg u co (Some st))) (conns (game_conns w) rid)
            @ map (\<lambda>c. (c, FinishMsg res)) (conns (game_conns w) rid), None)"
  using p g rc f a
  by (simp add: game_play_def play_then_finish_def auto_finish_def game_bcast_alive)

text \<open>C23: A failed \<^verbatim>\<open>finish_game\<close> request is answered only to the connection that
  sent it, although the protocol broadcasts finish failures to the room.\<close>

theorem finish_error_unicast:
  assumes "finish_game (w_games w) (w_db w) (get_room_info (w_rooms w) rid) cfg = (Inl e, gs, d)"
      and "is_http e" and "alive ws"
  shows "game_handle w alive cfg rb now rid ws FinishIn =
           (w\<lparr>w_games := gs, w_db := d\<rparr>, [(ws, ErrorMsg (GameErr e))], None)"
  using assms by (simp add: game_finish_def unicast_alive)

text \<open>C24: \<^verbatim>\<open>restart_game\<close> in a room that does not exist raises a \<^verbatim>\<open>TypeError\<close> out of
  the handler (the \<^verbatim>\<open>except HTTPException\<close> does not catch it): nothing is sent and
  the connection's handler ends.\<close>

theorem restart_missing_room:
  assumes "get_room_info (w_rooms w) rid = None"
  shows "game_handle w alive cfg rb now rid ws RestartIn = (w, [], Some (Uncaught TypeErr))"
  using assms by (simp add: game_restart_def initialize_game_def)

text \<open>C22: Once every member is ready, each further \<^verbatim>\<open>ready\<close> message of a member
  broadcasts the room and \<^verbatim>\<open>game_start\<close> again: the start signal is not sent once
  only.\<close>

theorem ready_repeats_game_start:
  assumes s: "set_ready (w_rooms w) rid u = Inr rms" and r: "all_ready rms rid"
      and a: "list_all alive (conns (lobby_conns w) rid)"
  shows "lobby_handle w alive rid ws (LobbyReady u) =
           (w\<lparr>w_rooms := rms\<rparr>,
            map (\<lambda>c. (c, UpdateRoom (get_room_info rms rid))) (conns (lobby_conns w) rid)
            @ map (\<lambda>c. (c, GameStart rid)) (conns (lobby_conns w) rid), None)"
  using s r a by (simp add: lobby_ready_def lobby_bcast_alive)

subsection \<open>Witnesses\<close>

lemma example_world_conns:
  "conns (game_conns example_world) ''R1'' = [3, 4] \<and> conns (lobby_conns example_world) ''R1'' = [1, 2]"
  by (simp add: example_world_def conns_def)

lemma example_world_room: "get_room_info (w_rooms example_world) ''R1'' = Some example_room"
  by (simp add: example_world_def get_room_info_def)

theorem play_error_broadcast_witness:
  "\<exists>rest. fst (snd (game_handle example_world (\<lambda>c. True) example_config (\<lambda>i. i) 0 ''R1'' 3
            (PlayIn ''bob'' (Some \<lparr>suit = ''clubs'', rank = ''A''\<rparr>))))
          = [(3, ErrorMsg (GameErr CardNotHeld)), (4, ErrorMsg (GameErr CardNotHeld))] @ rest"
proof -
  have p: "play_card (w_games example_world) ''R1'' ''bob'' (Some \<lparr>suit = ''clubs'', rank = ''A''\<rparr>)
           = (Inl CardNotHeld, w_games example_world)"
    by (simp add: play_card_def example_world_def example_round_pre_def has_played_def)
  show ?thesis
    using play_error_broadcast [OF p, of "\<lambda>c. True" example_config "\<lambda>i. i" 0 3] example_world_conns
    by simp
qed

theorem play_completes_round_witness:
  "\<exists>w' res. game_handle example_world (\<lambda>c. True) example_config (\<lambda>i. i) 0 ''R1'' 3
              (PlayIn ''bob'' (Some \<lparr>suit = ''spades'', rank = ''K''\<rparr>))
     = (w', [(3, PlayedMsg ''bob'' (Some \<lparr>suit = ''spades'', rank = ''K''\<rparr>) (Some example_round)),
             (4, PlayedMsg ''bob'' (Some \<lparr>suit = ''spades'', rank = ''K''\<rparr>) (Some example_round)),
             (3, FinishMsg res), (4, FinishMsg res)], None)
     \<and> results res = [(''bob'', 10), (''alice'', -10)]"
proof -
  have p: "play_card (w_games example_world) ''R1'' ''bob'' (Some \<lparr>suit = ''spades'', rank = ''K''\<rparr>)
           = (Inr (), [''R1'' \<mapsto> example_round])"
    by (simp add: play_card_def example_world_def example_round_pre_def example_round_def has_played_def)
  have rc: "round_complete example_round" by (simp add: round_complete_def example_round_def)
  have f: "finish_game [''R1'' \<mapsto> example_round] (w_db example_world)
             (get_room_info (w_rooms example_world) ''R1'') example_config
           = (Inr \<lparr>results = [(''bob'', 10), (''alice'', -10)], final_table = table example_round\<rparr>,
              fst (snd (finish_game [''R1'' \<mapsto> example_round] empty_db (Some example_room) example_config)),
              snd (snd (finish_game [''R1'' \<mapsto> example_round] empty_db (Some example_room) example_config)))"
    using example_finish by (simp add: example_world_room, simp add: example_world_def)
  show ?thesis
    using play_completes_round [OF p _ rc f, of "\<lambda>c. True"] example_world_conns by simp
qed

theorem finish_error_unicast_witness:
  "game_handle example_world (\<lambda>c. True) example_config (\<lambda>i. i) 0 ''R1'' 3 FinishIn
   = (example_world, [(3, ErrorMsg (GameErr RoundIncomplete))], None)"
proof -
  have f: "finish_game (w_games example_world) (w_db example_world)
             (get_room_info (w_rooms example_world) ''R1'') example_config
           = (Inl RoundIncomplete, w_games example_world, w_db example_world)"
    by (simp add: example_world_room, simp add: finish_game_def Let_def example_world_def
        example_room_def example_round_pre_def example_round_def round_complete_def)
  show ?thesis using finish_error_unicast [OF f, where ws = 3 and alive = "\<lambda>c. True"] by simp
qed

theorem restart_missing_room_witness:
  "game_handle example_world (\<lambda>c. True) example_config (\<lambda>i. i) 0 ''R9'' 3 RestartIn
   = (example_world, [], Some (Uncaught TypeErr))"
  by (rule restart_missing_room) (simp add: example_world_def get_room_info_def)

theorem ready_repeats_game_start_witness:
  "lobby_handle example_world (\<lambda>c. True) ''R1'' 1 (LobbyReady ''alice'')
   = (example_world, [(1, UpdateRoom (Some example_room)), (2, UpdateRoom (Some example_room)),
                      (1, GameStart ''R1''), (2, GameStart ''R1'')], None)"
proof -
  have s: "set_ready (w_rooms example_world) ''R1'' ''alice'' = Inr (w_rooms example_world)"
    by (rule set_ready_all_ready_same [where r = example_room])
       (simp_all add: example_world_def example_room_def)
  have r: "all_ready (w_rooms example_world) ''R1''"
    by (simp add: all_ready_def example_world_def example_room_def dict_values_def)
  show ?thesis
    using ready_repeats_game_start [OF s r, of "\<lambda>c. True" 1] example_world_conns example_world_room
    by simp
qed

end
