(* ===== verification/Modes.thy ===== *)
theory Modes
  imports Prelude
begin

text \<open>
  The game-mode configuration, read once when the modules are imported.
  \<^verbatim>\<open>GameManager._load_modes_config\<close> (\<^verbatim>\<open>src/backend/app/game_manager.py\<close>) builds the
  table \<^verbatim>\<open>modes_config\<close> from the directory \<^verbatim>\<open>game_modes/config\<close>: the unified file
  \<^verbatim>\<open>game_modes.json\<close> when it exists, otherwise one entry per \<^verbatim>\<open>*.json\<close> file, keyed by
  the file's stem, in the order \<^verbatim>\<open>Path.glob\<close> lists them. \<^verbatim>\<open>get_mode_config\<close> looks a
  mode up in that table. \<^verbatim>\<open>load_config\<close> of \<^verbatim>\<open>poker_battle.py\<close> reads the scoring file
  \<^verbatim>\<open>poker_battle.json\<close> of the same directory.

  A decoded JSON document is a value of \<open>json\<close> (numbers are integers; floats do not
  occur in the configuration). A file on disk is \<open>BadJson\<close> when opening or decoding it
  raises, and \<open>GoodJson v\<close> otherwise; the directory is the record \<open>config_dir\<close>:
  the unified file if present, and the other \<^verbatim>\<open>*.json\<close> files by stem in \<^verbatim>\<open>glob\<close> order. A
  missing directory has no unified file and no mode files (\<^verbatim>\<open>glob\<close> of a missing
  directory yields nothing). Every exception of the loaders is caught and re-raised
  as \<^verbatim>\<open>HTTPException(500)\<close> at import time, which stops the server: the value
  \<open>config_error\<close>.
\<close>

datatype json =
    JObject "(string \<times> json) list" | JArray "json list" | JNumber int
  | JString string | JBool bool | JNull

datatype json_file = BadJson | GoodJson json

record config_dir =
  unified_file :: "json_file option"
  mode_files :: "(string \<times> json_file) list"

datatype config_error = UnifiedConfigFailed | ModeConfigFailed string | PokerConfigFailed

type_synonym modes_config = "(string, json) pydict"

text \<open>\<^verbatim>\<open>json.load\<close> of an object builds a dictionary from its pairs in order: a repeated
  key keeps its first position and takes its last value.\<close>

definition json_dict :: "(string \<times> json) list \<Rightarrow> (string, json) pydict" where
  "json_dict kvs = fold (\<lambda>(k, v) d. AList.update k v d) kvs []"

text \<open>The \<^verbatim>\<open>else\<close> branch: the loop over the mode files; the first file that fails
  ends the loading.\<close>

fun load_mode_files :: "(string \<times> json_file) list \<Rightarrow> modes_config \<Rightarrow> config_error + modes_config" where
  "load_mode_files [] acc = Inr acc"
| "load_mode_files ((stem, BadJson) # fs) acc = Inl (ModeConfigFailed stem)"
| "load_mode_files ((stem, GoodJson v) # fs) acc = load_mode_files fs (AList.update stem v acc)"

definition load_modes_config :: "config_dir \<Rightarrow> config_error + modes_config" where
  "load_modes_config dir =
     (case unified_file dir of
        Some BadJson \<Rightarrow> Inl UnifiedConfigFailed
      | Some (GoodJson (JObject kvs)) \<Rightarrow> Inr (json_dict kvs)
      | Some (GoodJson _) \<Rightarrow> Inl UnifiedConfigFailed
      | None \<Rightarrow> load_mode_files (mode_files dir) [])"

text \<open>\<^verbatim>\<open>get_mode_config\<close>: \<open>None\<close> is its \<^verbatim>\<open>HTTPException(400)\<close> for an unknown mode.\<close>

definition get_mode_config :: "modes_config \<Rightarrow> string \<Rightarrow> json option" where
  "get_mode_config mc mode = map_of mc mode"



definition example_modes :: modes_config where
  "example_modes = [(''poker_battle'', JObject [])]"

subsection \<open>Loading the mode files\<close>

abbreviation good_files :: "(string \<times> json) list \<Rightarrow> (string \<times> json_file) list" where
  "good_files vs \<equiv> map (\<lambda>(s, v). (s, GoodJson v)) vs"

lemma load_mode_files_good:
  "load_mode_files (good_files vs) acc = Inr (fold (\<lambda>(k, v) d. AList.update k v d) vs acc)"
  by (induction vs arbitrary: acc) auto

lemma fold_update_fresh:
  "distinct (map fst vs) \<Longrightarrow> set (map fst vs) \<inter> set (map fst acc) = {} \<Longrightarrow>
   fold (\<lambda>(k, v) d. AList.update k v d) vs acc = acc @ vs"
proof (induction vs arbitrary: acc)
  case (Cons p vs)
  obtain k v where p: "p = (k, v)" by (cases p)
  with Cons.prems have "AList.update k v acc = acc @ [(k, v)]" by (simp add: keys_update_new)
  with Cons p show ?case by auto
qed simp

lemma load_mode_files_bad:
  "list_all (\<lambda>(s, f). f \<noteq> BadJson) pre \<Longrightarrow>
   \<exists>acc'. load_mode_files (pre @ (stem, BadJson) # post) acc = load_mode_files ((stem, BadJson) # post) acc'"
proof (induction pre arbitrary: acc)
  case (Cons p pre)
  obtain s f where p: "p = (s, f)" by (cases p)
  with Cons.prems obtain v where "f = GoodJson v" by (cases f) auto
  with Cons p show ?case by simp
qed auto


subsection \<open>Properties\<close>

text \<open>C37: Without a unified file, the configuration table lists the mode files in
  the order \<^verbatim>\<open>glob\<close> returns them, each stem with its decoded document; so every
  configured mode is found by \<^verbatim>\<open>get_mode_config\<close>.\<close>

theorem load_modes_config_files:
  assumes "distinct (map fst vs)"
  shows "load_modes_config \<lparr>unified_file = None, mode_files = good_files vs\<rparr> = Inr vs
         \<and> (\<forall>(s, v) \<in> set vs. get_mode_config vs s = Some v)"
  using assms
  by (simp add: load_modes_config_def load_mode_files_good fold_update_fresh get_mode_config_def
      split_beta)

text \<open>C38: One mode file that cannot be read or decoded makes the whole loading fail
  with that file's name, whatever the other files hold; a unified file that cannot be
  decoded, or is not a JSON object, fails too, and when it is an object the
  per-mode files are ignored.\<close>

theorem load_modes_config_errors:
  assumes "list_all (\<lambda>(s, f). f \<noteq> BadJson) pre"
  shows "load_modes_config \<lparr>unified_file = None, mode_files = pre @ (stem, BadJson) # post\<rparr>
           = Inl (ModeConfigFailed stem)
         \<and> load_modes_config \<lparr>unified_file = Some BadJson, mode_files = fs\<rparr> = Inl UnifiedConfigFailed
         \<and> load_modes_config \<lparr>unified_file = Some (GoodJson (JArray js)), mode_files = fs\<rparr>
             = Inl UnifiedConfigFailed
         \<and> load_modes_config \<lparr>unified_file = Some (GoodJson (JObject kvs)), mode_files = fs\<rparr>
             = Inr (json_dict kvs)"
  using load_mode_files_bad [OF assms, of stem post "[]"]
  by (auto simp: load_modes_config_def)



theorem load_modes_config_files_witness:
  "load_modes_config \<lparr>unified_file = None,
     mode_files = [(''poker_battle'', GoodJson (JObject [])), (''other'', GoodJson JNull)]\<rparr>
     = Inr [(''poker_battle'', JObject []), (''other'', JNull)]
   \<and> get_mode_config [(''poker_battle'', JObject []), (''other'', JNull)] ''other'' = Some JNull"
  using load_modes_config_files [of "[(''poker_battle'', JObject []), (''other'', JNull)]"]
  by simp

theorem load_modes_config_errors_witness:
  "load_modes_config \<lparr>unified_file = None,
     mode_files = [(''a'', GoodJson JNull), (''b'', BadJson), (''c'', BadJson)]\<rparr>
     = Inl (ModeConfigFailed ''b'')"
  using load_modes_config_errors [of "[(''a'', GoodJson JNull)]" "''b''" "[(''c'', BadJson)]"]
  by simp

end
