(* ===== verification/Routes.thy ===== *)
theory Routes
  imports Coordinator Modes
begin

text \<open>
  The HTTP routes of \<^verbatim>\<open>src/backend/app/main.py\<close> and the game-mode dispatch of
  \<^verbatim>\<open>game_manager.py\<close>, as functions on the shared \<open>world\<close>. Every route first
  rejects a missing or empty field (\<^verbatim>\<open>if not username ...\<close>: \<open>MissingField\<close>), then
  calls the registry, the ledger or the engine and turns a failure into an
  \<^verbatim>\<open>HTTPException\<close> (\<open>Inl\<close>). \<open>route_create\<close> returns \<open>None\<close> when the room-id loop of
  \<^verbatim>\<open>create_room\<close> does not return. The game-mode table \<^verbatim>\<open>modes_config\<close> (read from JSON
  files at start-up, theory \<open>Modes\<close>) is the parameter \<open>modes\<close>; the only module
  under \<^verbatim>\<open>game_modes\<close> is \<^verbatim>\<open>poker_battle\<close>, so any other configured mode fails its
  \<^verbatim>\<open>import_module\<close> (\<open>ModeFailed\<close>). The read-only route \<^verbatim>\<open>/user/records\<close>
  (\<open>route_user_records\<close>) reads the ledger's tables.
\<close>

datatype http_error =
    MissingField | RoomErrH room_error | LedgerErrH ledger_error | RoomMissing
  | ModeUnknown | ModeFailed | UserMissing

datatype http_resp =
    RespOk | RoomCreated string | GameStarted game_state
  | RoomInfo string "(string \<times> int \<times> bool) list"
  | UserRecords nat string int "game_record_row list"

definition route_register :: "world \<Rightarrow> string \<Rightarrow> string \<Rightarrow> (http_error + http_resp) \<times> world" where
  "route_register w u p =
     (if u = [] \<or> p = [] then (Inl MissingField, w)
      else (case register_user (w_db w) u p of
              Inl e \<Rightarrow> (Inl (LedgerErrH e), w)
            | Inr d \<Rightarrow> (Inr RespOk, w\<lparr>w_db := d\<rparr>)))"

definition route_login :: "world \<Rightarrow> string \<Rightarrow> string \<Rightarrow> http_error + http_resp" where
  "route_login w u p =
     (if u = [] \<or> p = [] then Inl MissingField
      else (case login_user (w_db w) u p of
              Inl e \<Rightarrow> Inl (LedgerErrH e)
            | Inr _ \<Rightarrow> Inr RespOk))"

definition route_create ::
  "world \<Rightarrow> (nat \<Rightarrow> nat \<Rightarrow> nat) \<Rightarrow> string \<Rightarrow> ((http_error + http_resp) \<times> world) option" where
  "route_create w rnd u =
     (if u = [] then Some (Inl MissingField, w)
      else (case create_room (w_rooms w) rnd u of
              None \<Rightarrow> None
            | Some (rid, rms) \<Rightarrow> Some (Inr (RoomCreated rid), w\<lparr>w_rooms := rms\<rparr>)))"

definition route_join :: "world \<Rightarrow> string \<Rightarrow> string \<Rightarrow> (http_error + http_resp) \<times> world" where
  "route_join w rid u =
     (if rid = [] \<or> u = [] then (Inl MissingField, w)
      else (case join_room (w_rooms w) rid u of
              Inl e \<Rightarrow> (Inl (RoomErrH e), w)
            | Inr rms \<Rightarrow> (Inr RespOk, w\<lparr>w_rooms := rms\<rparr>)))"

definition route_leave :: "world \<Rightarrow> string \<Rightarrow> string \<Rightarrow> (http_error + http_resp) \<times> world" where
  "route_leave w rid u =
     (if rid = [] \<or> u = [] then (Inl MissingField, w)
      else (case leave_room (w_rooms w) rid u of
              Inl e \<Rightarrow> (Inl (RoomErrH e), w)
            | Inr rms \<Rightarrow> (Inr RespOk, w\<lparr>w_rooms := rms\<rparr>)))"

definition route_room_info :: "world \<Rightarrow> string \<Rightarrow> http_error + http_resp" where
  "route_room_info w rid =
     (case get_room_info (w_rooms w) rid of
        None \<Rightarrow> Inl RoomMissing
      | Some r \<Rightarrow>
          Inr (RoomInfo (room_id r)
                 (map (\<lambda>(u, rd). (u, case find_user (w_db w) u of None \<Rightarrow> 0 | Some row \<Rightarrow> points row, rd))
                    (users r))))"

definition poker_start_game ::
  "game_states \<Rightarrow> room \<Rightarrow> (nat \<Rightarrow> nat) \<Rightarrow> nat \<Rightarrow> game_error + (game_state \<times> game_states)" where
  "poker_start_game gs r rb now = initialize_game gs (Some r) rb now"

text \<open>\<^verbatim>\<open>GameManager.start_game\<close>: \<^verbatim>\<open>get_mode_config\<close> raises 400 for a mode without a
  configuration; then the mode's module is imported and its \<^verbatim>\<open>start_game\<close> awaited,
  and any exception there becomes a 500.\<close>

definition gm_start_game ::
  "game_states \<Rightarrow> modes_config \<Rightarrow> string \<Rightarrow> room \<Rightarrow> (nat \<Rightarrow> nat) \<Rightarrow> nat
   \<Rightarrow> http_error + (game_state \<times> game_states)" where
  "gm_start_game gs modes mode r rb now =
     (case get_mode_config modes mode of
        None \<Rightarrow> Inl ModeUnknown
      | Some _ \<Rightarrow>
          if mode \<noteq> ''poker_battle'' then Inl ModeFailed
          else (case poker_start_game gs r rb now of
                  Inl _ \<Rightarrow> Inl ModeFailed
                | Inr res \<Rightarrow> Inr res))"

definition route_start ::
  "world \<Rightarrow> modes_config \<Rightarrow> string \<Rightarrow> string \<Rightarrow> (nat \<Rightarrow> nat) \<Rightarrow> nat \<Rightarrow> (http_error + http_resp) \<times> world" where
  "route_start w modes rid mode rb now =
     (if rid = [] then (Inl MissingField, w)
      else (case get_room_info (w_rooms w) rid of
              None \<Rightarrow> (Inl RoomMissing, w)
            | Some r \<Rightarrow>
                (case gm_start_game (w_games w) modes mode r rb now of
                   Inl e \<Rightarrow> (Inl e, w)
                 | Inr (st, gs) \<Rightarrow> (Inr (GameStarted st), w\<lparr>w_games := gs\<rparr>))))"

text \<open>\<^verbatim>\<open>/user/records\<close>: the user's row, then the user's game records
  \<^verbatim>\<open>ORDER BY game_time DESC\<close>. SQL leaves the order of equal times open; the model
  keeps them in table order (a stable sort on the negated time), and the theorems
  below state only what \<^verbatim>\<open>ORDER BY\<close> guarantees.\<close>

definition route_user_records :: "world \<Rightarrow> string \<Rightarrow> http_error + http_resp" where
  "route_user_records w u =
     (case find_user (w_db w) u of
        None \<Rightarrow> Inl UserMissing
      | Some row \<Rightarrow>
          Inr (UserRecords (user_id row) (username row) (points row)
                 (sort_key (\<lambda>r. - int (record_game_time r))
                    (filter (\<lambda>r. record_user_id r = user_id row) (records_tbl (w_db w))))))"

datatype http_req =
    ReqRegister string string | ReqLogin string string | ReqCreate string "nat \<Rightarrow> nat \<Rightarrow> nat"
  | ReqJoin string string | ReqLeave string string | ReqInfo string
  | ReqStart string string "nat \<Rightarrow> nat" nat | ReqRecords string

fun http_handle :: "world \<Rightarrow> modes_config \<Rightarrow> http_req \<Rightarrow> ((http_error + http_resp) \<times> world) option" where
  "http_handle w modes (ReqRegister u p) = Some (route_register w u p)"
| "http_handle w modes (ReqLogin u p) = Some (route_login w u p, w)"
| "http_handle w modes (ReqCreate u rnd) = route_create w rnd u"
| "http_handle w modes (ReqJoin rid u) = Some (route_join w rid u)"
| "http_handle w modes (ReqLeave rid u) = Some (route_leave w rid u)"
| "http_handle w modes (ReqInfo rid) = Some (route_room_info w rid, w)"
| "http_handle w modes (ReqStart rid mode rb now) = Some (route_start w modes rid mode rb now)"
| "http_handle w modes (ReqRecords u) = Some (route_user_records w u, w)"

subsection \<open>Registration and login\<close>

lemma route_register_Ok:
  "route_register w u p = (Inr RespOk, w') \<Longrightarrow>
   \<exists>row. find_user (w_db w') u = Some row \<and> password row = p \<and> u \<noteq> [] \<and> p \<noteq> []"
  by (auto simp: route_register_def register_user_def find_user_append_new split: if_splits sum.splits)

text \<open>C33: After \<^verbatim>\<open>/register\<close> accepts a username and password, \<^verbatim>\<open>/login\<close> with the same
  pair succeeds, and registering the same username again fails with the
  user-exists error, whatever the new password.\<close>

theorem register_login_roundtrip:
  assumes "route_register w u p = (Inr RespOk, w')"
  shows "route_login w' u p = Inr RespOk
         \<and> (p' \<noteq> [] \<longrightarrow> fst (route_register w' u p') = Inl (LedgerErrH UserExists))"
  using route_register_Ok [OF assms]
  by (auto simp: route_login_def login_user_def route_register_def register_user_def)

theorem register_login_roundtrip_witness:
  "route_login (snd (route_register example_world ''alice'' ''pw'')) ''alice'' ''pw'' = Inr RespOk
   \<and> fst (route_register (snd (route_register example_world ''alice'' ''pw'')) ''alice'' ''x'')
       = Inl (LedgerErrH UserExists)"
proof -
  have r: "route_register example_world ''alice'' ''pw''
           = (Inr RespOk, snd (route_register example_world ''alice'' ''pw''))"
    by (simp add: route_register_def register_user_def example_world_def empty_db_def find_user_def)
  from register_login_roundtrip [OF r, of "''x''"] show ?thesis by simp
qed

subsection \<open>Game records\<close>

lemma finish_game_Inr_round:
  "finish_game gs d (Some r) cfg = (Inr fr, gs', d') \<Longrightarrow>
   \<exists>st. gs (room_id r) = Some st
        \<and> record_round d (room_id r) (game_time st) (dict_keys (table st)) (results fr) = Inr d'
        \<and> final_table fr = table st"
  by (auto simp: finish_game_def Let_def split: option.splits if_splits sum.splits)

lemma sort_key_desc:
  "sorted_wrt (\<lambda>a b. record_game_time b \<le> record_game_time a) (sort_key (\<lambda>r. - int (record_game_time r)) xs)"
  using sorted_sort_key [of "\<lambda>r. - int (record_game_time r)" xs] by (simp add: sorted_map)

text \<open>C36: \<^verbatim>\<open>/user/records\<close> fails exactly for an unknown user; otherwise it returns
  that user's name and exactly the game records of that user's id, latest first.\<close>

theorem route_user_records_spec:
  "(route_user_records w u = Inl UserMissing \<longleftrightarrow> find_user (w_db w) u = None)
   \<and> (route_user_records w u = Inr (UserRecords uid n pts rs) \<longrightarrow>
        n = u \<and> mset rs = mset (filter (\<lambda>r. record_user_id r = uid) (records_tbl (w_db w)))
        \<and> sorted_wrt (\<lambda>a b. record_game_time b \<le> record_game_time a) rs)"
  by (auto simp: route_user_records_def sort_key_desc dest: find_user_Some split: option.splits)

text \<open>C25: After \<^verbatim>\<open>finish_game\<close> succeeds, \<^verbatim>\<open>/user/records\<close> of every registered player of
  the round lists a record of that room with the player's score change from the
  round's results and the matching win, draw or loss label.\<close>

theorem finish_then_records:
  assumes fin: "finish_game (w_games w) (w_db w) (Some r) cfg = (Inr fr, gs', d')"
      and p: "p \<in> set (dict_keys (final_table fr))" and u: "find_user (w_db w) p = Some ud"
  shows "\<exists>pts rs. route_user_records (w\<lparr>w_games := gs', w_db := d'\<rparr>) p = Inr (UserRecords (user_id ud) p pts rs)
           \<and> (\<exists>row \<in> set rs. record_room_id row = room_id r
                 \<and> record_score_change row = dict_get (results fr) p 0
                 \<and> record_result row = result_label (dict_get (results fr) p 0))"
proof -
  from finish_game_Inr_round [OF fin] obtain st :: game_state
    where rr: "record_round (w_db w) (room_id r) (game_time st) (dict_keys (table st)) (results fr) = Inr d'"
      and ft: "final_table fr = table st" by blast
  from p ft have "p \<in> set (dict_keys (table st))" by simp
  from record_round_row [OF rr this u] obtain ud' row
    where f': "find_user d' p = Some ud'" "user_id ud' = user_id ud"
      and row: "row \<in> set (records_tbl d')"
               "round_row (user_id ud) (room_id r) (game_time st) (dict_get (results fr) p 0) row"
    by blast
  from find_user_Some [OF f'(1)] have "username ud' = p" by simp
  with f' row show ?thesis by (auto simp: route_user_records_def)
qed

theorem route_user_records_spec_witness:
  "route_user_records (snd (route_register example_world ''alice'' ''pw'')) ''alice''
     = Inr (UserRecords 1 ''alice'' 0 [])
   \<and> ''alice'' = ''alice'' \<and> mset ([] :: game_record_row list) = {#}"
proof -
  have r: "route_user_records (snd (route_register example_world ''alice'' ''pw'')) ''alice''
             = Inr (UserRecords 1 ''alice'' 0 [])"
    by (simp add: route_user_records_def route_register_def register_user_def example_world_def
        empty_db_def find_user_def next_row_id_def)
  from route_user_records_spec [of "snd (route_register example_world ''alice'' ''pw'')" "''alice''"
      1 "''alice''" 0 "[]"] r
  show ?thesis by simp
qed

theorem finish_then_records_witness:
  "\<exists>fr gs' d' pts rs.
     finish_game [''R1'' \<mapsto> example_round] (w_db (snd (route_register example_world ''alice'' ''pw'')))
       (Some example_room) example_config = (Inr fr, gs', d')
     \<and> route_user_records ((snd (route_register example_world ''alice'' ''pw''))\<lparr>w_games := gs', w_db := d'\<rparr>)
         ''alice'' = Inr (UserRecords 1 ''alice'' pts rs)
     \<and> (\<exists>row \<in> set rs. record_room_id row = ''R1'' \<and> record_score_change row = -10)"
proof -
  define w where "w = (snd (route_register example_world ''alice'' ''pw''))\<lparr>w_games := [''R1'' \<mapsto> example_round]\<rparr>"
  have db: "w_db w = w_db (snd (route_register example_world ''alice'' ''pw''))"
    and gs: "w_games w = [''R1'' \<mapsto> example_round]" by (simp_all add: w_def)
  have u: "find_user (w_db w) ''alice''
           = Some \<lparr>user_id = 1, username = ''alice'', password = ''pw'', points = 0\<rparr>"
    by (simp add: w_def route_register_def register_user_def example_world_def empty_db_def
        find_user_def next_row_id_def)
  have "fst (finish_game [''R1'' \<mapsto> example_round] (w_db (snd (route_register example_world ''alice'' ''pw'')))
              (Some example_room) example_config)
        = Inr \<lparr>results = [(''bob'', 10), (''alice'', -10)], final_table = table example_round\<rparr>"
    by code_simp
  then obtain gs' d' where f: "finish_game (w_games w) (w_db w) (Some example_room) example_config
      = (Inr \<lparr>results = [(''bob'', 10), (''alice'', -10)], final_table = table example_round\<rparr>, gs', d')"
    unfolding db gs by (metis prod.collapse)
  have p: "''alice'' \<in> set (dict_keys (final_table
             \<lparr>results = [(''bob'', 10), (''alice'', -10)], final_table = table example_round\<rparr>))"
    by (simp add: example_round_def dict_keys_def)
  from finish_then_records [OF f p u] f
  show ?thesis by (simp add: w_def db example_room_def dict_get_def) blast
qed

end
