(* ===== verification/System.thy ===== *)
theory System
  imports Routes
begin

text \<open>
  The whole backend as one state machine. The state \<open>sys\<close> is the shared \<open>world\<close>
  (registry, games, database, connection tables) together with the running websocket
  handlers: each accepted connection \<open>c\<close> has a handler serving one channel of one
  room, whose socket is open (\<open>Serving\<close>) or already closed by the client while the
  handler has not yet noticed (\<open>Dropped\<close>). Connections are numbered in the order they
  are accepted. An event is an HTTP request, a new connection, an inbound message on
  a served connection, a client closing its socket, or a handler noticing that close
  (its \<^verbatim>\<open>receive_text\<close> raises \<^verbatim>\<open>WebSocketDisconnect\<close>). Each event runs to completion
  before the next: the model interleaves whole messages, not the awaits inside one.

  How a handler ends follows its \<^verbatim>\<open>try\<close>/\<^verbatim>\<open>except WebSocketDisconnect\<close>: on a
  disconnect it removes its own connection from the room's list and returns. A send to a
  closed connection raises in the sending handler; Starlette's \<^verbatim>\<open>WebSocket.send\<close>
  turns the transport's \<^verbatim>\<open>OSError\<close> into \<^verbatim>\<open>WebSocketDisconnect\<close>, so the sending
  handler takes the same exit and removes its own connection, not the closed one. Any
  other exception (\<open>Uncaught\<close>) ends the handler without the removal: its connection
  stays in the list, closed.
\<close>

datatype channel = LobbyCh | GameCh

datatype hstatus = Serving | Dropped

record sys =
  world :: world
  handlers :: "conn \<rightharpoonup> channel \<times> string \<times> hstatus"
  next_conn :: conn

definition init_world :: world where
  "init_world =
     \<lparr>w_rooms = Map.empty, w_games = Map.empty, w_db = empty_db,
      lobby_conns = Map.empty, game_conns = Map.empty\<rparr>"

definition init_sys :: sys where
  "init_sys = \<lparr>world = init_world, handlers = Map.empty, next_conn = 0\<rparr>"

definition alive_in :: "sys \<Rightarrow> conn \<Rightarrow> bool" where
  "alive_in s c = (case handlers s c of Some (_, _, Serving) \<Rightarrow> True | _ \<Rightarrow> False)"

definition chan_table :: "channel \<Rightarrow> world \<Rightarrow> conn conn_table" where
  "chan_table ch w = (case ch of LobbyCh \<Rightarrow> lobby_conns w | GameCh \<Rightarrow> game_conns w)"

definition set_chan_table :: "channel \<Rightarrow> conn conn_table \<Rightarrow> world \<Rightarrow> world" where
  "set_chan_table ch t w = (case ch of LobbyCh \<Rightarrow> w\<lparr>lobby_conns := t\<rparr> | GameCh \<Rightarrow> w\<lparr>game_conns := t\<rparr>)"

definition connect :: "sys \<Rightarrow> channel \<Rightarrow> string \<Rightarrow> sys" where
  "connect s ch rid =
     (let c = next_conn s
      in s\<lparr>world := set_chan_table ch (attach (chan_table ch (world s)) rid c) (world s),
           handlers := (handlers s)(c \<mapsto> (ch, rid, Serving)), next_conn := Suc c\<rparr>)"

text \<open>The \<^verbatim>\<open>except WebSocketDisconnect\<close> clause: \<^verbatim>\<open>list.remove\<close> of the handler's own
  connection (a \<^verbatim>\<open>ValueError\<close> there, were it missing, would end the handler too).\<close>

definition disconnect_self :: "sys \<Rightarrow> conn \<Rightarrow> channel \<Rightarrow> string \<Rightarrow> sys" where
  "disconnect_self s c ch rid =
     (let s1 = (case detach (chan_table ch (world s)) rid c of
                  Inl _ \<Rightarrow> s
                | Inr t \<Rightarrow> s\<lparr>world := set_chan_table ch t (world s)\<rparr>)
      in s1\<lparr>handlers := (handlers s1)(c := None)\<rparr>)"

text \<open>How one message ends. A send that fails raises in the sending handler, and what
  it raises depends on the connection \<open>d\<close> it was sent to (the server is uvicorn with
  the \<^verbatim>\<open>websockets\<close> protocol, its default when that library is installed):
  \<^item> \<open>d\<close>'s client has closed the socket while \<open>d\<close>'s handler still runs: the
    transport's \<^verbatim>\<open>OSError\<close>, which Starlette's \<^verbatim>\<open>send\<close> turns into
    \<^verbatim>\<open>WebSocketDisconnect\<close>; the sender takes its \<^verbatim>\<open>except WebSocketDisconnect\<close>
    exit and removes its own connection (\<open>disconnect_self\<close>);
  \<^item> \<open>d\<close>'s handler has already ended (its connection left listed by an exception
    that escaped it): the ASGI application of \<open>d\<close> has returned and the server has
    closed the socket, so \<^verbatim>\<open>send\<close> raises \<^verbatim>\<open>RuntimeError\<close>, which no handler
    catches: the sender ends too and its connection stays listed.
  Any other uncaught exception ends the handler without removing its connection.\<close>

definition end_message :: "sys \<Rightarrow> conn \<Rightarrow> channel \<Rightarrow> string \<Rightarrow> outcome \<Rightarrow> sys" where
  "end_message s c ch rid oc =
     (case oc of
        (w, out, None) \<Rightarrow> s\<lparr>world := w\<rparr>
      | (w, out, Some (SendFailed d)) \<Rightarrow>
          (case handlers s d of
             Some _ \<Rightarrow> disconnect_self (s\<lparr>world := w\<rparr>) c ch rid
           | None \<Rightarrow> s\<lparr>world := w, handlers := (handlers s)(c := None)\<rparr>)
      | (w, out, Some (Uncaught _)) \<Rightarrow> s\<lparr>world := w, handlers := (handlers s)(c := None)\<rparr>
      | (w, out, Some (Crash _)) \<Rightarrow> s\<lparr>world := w, handlers := (handlers s)(c := None)\<rparr>)"

datatype event =
    Http http_req
  | Connect channel string
  | LobbyRecv conn lobby_in
  | GameRecv conn game_in "nat \<Rightarrow> nat" nat
  | ClientDrop conn
  | DropNoticed conn

fun sys_step :: "config \<Rightarrow> modes_config \<Rightarrow> sys \<Rightarrow> event \<Rightarrow> (sys \<times> (conn \<times> out_msg) list) option" where
  "sys_step cfg modes s (Http req) =
     (case http_handle (world s) modes req of
        None \<Rightarrow> None
      | Some (r, w) \<Rightarrow> Some (s\<lparr>world := w\<rparr>, []))"
| "sys_step cfg modes s (Connect ch rid) = Some (connect s ch rid, [])"
| "sys_step cfg modes s (LobbyRecv c m) =
     (case handlers s c of
        Some (LobbyCh, rid, Serving) \<Rightarrow>
          (let oc = lobby_handle (world s) (alive_in s) rid c m
           in Some (end_message s c LobbyCh rid oc, fst (snd oc)))
      | _ \<Rightarrow> None)"
| "sys_step cfg modes s (GameRecv c m rb now) =
     (case handlers s c of
        Some (GameCh, rid, Serving) \<Rightarrow>
          (let oc = game_handle (world s) (alive_in s) cfg rb now rid c m
           in Some (end_message s c GameCh rid oc, fst (snd oc)))
      | _ \<Rightarrow> None)"
| "sys_step cfg modes s (ClientDrop c) =
     (case handlers s c of
        Some (ch, rid, Serving) \<Rightarrow> Some (s\<lparr>handlers := (handlers s)(c \<mapsto> (ch, rid, Dropped))\<rparr>, [])
      | _ \<Rightarrow> None)"
| "sys_step cfg modes s (DropNoticed c) =
     (case handlers s c of
        Some (ch, rid, Dropped) \<Rightarrow> Some (disconnect_self s c ch rid, [])
      | _ \<Rightarrow> None)"

inductive reach :: "config \<Rightarrow> modes_config \<Rightarrow> sys \<Rightarrow> bool" for cfg modes where
  init: "reach cfg modes init_sys"
| step: "reach cfg modes s \<Longrightarrow> sys_step cfg modes s ev = Some (s', out) \<Longrightarrow> reach cfg modes s'"

fun run :: "config \<Rightarrow> modes_config \<Rightarrow> sys \<Rightarrow> event list \<Rightarrow> sys option" where
  "run cfg modes s [] = Some s"
| "run cfg modes s (ev # evs) =
     (case sys_step cfg modes s ev of None \<Rightarrow> None | Some (s', out) \<Rightarrow> run cfg modes s' evs)"

text \<open>
  The system invariant. \<open>gs_ok\<close>: every game belongs to a room of the registry, has
  the shape of \<open>game_shape\<close>, and holds no card twice and no card outside a fresh deck
  (a sub-multiset of the 52 cards: the uncaught \<^verbatim>\<open>KeyError\<close> of a non-player's draw
  can lose a card, so equality is not invariant). \<open>hub_ok\<close>: every handler's
  connection is listed exactly once, under its own channel and room, and every listed
  connection was accepted and belongs to no other handler's room or channel.
\<close>

definition gs_ok :: "rooms \<Rightarrow> game_states \<Rightarrow> bool" where
  "gs_ok rms gs \<longleftrightarrow>
     (\<forall>rid st. gs rid = Some st \<longrightarrow>
        rms rid \<noteq> None \<and> game_shape st \<and> cards_in_play st \<subseteq># mset new_deck)"

definition world_ok :: "world \<Rightarrow> bool" where
  "world_ok w \<longleftrightarrow> rooms_wf (w_rooms w) \<and> gs_ok (w_rooms w) (w_games w) \<and> db_wf (w_db w)"

definition hub_ok :: "sys \<Rightarrow> bool" where
  "hub_ok s \<longleftrightarrow>
     (\<forall>c ch rid hs. handlers s c = Some (ch, rid, hs) \<longrightarrow>
        c < next_conn s \<and> count_list (conns (chan_table ch (world s)) rid) c = 1)
     \<and> (\<forall>ch rid c. c \<in> set (conns (chan_table ch (world s)) rid) \<longrightarrow>
        c < next_conn s \<and> (\<forall>ch' rid' hs. handlers s c = Some (ch', rid', hs) \<longrightarrow> ch' = ch \<and> rid' = rid))"

definition sys_inv :: "sys \<Rightarrow> bool" where
  "sys_inv s \<longleftrightarrow> world_ok (world s) \<and> hub_ok s"

text \<open>\<open>room_ids_ok\<close>: every key of the registry has the format that
  \<^verbatim>\<open>generate_random_room_id\<close> produces.\<close>

definition room_ids_ok :: "rooms \<Rightarrow> bool" where
  "room_ids_ok rms \<longleftrightarrow> (\<forall>rid \<in> dom rms. length rid = 8 \<and> set rid \<subseteq> set room_id_alphabet)"

text \<open>A run for the witnesses: alice creates a room (the random source draws
  \<open>AAAAAAAA\<close>), bob joins, the game starts, carol joins the room after the start,
  carol's and then alice's game connections (0 and 1) are accepted, and carol asks to
  draw.\<close>

definition stale_trace :: "event list" where
  "stale_trace =
    [Http (ReqCreate ''alice'' (\<lambda>t i. 0)), Http (ReqJoin ''AAAAAAAA'' ''bob''),
     Http (ReqStart ''AAAAAAAA'' ''poker_battle'' (\<lambda>i. i) 0), Http (ReqJoin ''AAAAAAAA'' ''carol''),
     Connect GameCh ''AAAAAAAA'', Connect GameCh ''AAAAAAAA'',
     GameRecv 0 (DrawIn ''carol'') (\<lambda>i. i) 0]"

subsection \<open>Runs\<close>

lemma run_reach: "reach cfg modes s \<Longrightarrow> run cfg modes s evs = Some s' \<Longrightarrow> reach cfg modes s'"
proof (induction evs arbitrary: s)
  case Nil
  then show ?case by simp
next
  case (Cons ev evs)
  then obtain s1 out where st: "sys_step cfg modes s ev = Some (s1, out)" and r: "run cfg modes s1 evs = Some s'"
    by (auto split: option.splits)
  from Cons.prems(1) st have "reach cfg modes s1" by (rule reach.step)
  then show ?case using r by (rule Cons.IH)
qed

subsection \<open>Games stay sound\<close>

lemma game_shape_deck [simp]: "game_shape (st\<lparr>deck := d\<rparr>) = game_shape st"
  by (simp add: game_shape_def game_wf_def players_def player_phase_def)

lemma game_shape_finished [simp]: "game_shape (st\<lparr>finished := b\<rparr>) = game_shape st"
  by (simp add: game_shape_def game_wf_def players_def player_phase_def)

lemma gs_ok_upd:
  "gs_ok rms gs \<Longrightarrow> gs rid = Some st \<Longrightarrow> game_shape st' \<Longrightarrow> cards_in_play st' \<subseteq># cards_in_play st \<Longrightarrow>
   gs_ok rms (gs(rid \<mapsto> st'))"
  unfolding gs_ok_def by (metis fun_upd_apply option.inject subset_mset.order_trans)

lemma gs_okD:
  "gs_ok rms gs \<Longrightarrow> gs rid = Some st \<Longrightarrow>
   rms rid \<noteq> None \<and> game_shape st \<and> cards_in_play st \<subseteq># mset new_deck"
  by (simp add: gs_ok_def)

lemma gs_ok_rooms: "gs_ok rms gs \<Longrightarrow> dom rms \<subseteq> dom rms' \<Longrightarrow> gs_ok rms' gs"
  unfolding gs_ok_def by blast

lemma draw_card_gs_ok:
  assumes ok: "gs_ok rms gs"
  shows "gs_ok rms (snd (draw_card gs rid u))"
proof (cases "gs rid")
  case None
  then show ?thesis using ok by (simp add: draw_card_def)
next
  case (Some st)
  from gs_okD [OF ok Some] have sh: "game_shape st" by simp
  show ?thesis
  proof (cases "has_drawn st u \<or> deck st = []")
    case True
    then show ?thesis using ok Some draw_card_unchanged by metis
  next
    case False
    then obtain c rest where dk: "deck st = c # rest" and nd: "\<not> has_drawn st u"
      by (cases "deck st") auto
    show ?thesis
    proof (cases "u \<in> set (players st)")
      case True
      from draw_card_player [where gs = gs and rid = rid, OF sh Some True nd dk]
           draw_step_shape [OF sh True nd dk]
      show ?thesis by (simp add: gs_ok_upd [OF ok Some])
    next
      case False
      from sh have wf: "game_wf st" by (simp add: game_shape_def)
      with False have "map_of (hands st) u = None" by (simp add: game_wf_hands_None)
      with Some nd dk have "snd (draw_card gs rid u) = gs(rid \<mapsto> st\<lparr>deck := rest\<rparr>)"
        by (simp add: draw_card_def)
      moreover have "cards_in_play (st\<lparr>deck := rest\<rparr>) \<subseteq># cards_in_play st"
        using dk by (simp add: cards_in_play_def)
      ultimately show ?thesis using gs_ok_upd [OF ok Some] sh by simp
    qed
  qed
qed

lemma play_card_gs_ok:
  assumes ok: "gs_ok rms gs"
  shows "gs_ok rms (snd (play_card gs rid u co))"
proof -
  obtain res gs' where r: "play_card gs rid u co = (res, gs')" by fastforce
  show ?thesis
  proof (cases "gs' = gs")
    case True
    then show ?thesis using ok r by simp
  next
    case False
    then obtain st where g: "gs rid = Some st"
      using r by (cases "gs rid") (auto simp: play_card_def)
    from gs_okD [OF ok g] have sh: "game_shape st" by simp
    from play_card_changes [OF r g False] obtain h c where np: "\<not> has_played st u"
        and h: "map_of (hands st) u = Some h" and co: "co = Some c" and c: "c \<in> set h"
      by blast
    from sh have wf: "game_wf st" by (simp add: game_shape_def)
    have u: "u \<in> set (players st)" using game_wf_hands_None [OF wf, of u] h by simp
    with sh obtain ph where ph: "player_phase st u = Some ph" by (blast dest: game_shapeD)
    from phase_not_played [OF ph np] h c have hold: "player_phase st u = Some (Holding c)"
      using ph by auto
    let ?st' = "st\<lparr>hands := AList.update u [] (hands st), table := AList.update u (Some c) (table st),
       player_actions := AList.update u \<lparr>drawn = True, played = True\<rparr> (player_actions st)\<rparr>"
    from play_card_player [where gs = gs and rid = rid, OF g hold] r co have "gs' = gs(rid \<mapsto> ?st')"
      by simp
    moreover have "gs_ok rms (gs(rid \<mapsto> ?st'))"
      using play_step_shape [OF sh hold] by (intro gs_ok_upd [OF ok g]) simp_all
    ultimately show ?thesis using r by simp
  qed
qed

lemma finish_game_Inl:
  "finish_game gs d ro cfg = (Inl e, gs', d') \<Longrightarrow> gs' = gs \<and> d' = d"
  by (auto simp: finish_game_def Let_def split: option.splits if_splits sum.splits)

lemma finish_game_gs_ok:
  assumes ok: "gs_ok rms gs"
  shows "gs_ok rms (fst (snd (finish_game gs d ro cfg)))"
proof -
  obtain r gs' d' where f: "finish_game gs d ro cfg = (r, gs', d')" by (metis prod.exhaust)
  show ?thesis
  proof (cases r)
    case (Inl e)
    with f finish_game_Inl show ?thesis using ok by fastforce
  next
    case (Inr fr)
    from finish_game_Inr [OF f [unfolded Inr]] obtain rr :: room and st :: game_state where
      g: "gs (room_id rr) = Some st" and gs': "gs' = gs(room_id rr \<mapsto> st\<lparr>finished := True\<rparr>)"
      by blast
    from gs_okD [OF ok g] have "game_shape st" by simp
    with gs_ok_upd [OF ok g, of "st\<lparr>finished := True\<rparr>"] f gs' show ?thesis
      by (simp add: cards_in_play_def)
  qed
qed

lemma finish_game_db_wf:
  assumes "db_wf d"
  shows "db_wf (snd (snd (finish_game gs d ro cfg)))"
proof -
  obtain r gs' d' where f: "finish_game gs d ro cfg = (r, gs', d')" by (metis prod.exhaust)
  show ?thesis
  proof (cases r)
    case (Inl e)
    with f finish_game_Inl show ?thesis using assms by fastforce
  next
    case (Inr fr)
    from finish_game_Inr [OF f [unfolded Inr]] obtain rr :: room and st :: game_state and res where
      "record_round d (room_id rr) (game_time st) (dict_keys (table st)) res = Inr d'"
      by blast
    with assms f show ?thesis by (simp add: record_round_wf)
  qed
qed

lemma initialize_game_gs_ok:
  assumes ok: "gs_ok rms gs" and wf: "rooms_wf rms" and r: "rms rid = Some rr"
      and i: "initialize_game gs (Some rr) rb now = Inr (st, gs')"
  shows "gs_ok rms gs'"
proof -
  from rooms_wfD [OF wf r] have rid: "room_id rr = rid" and d: "distinct (dict_keys (users rr))"
    by (simp_all add: dict_keys_def)
  from i have st: "st = new_game_state (dict_keys (users rr)) rb now" and gs': "gs' = gs(rid \<mapsto> st)"
    by (auto simp: initialize_game_def Let_def rid)
  from new_game_state_inv [OF d] st have "game_shape st \<and> cards_in_play st = mset new_deck"
    by (simp add: game_inv_shape)
  with ok r gs' show ?thesis by (auto simp: gs_ok_def)
qed

subsection \<open>What each handler does to the world\<close>

lemma game_draw_world:
  "fst (game_draw w alive rid ws u) = w\<lparr>w_games := snd (draw_card (w_games w) rid u)\<rparr>"
  by (simp add: game_draw_def Let_def split: prod.splits sum.splits)

lemma auto_finish_world:
  "fst (auto_finish w alive cfg rid) = w
   \<or> fst (auto_finish w alive cfg rid) =
       w\<lparr>w_games := fst (snd (finish_game (w_games w) (w_db w) (get_room_info (w_rooms w) rid) cfg)),
         w_db := snd (snd (finish_game (w_games w) (w_db w) (get_room_info (w_rooms w) rid) cfg))\<rparr>"
  by (auto simp: auto_finish_def Let_def split: option.splits prod.splits sum.splits)

lemma game_finish_world:
  "fst (game_finish w alive cfg rid ws) =
     w\<lparr>w_games := fst (snd (finish_game (w_games w) (w_db w) (get_room_info (w_rooms w) rid) cfg)),
       w_db := snd (snd (finish_game (w_games w) (w_db w) (get_room_info (w_rooms w) rid) cfg))\<rparr>"
  by (auto simp: game_finish_def Let_def split: prod.splits sum.splits)

lemma game_restart_world:
  "fst (game_restart w alive rb now rid ws) = w
   \<or> (\<exists>rr st gs. w_rooms w rid = Some rr \<and> initialize_game (w_games w) (Some rr) rb now = Inr (st, gs)
        \<and> fst (game_restart w alive rb now rid ws) = w\<lparr>w_games := gs\<rparr>)"
  by (auto simp: game_restart_def get_room_info_def initialize_game_def Let_def
           split: option.splits prod.splits sum.splits)

lemma play_then_finish_world:
  "fst (play_then_finish w alive cfg rid m) = w
   \<or> fst (play_then_finish w alive cfg rid m) = fst (auto_finish w alive cfg rid)"
  by (auto simp: play_then_finish_def split: prod.splits option.splits)

lemma game_play_world:
  "fst (game_play w alive cfg rid u co) = w\<lparr>w_games := snd (play_card (w_games w) rid u co)\<rparr>
   \<or> fst (game_play w alive cfg rid u co) =
       fst (auto_finish (w\<lparr>w_games := snd (play_card (w_games w) rid u co)\<rparr>) alive cfg rid)"
proof -
  obtain r gs where p: "play_card (w_games w) rid u co = (r, gs)" by fastforce
  have "fst (game_play w alive cfg rid u co) = w\<lparr>w_games := gs\<rparr>
        \<or> fst (game_play w alive cfg rid u co) = fst (play_then_finish (w\<lparr>w_games := gs\<rparr>) alive cfg rid
            (case r of Inl e \<Rightarrow> ErrorMsg (GameErr e) | Inr _ \<Rightarrow> PlayedMsg u co (gs rid)))"
    using p by (auto simp: game_play_def split: sum.splits)
  with play_then_finish_world p show ?thesis by fastforce
qed

text \<open>The handlers' own crashes (non-object documents, unhashable usernames) leave the
  world as it is.\<close>

lemma unhashable_world [simp]:
  "fst (game_draw_unhashable w alive rid ws) = w"
  "fst (game_play_unhashable w alive cfg rid) = w"
  "fst (lobby_ready_unhashable w alive rid ws) = w"
  by (auto simp: game_draw_unhashable_def game_play_unhashable_def lobby_ready_unhashable_def
           play_then_finish_def auto_finish_def split: option.splits prod.splits)

lemma tables_auto_finish:
  "lobby_conns (fst (auto_finish w alive cfg rid)) = lobby_conns w
   \<and> game_conns (fst (auto_finish w alive cfg rid)) = game_conns w"
  using auto_finish_world [of w alive cfg rid] by auto

lemma tables_game_handle:
  "lobby_conns (fst (game_handle w alive cfg rb now rid ws m)) = lobby_conns w
   \<and> game_conns (fst (game_handle w alive cfg rb now rid ws m)) = game_conns w"
proof (cases m)
  case (PlayIn u co)
  then show ?thesis using game_play_world [of w alive cfg rid u co] tables_auto_finish by auto
next
  case RestartIn
  then show ?thesis using game_restart_world [of w alive rb now rid ws] by auto
qed (simp_all add: game_draw_world game_finish_world split: prod.splits)

lemma tables_lobby_handle:
  "lobby_conns (fst (lobby_handle w alive rid ws m)) = lobby_conns w
   \<and> game_conns (fst (lobby_handle w alive rid ws m)) = game_conns w"
  by (cases m) (auto simp: lobby_ready_def Let_def split: sum.splits prod.splits option.splits)

lemma tables_http:
  "http_handle w modes req = Some (r, w') \<Longrightarrow> lobby_conns w' = lobby_conns w \<and> game_conns w' = game_conns w"
  by (cases req)
     (auto simp: route_register_def route_create_def route_join_def route_leave_def route_start_def
           gm_start_game_def split: if_splits sum.splits option.splits prod.splits)

subsection \<open>Every handler keeps the world sound\<close>

lemma world_ok_games: "world_ok w \<Longrightarrow> gs_ok (w_rooms w) gs \<Longrightarrow> world_ok (w\<lparr>w_games := gs\<rparr>)"
  by (simp add: world_ok_def)

lemma world_ok_finish:
  "world_ok w \<Longrightarrow>
   world_ok (w\<lparr>w_games := fst (snd (finish_game (w_games w) (w_db w) ro cfg)),
               w_db := snd (snd (finish_game (w_games w) (w_db w) ro cfg))\<rparr>)"
  by (simp add: world_ok_def finish_game_gs_ok finish_game_db_wf)

lemma world_ok_auto_finish: "world_ok w \<Longrightarrow> world_ok (fst (auto_finish w alive cfg rid))"
  using auto_finish_world [of w alive cfg rid] world_ok_finish by metis

lemma world_ok_restart: "world_ok w \<Longrightarrow> world_ok (fst (game_restart w alive rb now rid ws))"
  using game_restart_world [of w alive rb now rid ws]
  by (auto simp: world_ok_def intro: initialize_game_gs_ok)

lemma world_ok_game_handle: "world_ok w \<Longrightarrow> world_ok (fst (game_handle w alive cfg rb now rid ws m))"
proof (cases m)
  case (DrawIn u)
  then show "world_ok w \<Longrightarrow> ?thesis"
    by (simp add: game_draw_world world_ok_def draw_card_gs_ok)
next
  case (PlayIn u co)
  assume ok: "world_ok w"
  then have ok1: "world_ok (w\<lparr>w_games := snd (play_card (w_games w) rid u co)\<rparr>)"
    by (simp add: world_ok_def play_card_gs_ok)
  with game_play_world [of w alive cfg rid u co] world_ok_auto_finish PlayIn show ?thesis by auto
qed (simp_all add: world_ok_restart game_finish_world world_ok_finish)

lemma room_ops_dom:
  "join_room rms rid u = Inr rms' \<or> set_ready rms rid u = Inr rms' \<or> leave_room rms rid u = Inr rms'
   \<Longrightarrow> dom rms' = dom rms"
  by (auto simp: join_room_def set_ready_def leave_room_def split: option.splits if_splits)

lemma gs_ok_room_op:
  "gs_ok rms gs \<Longrightarrow>
   join_room rms rid u = Inr rms' \<or> set_ready rms rid u = Inr rms' \<or> leave_room rms rid u = Inr rms'
   \<Longrightarrow> gs_ok rms' gs"
  by (drule room_ops_dom) (auto intro: gs_ok_rooms)

lemma world_ok_rooms:
  "world_ok w \<Longrightarrow> rooms_wf rms \<Longrightarrow> dom (w_rooms w) \<subseteq> dom rms \<Longrightarrow> world_ok (w\<lparr>w_rooms := rms\<rparr>)"
  by (auto simp: world_ok_def intro: gs_ok_rooms)

lemma world_ok_lobby_handle: "world_ok w \<Longrightarrow> world_ok (fst (lobby_handle w alive rid ws m))"
proof (cases m)
  case (LobbyReady u)
  assume ok: "world_ok w"
  show ?thesis
  proof (cases "set_ready (w_rooms w) rid u")
    case (Inl e)
    then show ?thesis using ok LobbyReady by (simp add: lobby_ready_def split: prod.splits)
  next
    case (Inr rms)
    have "world_ok (w\<lparr>w_rooms := rms\<rparr>)"
      using ok Inr room_ops_dom [of "w_rooms w" rid u rms] set_ready_wf [of "w_rooms w" rid u rms]
      by (intro world_ok_rooms) (simp_all add: world_ok_def)
    then show ?thesis using Inr LobbyReady
      by (simp add: lobby_ready_def Let_def split: prod.splits option.splits)
  qed
qed (simp_all split: prod.splits)

lemma world_ok_http:
  assumes ok: "world_ok w" and h: "http_handle w modes req = Some (r, w')"
  shows "world_ok w'"
proof (cases req)
  case (ReqRegister u p)
  with ok h show ?thesis
    by (auto simp: route_register_def world_ok_def register_user_wf split: if_splits sum.splits)
next
  case (ReqCreate u rnd)
  show ?thesis
  proof (cases "u = []")
    case False
    with h ReqCreate obtain rid rms where c: "create_room (w_rooms w) rnd u = Some (rid, rms)"
        and w': "w' = w\<lparr>w_rooms := rms\<rparr>"
      by (auto simp: route_create_def split: option.splits)
    from create_room_result [OF c] have "dom (w_rooms w) \<subseteq> dom rms" by auto
    moreover have "rooms_wf rms" using ok create_room_wf [OF _ c] by (simp add: world_ok_def)
    ultimately show ?thesis using ok w' by (simp add: world_ok_rooms)
  qed (use ok h ReqCreate in \<open>simp add: route_create_def\<close>)
next
  case (ReqJoin rid u)
  with ok h show ?thesis
    by (auto simp: route_join_def world_ok_def join_room_wf split: if_splits sum.splits
             intro: gs_ok_room_op)
next
  case (ReqLeave rid u)
  with ok h show ?thesis
    by (auto simp: route_leave_def world_ok_def leave_room_wf split: if_splits sum.splits
             intro: gs_ok_room_op)
next
  case (ReqStart rid mode rb now)
  with ok h show ?thesis
    by (auto simp: route_start_def gm_start_game_def poker_start_game_def world_ok_def get_room_info_def
             intro: initialize_game_gs_ok split: if_splits sum.splits option.splits)
qed (use ok h in simp_all)

subsection \<open>The connection tables stay consistent\<close>

lemma chan_table_set:
  "chan_table ch' (set_chan_table ch t w) = (if ch' = ch then t else chan_table ch' w)"
  by (cases ch; cases ch') (simp_all add: chan_table_def set_chan_table_def)

lemma world_ok_set_chan_table [simp]: "world_ok (set_chan_table ch t w) = world_ok w"
  by (cases ch) (simp_all add: set_chan_table_def world_ok_def)

lemma hub_ok_world:
  "lobby_conns w' = lobby_conns (world s) \<Longrightarrow> game_conns w' = game_conns (world s) \<Longrightarrow>
   hub_ok (s\<lparr>world := w'\<rparr>) = hub_ok s"
proof -
  assume "lobby_conns w' = lobby_conns (world s)" "game_conns w' = game_conns (world s)"
  then have "chan_table ch w' = chan_table ch (world s)" for ch by (cases ch) (simp_all add: chan_table_def)
  then show ?thesis by (simp add: hub_ok_def)
qed

lemma hub_ok_shrink: "hub_ok s \<Longrightarrow> hub_ok (s\<lparr>handlers := (handlers s)(c := None)\<rparr>)"
  by (simp add: hub_ok_def)

lemma hub_ok_status:
  "hub_ok s \<Longrightarrow> handlers s c = Some (ch, rid, hs) \<Longrightarrow>
   hub_ok (s\<lparr>handlers := (handlers s)(c \<mapsto> (ch, rid, hs'))\<rparr>)"
  unfolding hub_ok_def by (simp split: if_splits)

lemma conns_connect:
  "conns (chan_table ch' (world (connect s ch rid))) rid' =
     (if ch' = ch \<and> rid' = rid then conns (chan_table ch' (world s)) rid' @ [next_conn s]
      else conns (chan_table ch' (world s)) rid')"
  by (simp add: connect_def Let_def chan_table_set attach_upd conns_upd)

lemma hub_ok_connect: "hub_ok s \<Longrightarrow> hub_ok (connect s ch rid)"
proof -
  assume h: "hub_ok s"
  let ?c = "next_conn s"
  have fresh: "?c \<notin> set (conns (chan_table ch' (world s)) rid')" for ch' rid'
  proof
    assume "?c \<in> set (conns (chan_table ch' (world s)) rid')"
    with h have "?c < ?c" unfolding hub_ok_def by blast
    then show False by simp
  qed
  have hd: "handlers (connect s ch rid) = (handlers s)(?c \<mapsto> (ch, rid, Serving))"
    and nc: "next_conn (connect s ch rid) = Suc ?c"
    by (simp_all add: connect_def Let_def)
  let ?new = "\<lambda>ch' rid'. if ch' = ch \<and> rid' = rid then conns (chan_table ch' (world s)) rid' @ [?c]
                          else conns (chan_table ch' (world s)) rid'"
  have listed: "c < Suc ?c" if "c \<in> set (?new ch' rid')" for c ch' rid'
  proof (cases "c = ?c")
    case False
    with that have "c \<in> set (conns (chan_table ch' (world s)) rid')" by (auto split: if_splits)
    with h have "c < ?c" unfolding hub_ok_def by blast
    then show ?thesis by simp
  qed simp
  have A: "c < Suc ?c \<and> count_list (?new ch' rid') c = 1"
    if a: "((handlers s)(?c \<mapsto> (ch, rid, Serving))) c = Some (ch', rid', hs)" for c ch' rid' hs
  proof (cases "c = ?c")
    case True
    with a fresh [of ch' rid'] show ?thesis by (simp add: count_list_0_iff)
  next
    case False
    with a h have "c < ?c \<and> count_list (conns (chan_table ch' (world s)) rid') c = 1"
      by (auto simp: hub_ok_def)
    with False show ?thesis by auto
  qed
  have B: "ch'' = ch' \<and> rid'' = rid'"
    if a: "c \<in> set (?new ch' rid')" and b: "((handlers s)(?c \<mapsto> (ch, rid, Serving))) c = Some (ch'', rid'', hs)"
    for c ch' rid' ch'' rid'' hs
  proof (cases "c = ?c")
    case True
    with a b fresh [of ch' rid'] show ?thesis by (auto split: if_splits)
  next
    case False
    with a b h show ?thesis by (auto simp: hub_ok_def split: if_splits)
  qed
  show ?thesis
    unfolding hub_ok_def hd nc conns_connect using listed A B by blast
qed

lemma conns_disconnect:
  assumes "c \<in> set (conns (chan_table ch (world s)) rid)"
  shows "conns (chan_table ch' (world (disconnect_self s c ch rid))) rid' =
           (if ch' = ch \<and> rid' = rid then remove1 c (conns (chan_table ch' (world s)) rid')
            else conns (chan_table ch' (world s)) rid')"
    and "handlers (disconnect_self s c ch rid) = (handlers s)(c := None)"
    and "next_conn (disconnect_self s c ch rid) = next_conn s"
proof -
  from assms have d: "detach (chan_table ch (world s)) rid c =
      Inr ((chan_table ch (world s))(rid \<mapsto> remove1 c (conns (chan_table ch (world s)) rid)))"
    by (simp add: detach_Inr)
  show "conns (chan_table ch' (world (disconnect_self s c ch rid))) rid' =
           (if ch' = ch \<and> rid' = rid then remove1 c (conns (chan_table ch' (world s)) rid')
            else conns (chan_table ch' (world s)) rid')"
    by (simp add: disconnect_self_def Let_def d chan_table_set conns_upd)
  show "handlers (disconnect_self s c ch rid) = (handlers s)(c := None)"
    by (simp add: disconnect_self_def Let_def d)
  show "next_conn (disconnect_self s c ch rid) = next_conn s"
    by (simp add: disconnect_self_def Let_def d)
qed

lemma hub_okD1:
  "hub_ok s \<Longrightarrow> handlers s c = Some (ch, rid, hs) \<Longrightarrow>
   c < next_conn s \<and> count_list (conns (chan_table ch (world s)) rid) c = 1"
  unfolding hub_ok_def by blast

lemma hub_okD2:
  "hub_ok s \<Longrightarrow> c \<in> set (conns (chan_table ch (world s)) rid) \<Longrightarrow>
   c < next_conn s \<and> (handlers s c = Some (ch', rid', hs) \<longrightarrow> ch' = ch \<and> rid' = rid)"
  unfolding hub_ok_def by blast

lemma hub_ok_disconnect_self:
  assumes h: "hub_ok s" and c: "handlers s c = Some (ch, rid, hs)"
  shows "hub_ok (disconnect_self s c ch rid)"
proof -
  from hub_okD1 [OF h c] have "count_list (conns (chan_table ch (world s)) rid) c = 1" ..
  then have m: "c \<in> set (conns (chan_table ch (world s)) rid)"
    using count_list_0_iff [of "conns (chan_table ch (world s)) rid" c] by simp
  let ?new = "\<lambda>ch' rid'. if ch' = ch \<and> rid' = rid then remove1 c (conns (chan_table ch' (world s)) rid')
                         else conns (chan_table ch' (world s)) rid'"
  have A: "c' < next_conn s \<and> count_list (?new ch' rid') c' = 1"
    if "((handlers s)(c := None)) c' = Some (ch', rid', hs')" for c' ch' rid' hs'
  proof -
    from that have ne: "c' \<noteq> c" and hc: "handlers s c' = Some (ch', rid', hs')"
      by (simp_all split: if_splits)
    have "count_list (?new ch' rid') c' = count_list (conns (chan_table ch' (world s)) rid') c'"
    proof (cases "ch' = ch \<and> rid' = rid")
      case True
      have "count_list (remove1 c (conns (chan_table ch' (world s)) rid')) c'
            = count_list (conns (chan_table ch' (world s)) rid') c'" by (rule count_remove1_other [OF ne])
      then show ?thesis by (simp only: if_P [OF True])
    next
      case False
      then show ?thesis by (simp only: if_False)
    qed
    with hub_okD1 [OF h hc] show ?thesis by simp
  qed
  have B: "c' < next_conn s \<and> (((handlers s)(c := None)) c' = Some (ch'', rid'', hs') \<longrightarrow> ch'' = ch' \<and> rid'' = rid')"
    if "c' \<in> set (?new ch' rid')" for c' ch' rid' ch'' rid'' hs'
  proof -
    have "c' \<in> set (conns (chan_table ch' (world s)) rid')"
    proof (cases "ch' = ch \<and> rid' = rid")
      case True
      with that have "c' \<in> set (remove1 c (conns (chan_table ch' (world s)) rid'))" by (simp only: if_P)
      then show ?thesis by (rule subsetD [OF set_remove1_subset])
    next
      case False
      with that show ?thesis by (simp only: if_not_P if_False)
    qed
    from hub_okD2 [OF h this, of ch'' rid'' hs'] show ?thesis by simp
  qed
  show ?thesis
    unfolding hub_ok_def conns_disconnect [OF m]
    apply (intro conjI allI impI)
    subgoal for c' ch' rid' hs' using A [of c' ch' rid' hs'] by simp
    subgoal for c' ch' rid' hs' using A [of c' ch' rid' hs'] by simp
    subgoal for ch' rid' c' using B [of c' ch' rid' ch' rid' Serving] by simp
    subgoal for ch' rid' c' ch'' rid'' hs' using B [of c' ch' rid' ch'' rid'' hs'] by simp
    subgoal for ch' rid' c' ch'' rid'' hs' using B [of c' ch' rid' ch'' rid'' hs'] by simp
    done
qed

subsection \<open>The system invariant\<close>

lemma sys_inv_init: "sys_inv init_sys"
  by (simp add: sys_inv_def world_ok_def hub_ok_def init_sys_def init_world_def rooms_wf_def
      gs_ok_def db_wf_def empty_db_def chan_table_def conns_def split: channel.splits)

lemma world_ok_disconnect_self [simp]: "world_ok (world (disconnect_self s c ch rid)) = world_ok (world s)"
  by (simp add: disconnect_self_def split: sum.splits)

lemma sys_inv_end_message:
  assumes inv: "sys_inv s" and hc: "handlers s c = Some (ch, rid, hs)" and ok: "world_ok (fst oc)"
      and t: "lobby_conns (fst oc) = lobby_conns (world s)" "game_conns (fst oc) = game_conns (world s)"
  shows "sys_inv (end_message s c ch rid oc)"
proof -
  obtain w out x where oc: "oc = (w, out, x)" by (metis prod.exhaust)
  from inv have h: "hub_ok s" by (simp add: sys_inv_def)
  with t oc have h1: "hub_ok (s\<lparr>world := w\<rparr>)" by (simp add: hub_ok_world)
  show ?thesis
  proof (cases x)
    case None
    with oc ok h1 show ?thesis by (simp add: end_message_def sys_inv_def)
  next
    case (Some e)
    from hub_ok_shrink [OF h1, of c]
    have crash: "hub_ok (s\<lparr>world := w, handlers := (handlers s)(c := None)\<rparr>)" by simp
    from hub_ok_disconnect_self [OF h1, of c ch rid hs] hc
    have leave: "hub_ok (disconnect_self (s\<lparr>world := w\<rparr>) c ch rid)" by simp
    show ?thesis
    proof (cases e)
      case (SendFailed d)
      with oc ok Some crash leave show ?thesis
        by (cases "handlers s d") (simp_all add: end_message_def sys_inv_def)
    qed (use oc ok Some crash in \<open>simp_all add: end_message_def sys_inv_def\<close>)
  qed
qed

lemma sys_inv_step:
  assumes inv: "sys_inv s" and st: "sys_step cfg modes s ev = Some (s', out)"
  shows "sys_inv s'"
proof (cases ev)
  case (Http req)
  with st obtain r w where h: "http_handle (world s) modes req = Some (r, w)" and s': "s' = s\<lparr>world := w\<rparr>"
    by (auto split: option.splits)
  from inv world_ok_http [OF _ h] have "world_ok w" by (simp add: sys_inv_def)
  moreover from tables_http [OF h] inv have "hub_ok (s\<lparr>world := w\<rparr>)" by (simp add: hub_ok_world sys_inv_def)
  ultimately show ?thesis using s' by (simp add: sys_inv_def)
next
  case (Connect ch rid)
  with st inv hub_ok_connect show ?thesis
    by (auto simp: sys_inv_def connect_def Let_def)
next
  case (LobbyRecv c m)
  from st LobbyRecv obtain ch rid hs where hc0: "handlers s c = Some (ch, rid, hs)"
    by (cases "handlers s c") auto
  with st LobbyRecv have "ch = LobbyCh \<and> hs = Serving \<and> s' = end_message s c LobbyCh rid (lobby_handle (world s) (alive_in s) rid c m)"
    by (cases ch; cases hs) (simp_all add: Let_def)
  then have hc: "handlers s c = Some (LobbyCh, rid, Serving)"
      and s': "s' = end_message s c LobbyCh rid (lobby_handle (world s) (alive_in s) rid c m)"
    using hc0 by simp_all
  from inv have "world_ok (world s)" by (simp add: sys_inv_def)
  from sys_inv_end_message [OF inv hc world_ok_lobby_handle [OF this]] tables_lobby_handle s'
  show ?thesis by simp
next
  case (GameRecv c m rb now)
  from st GameRecv obtain ch rid hs where hc0: "handlers s c = Some (ch, rid, hs)"
    by (cases "handlers s c") auto
  with st GameRecv have "ch = GameCh \<and> hs = Serving \<and> s' = end_message s c GameCh rid (game_handle (world s) (alive_in s) cfg rb now rid c m)"
    by (cases ch; cases hs) (simp_all add: Let_def)
  then have hc: "handlers s c = Some (GameCh, rid, Serving)"
      and s': "s' = end_message s c GameCh rid (game_handle (world s) (alive_in s) cfg rb now rid c m)"
    using hc0 by simp_all
  from inv have "world_ok (world s)" by (simp add: sys_inv_def)
  from sys_inv_end_message [OF inv hc world_ok_game_handle [OF this]] tables_game_handle s'
  show ?thesis by simp
next
  case (ClientDrop c)
  from st ClientDrop obtain ch rid hs where hc0: "handlers s c = Some (ch, rid, hs)"
    by (cases "handlers s c") auto
  with st ClientDrop have "hs = Serving \<and> s' = s\<lparr>handlers := (handlers s)(c \<mapsto> (ch, rid, Dropped))\<rparr>"
    by (cases hs) simp_all
  then have hc: "handlers s c = Some (ch, rid, Serving)" and s': "s' = s\<lparr>handlers := (handlers s)(c \<mapsto> (ch, rid, Dropped))\<rparr>"
    using hc0 by simp_all
  with inv hub_ok_status [of s c ch rid Serving Dropped] show ?thesis by (simp add: sys_inv_def)
next
  case (DropNoticed c)
  from st DropNoticed obtain ch rid hs where hc0: "handlers s c = Some (ch, rid, hs)"
    by (cases "handlers s c") auto
  with st DropNoticed have "hs = Dropped \<and> s' = disconnect_self s c ch rid"
    by (cases hs) simp_all
  then have hc: "handlers s c = Some (ch, rid, Dropped)" and s': "s' = disconnect_self s c ch rid"
    using hc0 by simp_all
  with inv hub_ok_disconnect_self [of s c ch rid Dropped] show ?thesis by (simp add: sys_inv_def)
qed

lemma reach_sys_inv: "reach cfg modes s \<Longrightarrow> sys_inv s"
  by (induction rule: reach.induct) (auto intro: sys_inv_init sys_inv_step)

lemma reach_gs_ok: "reach cfg modes s \<Longrightarrow> gs_ok (w_rooms (world s)) (w_games (world s))"
  by (drule reach_sys_inv) (simp add: sys_inv_def world_ok_def)

lemma reach_hub_ok: "reach cfg modes s \<Longrightarrow> hub_ok s"
  by (drule reach_sys_inv) (simp add: sys_inv_def)

lemma reach_listed:
  "reach cfg modes s \<Longrightarrow> handlers s c = Some (ch, rid, hs) \<Longrightarrow> c \<in> set (conns (chan_table ch (world s)) rid)"
proof -
  assume r: "reach cfg modes s" and h: "handlers s c = Some (ch, rid, hs)"
  from hub_okD1 [OF reach_hub_ok [OF r] h]
  have "count_list (conns (chan_table ch (world s)) rid) c = 1" ..
  then show ?thesis using count_list_0_iff [of "conns (chan_table ch (world s)) rid" c] by simp
qed

lemma count_le_one_new_deck: "M \<subseteq># mset new_deck \<Longrightarrow> count M c \<le> 1"
proof -
  assume "M \<subseteq># mset new_deck"
  then have "count M c \<le> count (mset new_deck) c" by (rule mset_subset_eq_count)
  also have "\<dots> \<le> 1" using distinct_new_deck by (simp add: distinct_count_atmost_1)
  finally show ?thesis .
qed

lemma end_message_uncaught:
  "snd (snd oc) = Some (Uncaught e) \<Longrightarrow>
   end_message s c ch rid oc = s\<lparr>world := fst oc, handlers := (handlers s)(c := None)\<rparr>"
  by (cases oc) (auto simp: end_message_def)

lemma end_message_send_failed:
  "snd (snd oc) = Some (SendFailed d) \<Longrightarrow> handlers s d \<noteq> None \<Longrightarrow>
   end_message s c ch rid oc = disconnect_self (s\<lparr>world := fst oc\<rparr>) c ch rid"
  by (cases oc) (auto simp: end_message_def)

lemma end_message_send_stale:
  "snd (snd oc) = Some (SendFailed d) \<Longrightarrow> handlers s d = None \<Longrightarrow>
   end_message s c ch rid oc = s\<lparr>world := fst oc, handlers := (handlers s)(c := None)\<rparr>"
  by (cases oc) (auto simp: end_message_def)

lemma sys_step_game:
  "handlers s c = Some (GameCh, rid, Serving) \<Longrightarrow>
   sys_step cfg modes s (GameRecv c m rb now) =
     Some (end_message s c GameCh rid (game_handle (world s) (alive_in s) cfg rb now rid c m),
           fst (snd (game_handle (world s) (alive_in s) cfg rb now rid c m)))"
  by (simp add: Let_def)

subsection \<open>Room ids keep their format\<close>

text \<open>Rooms are only added by \<open>create_room\<close>; no handler renames or adds one otherwise.\<close>

lemma room_ids_ok_mono: "room_ids_ok rms \<Longrightarrow> dom rms' \<subseteq> dom rms \<Longrightarrow> room_ids_ok rms'"
  unfolding room_ids_ok_def by blast

lemma room_ids_ok_room_op:
  "room_ids_ok rms \<Longrightarrow>
   join_room rms rid u = Inr rms' \<or> set_ready rms rid u = Inr rms' \<or> leave_room rms rid u = Inr rms'
   \<Longrightarrow> room_ids_ok rms'"
  by (drule room_ops_dom) (simp add: room_ids_ok_def)

lemma rooms_game_handle: "w_rooms (fst (game_handle w alive cfg rb now rid ws m)) = w_rooms w"
proof (cases m)
  case (PlayIn u co)
  then show ?thesis
    using game_play_world [of w alive cfg rid u co]
          auto_finish_world [of "w\<lparr>w_games := snd (play_card (w_games w) rid u co)\<rparr>" alive cfg rid]
    by auto
next
  case RestartIn
  then show ?thesis using game_restart_world [of w alive rb now rid ws] by auto
qed (simp_all add: game_draw_world game_finish_world split: prod.splits)

lemma dom_rooms_lobby_handle: "dom (w_rooms (fst (lobby_handle w alive rid ws m))) = dom (w_rooms w)"
proof (cases m)
  case (LobbyReady u)
  then show ?thesis
  proof (cases "set_ready (w_rooms w) rid u")
    case (Inr rms)
    with LobbyReady room_ops_dom [of "w_rooms w" rid u rms] show ?thesis
      by (simp add: lobby_ready_def Let_def split: prod.splits option.splits)
  qed (simp add: lobby_ready_def split: prod.splits)
qed (simp_all split: prod.splits)

lemma room_ids_ok_lobby_handle:
  "room_ids_ok (w_rooms w) \<Longrightarrow> room_ids_ok (w_rooms (fst (lobby_handle w alive rid ws m)))"
  by (simp add: room_ids_ok_def dom_rooms_lobby_handle)

lemma room_ids_ok_http:
  assumes ok: "room_ids_ok (w_rooms w)" and h: "http_handle w modes req = Some (r, w')"
  shows "room_ids_ok (w_rooms w')"
proof (cases req)
  case (ReqCreate u rnd)
  show ?thesis
  proof (cases "u = []")
    case False
    with h ReqCreate obtain rid rms where c: "create_room (w_rooms w) rnd u = Some (rid, rms)"
        and w': "w' = w\<lparr>w_rooms := rms\<rparr>"
      by (auto simp: route_create_def split: option.splits)
    from create_room_result [OF c] create_room_id [OF c] ok w' show ?thesis
      by (auto simp: room_ids_ok_def)
  qed (use h ReqCreate ok in \<open>simp add: route_create_def\<close>)
next
  case (ReqJoin rid u)
  with ok h show ?thesis
    by (auto simp: route_join_def split: if_splits sum.splits intro: room_ids_ok_room_op)
next
  case (ReqLeave rid u)
  with ok h show ?thesis
    by (auto simp: route_leave_def split: if_splits sum.splits intro: room_ids_ok_room_op)
next
  case (ReqStart rid mode rb now)
  with ok h show ?thesis
    by (auto simp: route_start_def split: if_splits sum.splits option.splits)
qed (use ok h in \<open>auto simp: route_register_def split: if_splits sum.splits\<close>)

lemma rooms_end_message: "w_rooms (world (end_message s c ch rid oc)) = w_rooms (fst oc)"
  by (auto simp: end_message_def disconnect_self_def set_chan_table_def
           split: prod.splits option.splits exc.splits sum.splits channel.splits)

lemma room_ids_ok_step:
  assumes ok: "room_ids_ok (w_rooms (world s))" and st: "sys_step cfg modes s ev = Some (s', out)"
  shows "room_ids_ok (w_rooms (world s'))"
proof (cases ev)
  case (Http req)
  with st obtain r w where h: "http_handle (world s) modes req = Some (r, w)" and s': "s' = s\<lparr>world := w\<rparr>"
    by (auto split: option.splits)
  from room_ids_ok_http [OF ok h] s' show ?thesis by simp
next
  case (LobbyRecv c m)
  with st ok show ?thesis
    by (auto simp: Let_def rooms_end_message room_ids_ok_lobby_handle
             split: option.splits prod.splits channel.splits hstatus.splits)
next
  case (GameRecv c m rb now)
  with st ok show ?thesis
    by (auto simp: Let_def rooms_end_message rooms_game_handle
             split: option.splits prod.splits channel.splits hstatus.splits)
qed (use st ok in \<open>auto simp: connect_def Let_def disconnect_self_def set_chan_table_def
                   split: option.splits prod.splits channel.splits hstatus.splits sum.splits\<close>)

lemma reach_room_ids_ok: "reach cfg modes s \<Longrightarrow> room_ids_ok (w_rooms (world s))"
proof (induction rule: reach.induct)
  case init
  then show ?case by (simp add: room_ids_ok_def init_sys_def init_world_def)
next
  case (step s ev s' out)
  then show ?case using room_ids_ok_step by blast
qed

subsection \<open>Evaluating runs\<close>

lemma generate_AAAAAAAA: "generate_random_room_id 8 (\<lambda>i. 0) = ''AAAAAAAA''"
  by code_simp

lemma create_room_first:
  assumes "rms (generate_random_room_id 8 (rnd 0)) = None"
  shows "create_room rms rnd u = Some (generate_random_room_id 8 (rnd 0),
           rms(generate_random_room_id 8 (rnd 0) \<mapsto>
             \<lparr>room_id = generate_random_room_id 8 (rnd 0), users = [(u, False)]\<rparr>))"
  using assms by (simp add: create_room_def find_room_id_unfold [of rms rnd 0] join_room_def dict_has_def)

lemma new_deck_case:
  "(case new_deck of [] \<Rightarrow> f | c # rest \<Rightarrow> g c rest) = g \<lparr>suit = ''clubs'', rank = ''A''\<rparr> (tl new_deck)"
  by (subst new_deck_Cons) simp

lemma new_deck_tl_case:
  "(case tl new_deck of [] \<Rightarrow> f | c # rest \<Rightarrow> g c rest) = g \<lparr>suit = ''clubs'', rank = ''2''\<rparr> (tl (tl new_deck))"
  by (simp add: new_deck_def suits_def ranks_def)

lemmas run_simps = example_modes_def get_mode_config_def init_sys_def init_world_def route_create_def create_room_first generate_AAAAAAAA
  route_join_def join_room_def dict_has_def route_start_def gm_start_game_def poker_start_game_def
  get_room_info_def initialize_game_def
  Let_def connect_def attach_def conns_def chan_table_def set_chan_table_def game_draw_def
  draw_card_def has_drawn_def new_game_state_def shuffle_id new_deck_case new_deck_tl_case end_message_def
  fresh_actions_def dict_keys_def

lemma stale_run:
  "\<exists>s. run example_config example_modes init_sys stale_trace = Some s
     \<and> handlers s 0 = None \<and> handlers s 1 = Some (GameCh, ''AAAAAAAA'', Serving)
     \<and> conns (game_conns (world s)) ''AAAAAAAA'' = [0, 1]
     \<and> w_games (world s) ''AAAAAAAA'' \<noteq> None
     \<and> fst (draw_card (w_games (world s)) ''AAAAAAAA'' ''alice'') = Inr \<lparr>suit = ''clubs'', rank = ''2''\<rparr>"
  by (simp add: stale_trace_def run_simps)

lemma stale_run_pre:
  "\<exists>s. run example_config example_modes init_sys (butlast stale_trace) = Some s
     \<and> handlers s 0 = Some (GameCh, ''AAAAAAAA'', Serving)
     \<and> snd (snd (game_handle (world s) (alive_in s) example_config (\<lambda>i. i) 0 ''AAAAAAAA'' 0
                  (DrawIn ''carol''))) = Some (Uncaught KeyErr)"
  by (simp add: stale_trace_def run_simps)

lemma run_init_reach: "run cfg modes init_sys evs = Some s \<Longrightarrow> reach cfg modes s"
  by (rule run_reach [OF reach.init])

subsection \<open>Properties of the whole backend\<close>

text \<open>C1: In every reachable state of the backend no game holds a card twice or a
  card from outside the 52-card deck, every player of a game is in one of the three
  phases, and every game belongs to a room of the registry. This holds although a
  non-player's draw can lose a card for good.\<close>

theorem reach_no_card_twice:
  assumes r: "reach cfg modes s" and g: "w_games (world s) rid = Some st"
  shows "(\<forall>c. count (cards_in_play st) c \<le> 1) \<and> set_mset (cards_in_play st) \<subseteq> set new_deck
         \<and> game_shape st \<and> w_rooms (world s) rid \<noteq> None"
proof -
  from gs_okD [OF reach_gs_ok [OF r] g]
  have sub: "cards_in_play st \<subseteq># mset new_deck" and rest: "game_shape st \<and> w_rooms (world s) rid \<noteq> None"
    by simp_all
  have "set_mset (cards_in_play st) \<subseteq> set new_deck"
    using set_mset_mono [OF sub] by simp
  with sub rest count_le_one_new_deck show ?thesis by blast
qed

text \<open>C8: In every reachable state each running websocket handler's connection is
  listed exactly once in its own room's list of its own channel, and in no other list.\<close>

theorem reach_handler_listed_once:
  assumes r: "reach cfg modes s" and h: "handlers s c = Some (ch, rid, hs)"
  shows "count_list (conns (chan_table ch (world s)) rid) c = 1
         \<and> (\<forall>ch' rid'. (ch', rid') \<noteq> (ch, rid) \<longrightarrow> c \<notin> set (conns (chan_table ch' (world s)) rid'))"
proof -
  have hub: "hub_ok s" by (rule reach_hub_ok [OF r])
  have "c \<notin> set (conns (chan_table ch' (world s)) rid')" if "(ch', rid') \<noteq> (ch, rid)" for ch' rid'
  proof
    assume "c \<in> set (conns (chan_table ch' (world s)) rid')"
    from hub_okD2 [OF hub this, of ch rid hs] h have "ch = ch' \<and> rid = rid'" by simp
    with that show False by simp
  qed
  with hub_okD1 [OF hub h] show ?thesis by blast
qed

text \<open>C32: In every reachable state the user table has no two rows with the same
  username or the same id: registration checks the name first and the ledger's
  updates never change either column.\<close>

theorem reach_usernames_unique:
  assumes "reach cfg modes s"
  shows "distinct (map username (users_tbl (w_db (world s))))
         \<and> distinct (map user_id (users_tbl (w_db (world s))))"
  using reach_sys_inv [OF assms] by (simp add: sys_inv_def world_ok_def db_wf_def)

text \<open>C6: A game-channel message whose handling raises an uncaught exception (the
  \<^verbatim>\<open>KeyError\<close> of a non-player's draw, the \<^verbatim>\<open>TypeError\<close> of a restart in a missing
  room, the \<^verbatim>\<open>IntegrityError\<close> of a second round's finish) ends the handler without
  its \<^verbatim>\<open>except WebSocketDisconnect\<close> clause: the connection is closed but stays in
  the room's list.\<close>

theorem crash_leaves_stale_connection:
  assumes r: "reach cfg modes s" and h: "handlers s c = Some (GameCh, rid, Serving)"
      and x: "snd (snd (game_handle (world s) (alive_in s) cfg rb now rid c m)) = Some (Uncaught e)"
      and st: "sys_step cfg modes s (GameRecv c m rb now) = Some (s', out)"
  shows "handlers s' c = None \<and> \<not> alive_in s' c \<and> c \<in> set (conns (game_conns (world s')) rid)"
proof -
  from sys_step_game [OF h, of cfg modes m rb now] st
  have s': "s' = end_message s c GameCh rid (game_handle (world s) (alive_in s) cfg rb now rid c m)"
    by simp
  with end_message_uncaught [OF x]
  have s'': "s' = s\<lparr>world := fst (game_handle (world s) (alive_in s) cfg rb now rid c m),
                   handlers := (handlers s)(c := None)\<rparr>" by simp
  from reach_listed [OF r h] have "c \<in> set (conns (game_conns (world s)) rid)" by (simp add: chan_table_def)
  with s'' tables_game_handle show ?thesis by (simp add: alive_in_def)
qed

text \<open>C7: A message that parses as JSON but not as an object makes
  \<^verbatim>\<open>message.get\<close> raise \<^verbatim>\<open>AttributeError\<close>, on the lobby channel as on the game
  channel. The handler ends without its \<^verbatim>\<open>except WebSocketDisconnect\<close> clause: nothing is
  sent, the world is unchanged, and the closed connection stays in the room's list.\<close>

theorem bad_message_leaves_stale_connection:
  assumes r: "reach cfg modes s" and h: "handlers s c = Some (ch, rid, Serving)"
      and ev: "(ch = LobbyCh \<and> ev = LobbyRecv c LobbyNotObject) \<or> (ch = GameCh \<and> ev = GameRecv c GameNotObject rb now)"
      and st: "sys_step cfg modes s ev = Some (s', out)"
  shows "out = [] \<and> world s' = world s \<and> handlers s' c = None
         \<and> c \<in> set (conns (chan_table ch (world s')) rid)"
proof -
  from ev consider (L) "ch = LobbyCh" "ev = LobbyRecv c LobbyNotObject"
    | (G) "ch = GameCh" "ev = GameRecv c GameNotObject rb now" by blast
  then have "out = [] \<and> s' = s\<lparr>handlers := (handlers s)(c := None)\<rparr>"
  proof cases
    case L
    with st h show ?thesis by (simp add: Let_def end_message_def)
  next
    case G
    with st h show ?thesis by (simp add: Let_def end_message_def)
  qed
  moreover from reach_listed [OF r h] have "c \<in> set (conns (chan_table ch (world s)) rid)" .
  ultimately show ?thesis by simp
qed

text \<open>C5: Once the connection of a handler that has ended is first in a room's game
  list, a successful draw in that room reaches nobody: the move is made, no message is
  sent, and the send to the dead connection raises \<^verbatim>\<open>RuntimeError\<close> in the drawer's
  handler, which ends too while its connection stays in the list. Each further
  broadcast in the room adds one more dead connection.\<close>

theorem stale_connection_silences_room:
  assumes r: "reach cfg modes s" and l: "conns (game_conns (world s)) rid = d # ds"
      and dh: "handlers s d = None" and h: "handlers s c = Some (GameCh, rid, Serving)"
      and dr: "draw_card (w_games (world s)) rid u = (Inr k, gs)"
      and st: "sys_step cfg modes s (GameRecv c (DrawIn u) rb now) = Some (s', out)"
  shows "out = [] \<and> w_games (world s') = gs \<and> handlers s' c = None
         \<and> conns (game_conns (world s')) rid = d # ds \<and> c \<in> set (d # ds)"
proof -
  let ?w1 = "(world s)\<lparr>w_games := gs\<rparr>"
  have oc: "game_handle (world s) (alive_in s) cfg rb now rid c (DrawIn u) = (?w1, [], Some (SendFailed d))"
    using l dh dr by (simp add: game_draw_def game_bcast_def broadcast_def alive_in_def)
  from sys_step_game [OF h, of cfg modes "DrawIn u" rb now] st oc end_message_send_stale [of _ d s c GameCh rid] dh
  have out: "out = []" and s': "s' = s\<lparr>world := ?w1, handlers := (handlers s)(c := None)\<rparr>"
    by simp_all
  from reach_listed [OF r h] l have "c \<in> set (d # ds)" by (simp add: chan_table_def)
  with s' out l show ?thesis by simp
qed

subsection \<open>Witnesses\<close>

text \<open>C34: In every reachable state each room of the registry is stored under its own
  id, that id is an 8-character string over \<open>A-Z0-9\<close> (no route creates a room under
  a key of another format), and no member of a room is listed twice.\<close>

theorem reach_rooms_typed:
  assumes r: "reach cfg modes s" and g: "w_rooms (world s) rid = Some rr"
  shows "room_id rr = rid \<and> length rid = 8 \<and> set rid \<subseteq> set room_id_alphabet
         \<and> distinct (map fst (users rr))"
proof -
  from reach_sys_inv [OF r] have "rooms_wf (w_rooms (world s))" by (simp add: sys_inv_def world_ok_def)
  from rooms_wfD [OF this g] have "room_id rr = rid \<and> distinct (map fst (users rr))" .
  moreover from reach_room_ids_ok [OF r] g have "length rid = 8 \<and> set rid \<subseteq> set room_id_alphabet"
    by (auto simp: room_ids_ok_def)
  ultimately show ?thesis by blast
qed

theorem reach_no_card_twice_witness:
  "\<exists>s st. run example_config example_modes init_sys stale_trace = Some s
     \<and> w_games (world s) ''AAAAAAAA'' = Some st \<and> (\<forall>c. count (cards_in_play st) c \<le> 1)"
proof -
  obtain s where r: "run example_config example_modes init_sys stale_trace = Some s"
      and g: "w_games (world s) ''AAAAAAAA'' \<noteq> None"
    using stale_run by blast
  from g obtain st where st: "w_games (world s) ''AAAAAAAA'' = Some st" by blast
  from reach_no_card_twice [OF run_init_reach [OF r] st] r st show ?thesis by blast
qed

theorem reach_handler_listed_once_witness:
  "\<exists>s. run example_config example_modes init_sys stale_trace = Some s
     \<and> handlers s 1 = Some (GameCh, ''AAAAAAAA'', Serving)
     \<and> count_list (conns (chan_table GameCh (world s)) ''AAAAAAAA'') 1 = 1"
proof -
  obtain s where r: "run example_config example_modes init_sys stale_trace = Some s"
      and h: "handlers s 1 = Some (GameCh, ''AAAAAAAA'', Serving)"
    using stale_run by blast
  from reach_handler_listed_once [OF run_init_reach [OF r] h] r h show ?thesis by blast
qed

theorem reach_usernames_unique_witness:
  "\<exists>s. run example_config example_modes init_sys stale_trace = Some s
     \<and> distinct (map username (users_tbl (w_db (world s))))"
proof -
  obtain s where r: "run example_config example_modes init_sys stale_trace = Some s"
    using stale_run by blast
  from reach_usernames_unique [OF run_init_reach [OF r]] r show ?thesis by blast
qed

theorem crash_leaves_stale_connection_witness:
  "\<exists>s s' out. run example_config example_modes init_sys (butlast stale_trace) = Some s
     \<and> sys_step example_config example_modes s (GameRecv 0 (DrawIn ''carol'') (\<lambda>i. i) 0) = Some (s', out)
     \<and> handlers s' 0 = None \<and> 0 \<in> set (conns (game_conns (world s')) ''AAAAAAAA'')"
proof -
  obtain s where r: "run example_config example_modes init_sys (butlast stale_trace) = Some s"
      and h: "handlers s 0 = Some (GameCh, ''AAAAAAAA'', Serving)"
      and x: "snd (snd (game_handle (world s) (alive_in s) example_config (\<lambda>i. i) 0 ''AAAAAAAA'' 0
                  (DrawIn ''carol''))) = Some (Uncaught KeyErr)"
    using stale_run_pre by blast
  obtain s' out where st: "sys_step example_config example_modes s (GameRecv 0 (DrawIn ''carol'') (\<lambda>i. i) 0)
      = Some (s', out)"
    using sys_step_game [OF h] by blast
  from crash_leaves_stale_connection [OF run_init_reach [OF r] h x st] r st show ?thesis by blast
qed

theorem bad_message_leaves_stale_connection_witness:
  "\<exists>s s' out. run example_config example_modes init_sys stale_trace = Some s
     \<and> sys_step example_config example_modes s (GameRecv 1 GameNotObject (\<lambda>i. i) 0) = Some (s', out)
     \<and> out = [] \<and> handlers s' 1 = None \<and> 1 \<in> set (conns (game_conns (world s')) ''AAAAAAAA'')"
proof -
  obtain s where r: "run example_config example_modes init_sys stale_trace = Some s"
      and h: "handlers s 1 = Some (GameCh, ''AAAAAAAA'', Serving)"
    using stale_run by blast
  obtain s' out where st: "sys_step example_config example_modes s (GameRecv 1 GameNotObject (\<lambda>i. i) 0)
      = Some (s', out)"
    using sys_step_game [OF h] by blast
  have ct: "chan_table GameCh (world s') = game_conns (world s')" by (simp add: chan_table_def)
  from bad_message_leaves_stale_connection [OF run_init_reach [OF r] h _ st] r st
  show ?thesis unfolding ct by blast
qed

theorem stale_connection_silences_room_witness:
  "\<exists>s s' out. run example_config example_modes init_sys stale_trace = Some s
     \<and> sys_step example_config example_modes s (GameRecv 1 (DrawIn ''alice'') (\<lambda>i. i) 0) = Some (s', out)
     \<and> out = [] \<and> handlers s' 1 = None \<and> conns (game_conns (world s')) ''AAAAAAAA'' = [0, 1]"
proof -
  obtain s where r: "run example_config example_modes init_sys stale_trace = Some s"
      and d: "handlers s 0 = None" and h: "handlers s 1 = Some (GameCh, ''AAAAAAAA'', Serving)"
      and l: "conns (game_conns (world s)) ''AAAAAAAA'' = [0, 1]"
      and dr: "fst (draw_card (w_games (world s)) ''AAAAAAAA'' ''alice'') = Inr \<lparr>suit = ''clubs'', rank = ''2''\<rparr>"
    using stale_run by blast
  obtain gs where dr': "draw_card (w_games (world s)) ''AAAAAAAA'' ''alice'' = (Inr \<lparr>suit = ''clubs'', rank = ''2''\<rparr>, gs)"
    using dr by (metis prod.collapse)
  obtain s' out where st: "sys_step example_config example_modes s (GameRecv 1 (DrawIn ''alice'') (\<lambda>i. i) 0)
      = Some (s', out)"
    using sys_step_game [OF h] by blast
  from stale_connection_silences_room [OF run_init_reach [OF r] l d h dr' st] r st show ?thesis by blast
qed

theorem reach_rooms_typed_witness:
  "\<exists>s rr. run example_config example_modes init_sys stale_trace = Some s
     \<and> w_rooms (world s) ''AAAAAAAA'' = Some rr \<and> room_id rr = ''AAAAAAAA'' \<and> length ''AAAAAAAA'' = 8"
proof -
  obtain s where r: "run example_config example_modes init_sys stale_trace = Some s"
      and g: "w_games (world s) ''AAAAAAAA'' \<noteq> None"
    using stale_run by blast
  from g obtain st where "w_games (world s) ''AAAAAAAA'' = Some st" by blast
  with gs_okD [OF reach_gs_ok [OF run_init_reach [OF r]]]
  obtain rr where rr: "w_rooms (world s) ''AAAAAAAA'' = Some rr" by blast
  from reach_rooms_typed [OF run_init_reach [OF r] rr] r rr show ?thesis by blast
qed

end
