(* ===== verification/Rounds.thy ===== *)
theory Rounds
  imports Game
begin

text \<open>
  Progress of a round. The clients' side of a round, as the protocol describes it:
  every player draws once (\<open>draw_all\<close>) and then plays the card it holds
  (\<open>play_all\<close>, with \<open>held_card\<close> the front card of the player's hand, the card the
  client shows). These drivers are not code of the server; they are the sequences of
  \<^verbatim>\<open>draw_card\<close> and \<^verbatim>\<open>play_card\<close> calls the server receives. The theorem of this
  theory is that such a round always reaches a full table and, for two or three
  players in a room without a recorded session, a successful \<^verbatim>\<open>finish_game\<close>.
\<close>

fun draw_all :: "game_states \<Rightarrow> string \<Rightarrow> string list \<Rightarrow> game_states" where
  "draw_all gs rid [] = gs"
| "draw_all gs rid (u # us) = draw_all (snd (draw_card gs rid u)) rid us"

definition held_card :: "game_states \<Rightarrow> string \<Rightarrow> string \<Rightarrow> card option" where
  "held_card gs rid u =
     (case gs rid of
        None \<Rightarrow> None
      | Some st \<Rightarrow> (case map_of (hands st) u of Some (c # _) \<Rightarrow> Some c | _ \<Rightarrow> None))"

fun play_all :: "game_states \<Rightarrow> string \<Rightarrow> string list \<Rightarrow> game_states" where
  "play_all gs rid [] = gs"
| "play_all gs rid (u # us) = play_all (snd (play_card gs rid u (held_card gs rid u))) rid us"

subsection \<open>Every player draws\<close>

lemma waiting_not_drawn: "player_phase st u = Some Waiting \<Longrightarrow> \<not> has_drawn st u"
  by (auto simp: player_phase_Some phase_of_Some has_drawn_def)

lemma players_draw_step [simp]:
  "players (st\<lparr>deck := rest, hands := h, player_actions := a\<rparr>) = players st"
  by (simp add: players_def)

lemma draw_all_phases:
  assumes "game_inv st" "gs rid = Some st" "length (players st) \<le> 52"
      and "distinct us" "set us \<subseteq> set (players st)"
      and "\<forall>u \<in> set us. player_phase st u = Some Waiting"
  shows "\<exists>st'. draw_all gs rid us = gs(rid \<mapsto> st') \<and> game_inv st' \<and> players st' = players st
           \<and> finished st' = finished st
           \<and> (\<forall>p. p \<in> set us \<longrightarrow> (\<exists>c. player_phase st' p = Some (Holding c)))
           \<and> (\<forall>p. p \<notin> set us \<longrightarrow> player_phase st' p = player_phase st p)"
  using assms
proof (induction us arbitrary: gs st)
  case Nil
  then show ?case by (intro exI [of _ st]) (simp add: fun_upd_idem)
next
  case (Cons u us)
  from Cons.prems have u: "u \<in> set (players st)" and w: "player_phase st u = Some Waiting" by auto
  have nd: "\<not> has_drawn st u" using w by (rule waiting_not_drawn)
  from deck_nonempty [OF Cons.prems(1) Cons.prems(3) u nd] obtain c rest where dk: "deck st = c # rest"
    by (cases "deck st") auto
  let ?st1 = "st\<lparr>deck := rest, hands := AList.update u [c] (hands st),
      player_actions := AList.update u (fresh_actions\<lparr>drawn := True\<rparr>) (player_actions st)\<rparr>"
  have d: "draw_card gs rid u = (Inr c, gs(rid \<mapsto> ?st1))"
    by (rule draw_card_player [where gs = gs and rid = rid, OF game_inv_shapeD [OF Cons.prems(1)] Cons.prems(2) u nd dk])
  have inv1: "game_inv ?st1" by (rule draw_step_inv [OF Cons.prems(1) u nd dk])
  from phase_not_drawn [OF w nd] have t: "map_of (table st) u = Some None" by simp
  have ph1: "player_phase ?st1 p = (if p = u then Some (Holding c) else player_phase st p)" for p
    using t by (rule draw_step_phase)
  have "\<exists>st'. draw_all ((gs(rid \<mapsto> ?st1))) rid us = (gs(rid \<mapsto> ?st1))(rid \<mapsto> st') \<and> game_inv st'
           \<and> players st' = players ?st1 \<and> finished st' = finished ?st1
           \<and> (\<forall>p. p \<in> set us \<longrightarrow> (\<exists>c. player_phase st' p = Some (Holding c)))
           \<and> (\<forall>p. p \<notin> set us \<longrightarrow> player_phase st' p = player_phase ?st1 p)"
    using Cons.prems by (intro Cons.IH [OF inv1]) (auto simp: ph1)
  then obtain st' where st': "draw_all ((gs(rid \<mapsto> ?st1))) rid us = (gs(rid \<mapsto> ?st1))(rid \<mapsto> st')"
      and rest': "game_inv st' \<and> players st' = players ?st1 \<and> finished st' = finished ?st1
           \<and> (\<forall>p. p \<in> set us \<longrightarrow> (\<exists>c. player_phase st' p = Some (Holding c)))
           \<and> (\<forall>p. p \<notin> set us \<longrightarrow> player_phase st' p = player_phase ?st1 p)"
    by blast
  from Cons.prems(4) have "u \<notin> set us" by simp
  with rest' have "\<exists>c. player_phase st' u = Some (Holding c)" by (simp add: ph1)
  with d st' rest' show ?case by (auto simp: ph1)
qed

subsection \<open>Every player plays\<close>

lemma held_card_Holding:
  "gs rid = Some st \<Longrightarrow> player_phase st u = Some (Holding c) \<Longrightarrow> held_card gs rid u = Some c"
  by (simp add: held_card_def phase_Holding)

lemma players_play_step:
  "map_of (table st) u = Some tc \<Longrightarrow>
   players (st\<lparr>hands := h, table := AList.update u x (table st), player_actions := a\<rparr>) = players st"
proof -
  assume "map_of (table st) u = Some tc"
  then have "u \<in> set (map fst (table st))" by (force dest: map_of_SomeD)
  then show ?thesis by (simp add: players_def dict_keys_def keys_update_present)
qed

lemma play_all_phases:
  assumes "game_inv st" "gs rid = Some st" "distinct us"
      and "\<forall>u \<in> set us. \<exists>c. player_phase st u = Some (Holding c)"
  shows "\<exists>st'. play_all gs rid us = gs(rid \<mapsto> st') \<and> game_inv st' \<and> players st' = players st
           \<and> finished st' = finished st
           \<and> (\<forall>p. p \<in> set us \<longrightarrow> (\<exists>c. player_phase st' p = Some (Played c)))
           \<and> (\<forall>p. p \<notin> set us \<longrightarrow> player_phase st' p = player_phase st p)"
  using assms
proof (induction us arbitrary: gs st)
  case Nil
  then show ?case by (intro exI [of _ st]) (simp add: fun_upd_idem)
next
  case (Cons u us)
  from Cons.prems obtain c where hold: "player_phase st u = Some (Holding c)" by auto
  let ?st1 = "st\<lparr>hands := AList.update u [] (hands st), table := AList.update u (Some c) (table st),
      player_actions := AList.update u \<lparr>drawn = True, played = True\<rparr> (player_actions st)\<rparr>"
  have p: "play_card gs rid u (held_card gs rid u) = (Inr (), gs(rid \<mapsto> ?st1))"
    using play_card_player [where gs = gs and rid = rid, OF Cons.prems(2) hold]
      held_card_Holding [where gs = gs and rid = rid, OF Cons.prems(2) hold] by simp
  have inv1: "game_inv ?st1" by (rule play_step_inv [OF Cons.prems(1) hold])
  have ph1: "player_phase ?st1 p = (if p = u then Some (Played c) else player_phase st p)" for p
    by (rule play_step_phase)
  have pl1: "players ?st1 = players st"
    using phase_Holding [OF hold] by (intro players_play_step) blast
  have "\<exists>st'. play_all ((gs(rid \<mapsto> ?st1))) rid us = (gs(rid \<mapsto> ?st1))(rid \<mapsto> st') \<and> game_inv st'
           \<and> players st' = players ?st1 \<and> finished st' = finished ?st1
           \<and> (\<forall>p. p \<in> set us \<longrightarrow> (\<exists>c. player_phase st' p = Some (Played c)))
           \<and> (\<forall>p. p \<notin> set us \<longrightarrow> player_phase st' p = player_phase ?st1 p)"
    using Cons.prems by (intro Cons.IH [OF inv1]) (auto simp: ph1)
  then obtain st' where st': "play_all ((gs(rid \<mapsto> ?st1))) rid us = (gs(rid \<mapsto> ?st1))(rid \<mapsto> st')"
      and rest': "game_inv st' \<and> players st' = players ?st1 \<and> finished st' = finished ?st1
           \<and> (\<forall>p. p \<in> set us \<longrightarrow> (\<exists>c. player_phase st' p = Some (Played c)))
           \<and> (\<forall>p. p \<notin> set us \<longrightarrow> player_phase st' p = player_phase ?st1 p)"
    by blast
  from Cons.prems(3) have "u \<notin> set us" by simp
  with rest' have "\<exists>c. player_phase st' u = Some (Played c)" by (simp add: ph1)
  with p st' rest' pl1 show ?case by (auto simp: ph1)
qed

subsection \<open>A table where everyone has played is complete\<close>

lemma all_played_complete:
  assumes "game_inv st" and "\<forall>p \<in> set (players st). \<exists>c. player_phase st p = Some (Played c)"
  shows "round_complete st"
proof -
  have "tc \<noteq> None" if "(p, tc) \<in> set (table st)" for p tc
  proof -
    from assms(1) have "distinct (map fst (table st))"
      by (simp add: game_inv_def game_wf_def players_def dict_keys_def)
    with that have m: "map_of (table st) p = Some tc" by (rule map_of_is_SomeI [rotated])
    from that have "p \<in> set (players st)" by (force simp: players_def dict_keys_def)
    with assms(2) obtain c where "player_phase st p = Some (Played c)" by blast
    with m show ?thesis by (auto simp: player_phase_Some phase_of_Some)
  qed
  then show ?thesis by (auto simp: round_complete_def list_all_iff)
qed

lemma finish_game_succeeds:
  assumes g: "gs (room_id r) = Some st" and nf: "\<not> finished st" and rc: "round_complete st"
      and n: "length (table st) \<in> {2, 3}"
      and fresh: "\<forall>row \<in> set (sessions_tbl d). session_room_id row \<noteq> room_id r"
  shows "\<exists>fr gs' d'. finish_game gs d (Some r) cfg = (Inr fr, gs', d')"
proof -
  from n obtain res where res: "round_results cfg (py_sort_desc (played_weight cfg) (table st)) = Inr res"
    using round_results_Inr [of "py_sort_desc (played_weight cfg) (table st)" cfg] by auto
  obtain d' where "record_round d (room_id r) (game_time st) (dict_keys (table st)) res = Inr d'"
    using record_round_fresh_room [OF fresh] by blast
  with g nf rc res show ?thesis by (simp add: finish_game_def)
qed

subsection \<open>Progress\<close>

text \<open>C14: A started round always completes: when every player of a game draws once
  and then plays the card it holds, every call succeeds, the table becomes full, the
  invariant holds, and for two or three players in a room with no recorded session
  \<open>finish_game\<close> then succeeds.\<close>

theorem round_completes:
  assumes inv: "game_inv st" and g: "gs rid = Some st" and nf: "\<not> finished st"
      and n: "length (players st) \<in> {2, 3}"
      and w: "\<forall>p \<in> set (players st). player_phase st p = Some Waiting"
      and r: "room_id r = rid"
      and fresh: "\<forall>row \<in> set (sessions_tbl d). session_room_id row \<noteq> rid"
  shows "\<exists>st' fr gs' d'. play_all (draw_all gs rid (players st)) rid (players st) = gs(rid \<mapsto> st')
           \<and> round_complete st' \<and> game_inv st'
           \<and> finish_game (gs(rid \<mapsto> st')) d (Some r) cfg = (Inr fr, gs', d')"
proof -
  from inv have d: "distinct (players st)" by (simp add: game_inv_def game_wf_def)
  from n have n52: "length (players st) \<le> 52" by auto
  from draw_all_phases [where gs = gs and rid = rid, OF inv g n52 d subset_refl w] obtain st1 where
    st1: "draw_all gs rid (players st) = gs(rid \<mapsto> st1)" and inv1: "game_inv st1"
    and pl1: "players st1 = players st" and f1: "finished st1 = finished st"
    and h1: "\<forall>p. p \<in> set (players st) \<longrightarrow> (\<exists>c. player_phase st1 p = Some (Holding c))"
    by blast
  from play_all_phases [OF inv1, of "gs(rid \<mapsto> st1)" rid "players st"] d h1 obtain st2 where
    st2: "play_all (gs(rid \<mapsto> st1)) rid (players st) = (gs(rid \<mapsto> st1))(rid \<mapsto> st2)"
    and inv2: "game_inv st2" and pl2: "players st2 = players st1" and f2: "finished st2 = finished st1"
    and p2: "\<forall>p. p \<in> set (players st) \<longrightarrow> (\<exists>c. player_phase st2 p = Some (Played c))"
    by auto
  have rc: "round_complete st2" using inv2 p2 pl2 pl1 by (intro all_played_complete) auto
  have "length (table st2) = length (table st)"
    using pl2 pl1 unfolding players_def dict_keys_def by (metis length_map)
  with n have "length (table st2) \<in> {2, 3}" by (simp add: players_def dict_keys_def)
  with finish_game_succeeds [of "gs(rid \<mapsto> st2)" r st2] r nf f1 f2 rc fresh
  obtain fr gs' d' where "finish_game (gs(rid \<mapsto> st2)) d (Some r) cfg = (Inr fr, gs', d')" by fastforce
  with st1 st2 rc inv2 show ?thesis by auto
qed

theorem round_completes_witness:
  "\<exists>st' fr gs' d'.
     play_all (draw_all [''R1'' \<mapsto> new_game_state [''alice'', ''bob''] (\<lambda>i. i) 0] ''R1'' [''alice'', ''bob''])
       ''R1'' [''alice'', ''bob''] = [''R1'' \<mapsto> new_game_state [''alice'', ''bob''] (\<lambda>i. i) 0](''R1'' \<mapsto> st')
     \<and> round_complete st'
     \<and> finish_game ([''R1'' \<mapsto> new_game_state [''alice'', ''bob''] (\<lambda>i. i) 0](''R1'' \<mapsto> st')) empty_db
         (Some example_room) example_config = (Inr fr, gs', d')"
proof -
  have w: "\<forall>p \<in> set (players (new_game_state [''alice'', ''bob''] (\<lambda>i. i) 0)).
             player_phase (new_game_state [''alice'', ''bob''] (\<lambda>i. i) 0) p = Some Waiting"
    unfolding two_player_players by (simp add: player_phase_def new_game_state_def fresh_actions_def)
  have nf: "\<not> finished (new_game_state [''alice'', ''bob''] (\<lambda>i. i) 0)" by (simp add: new_game_state_def)
  have n: "length (players (new_game_state [''alice'', ''bob''] (\<lambda>i. i) 0)) \<in> {2, 3}"
    by (simp add: two_player_players)
  have r: "room_id example_room = ''R1''" by (simp add: example_room_def)
  have fresh: "\<forall>row \<in> set (sessions_tbl empty_db). session_room_id row \<noteq> ''R1''" by (simp add: empty_db_def)
  have "\<exists>st' fr gs' d'. play_all (draw_all [''R1'' \<mapsto> new_game_state [''alice'', ''bob''] (\<lambda>i. i) 0] ''R1''
            (players (new_game_state [''alice'', ''bob''] (\<lambda>i. i) 0))) ''R1''
            (players (new_game_state [''alice'', ''bob''] (\<lambda>i. i) 0))
          = [''R1'' \<mapsto> new_game_state [''alice'', ''bob''] (\<lambda>i. i) 0](''R1'' \<mapsto> st')
        \<and> round_complete st' \<and> game_inv st'
        \<and> finish_game ([''R1'' \<mapsto> new_game_state [''alice'', ''bob''] (\<lambda>i. i) 0](''R1'' \<mapsto> st')) empty_db
            (Some example_room) example_config = (Inr fr, gs', d')"
    by (rule round_completes [OF two_player_inv _ nf n w r fresh]) simp
  then show ?thesis unfolding two_player_players by blast
qed

end
