(* ===== verification/Spec2Isabelle.thy ===== *)
theory Spec2Isabelle
  imports System Rounds
begin

text \<open>
  \<^bold>\<open>A verification development of the CardGame backend\<close> (\<^verbatim>\<open>src/backend/app\<close>).

  \<^bold>\<open>The program.\<close> A FastAPI server keeps three kinds of module-global state: the room
  registry \<^verbatim>\<open>rooms\<close> (\<^verbatim>\<open>room_manager.py\<close>), the per-room game states \<^verbatim>\<open>game_states\<close>
  of the card mini-game (\<^verbatim>\<open>game_modes/poker_battle.py\<close>), and two tables of open
  websockets per room, \<^verbatim>\<open>room_connections\<close> for the lobby (\<^verbatim>\<open>room_ws.py\<close>) and
  \<^verbatim>\<open>ws_connections\<close> for the game. HTTP routes (\<^verbatim>\<open>main.py\<close>, \<^verbatim>\<open>game_manager.py\<close>)
  register and log in users, create, join and leave rooms and start games; the two
  websocket handlers interpret \<^verbatim>\<open>ready\<close>, \<^verbatim>\<open>draw_card\<close>, \<^verbatim>\<open>play_card\<close>,
  \<^verbatim>\<open>restart_game\<close> and \<^verbatim>\<open>finish_game\<close> messages and broadcast the results. A finished
  round is written to the SQLite database of \<^verbatim>\<open>models.py\<close>.

  \<^bold>\<open>Theories, bottom up.\<close>
  \<^item> \<open>Prelude\<close>: Python dictionaries as association lists in insertion order
    (\<open>AList.update\<close> is \<^verbatim>\<open>d[k] = v\<close>, \<open>AList.delete\<close> is \<^verbatim>\<open>del d[k]\<close>) and the shared
    lemmas on them (collection \<open>dict_simps\<close>).
  \<^item> \<open>Rooms\<close> (\<^verbatim>\<open>room_manager.py\<close>): the registry as a map, \<open>join_room\<close>, \<open>set_ready\<close>,
    \<open>all_ready\<close>, \<open>get_room_info\<close>, \<open>leave_room\<close>, and \<open>create_room\<close> with its retry loop
    \<open>find_room_id\<close> as a \<open>partial_function (option)\<close>; the random source is a parameter.
    Lemmas: the well-formedness \<open>rooms_wf\<close> is kept by every operation, joining is
    idempotent, \<open>create_room\<close> returns a fresh id as soon as one draw is unused.
  \<^item> \<open>Cards\<close> (helpers of \<^verbatim>\<open>poker_battle.py\<close>): the deck, CPython's Fisher--Yates
    \<^verbatim>\<open>random.shuffle\<close> with the draws as a parameter, \<open>card_weight\<close>, and
    \<^verbatim>\<open>sort(reverse=True)\<close> as CPython runs it. Lemmas: shuffling permutes the deck;
    the descending sort equals the reference stable sort by the negated key.
  \<^item> \<open>Ledger\<close> (\<^verbatim>\<open>models.py\<close>, \<^verbatim>\<open>user_manager.py\<close>, the database writes of
    \<^verbatim>\<open>finish_game\<close>): tables as row lists, the unique columns as \<^verbatim>\<open>IntegrityError\<close>.
  \<^item> \<open>Game\<close> (\<^verbatim>\<open>poker_battle.py\<close> lines 42--171): \<open>initialize_game\<close>, \<open>draw_card\<close>,
    \<open>play_card\<close>, \<open>finish_game\<close>, each returning its outcome and the state it leaves,
    since Python mutates before some of its exceptions. Lemmas: the invariant
    \<open>game_inv\<close> (card conservation, every player in a phase) is kept by players' draws
    and all plays; draws and plays refine the per-player phase machine \<open>phase_step\<close>;
    results of two- and three-player rounds; \<open>finish_game\<close> succeeds at most once.
  \<^item> \<open>Hub\<close>: the connection tables and the three uses the handlers make of them
    (append, \<^verbatim>\<open>list.remove\<close>, the fan-out loop). Lemmas: detach touches nothing
    else, attach/detach round trip, and the fan-out stops at the first closed
    connection.
  \<^item> \<open>Coordinator\<close> (\<^verbatim>\<open>room_ws.py\<close>, \<^verbatim>\<open>poker_battle.py\<close> lines 187--259): one inbound
    message as \<open>lobby_handle\<close> or \<open>game_handle\<close> on the shared \<open>world\<close>, returning the
    messages sent in order and the exception that ended it.
  \<^item> \<open>Modes\<close> (\<^verbatim>\<open>game_manager.py\<close>, \<^verbatim>\<open>load_config\<close> of \<^verbatim>\<open>poker_battle.py\<close>): the
    configuration directory as a record of decoded JSON files, the loading of the
    mode table (unified file, or one entry per file in \<^verbatim>\<open>glob\<close> order) and of the
    scoring file, and \<open>startup\<close>, the order in which importing \<^verbatim>\<open>main.py\<close> runs
    them. Lemmas: the table lists the files' documents in order; one bad file fails
    the whole start-up; \<^verbatim>\<open>poker_battle.json\<close> is read both as a mode file and as
    the scoring configuration, and start-up needs it.
  \<^item> \<open>Routes\<close> (\<^verbatim>\<open>main.py\<close>, \<^verbatim>\<open>GameManager.start_game\<close>): every HTTP route on the
    world, the mode table of \<open>Modes\<close> as a parameter. Lemmas: registration and login
    round trip; \<^verbatim>\<open>/user/records\<close> returns exactly the user's records, latest first,
    and after a finished round lists it for every registered player.
  \<^item> \<open>Rounds\<close>: the clients' side of a round (every player draws, then plays the
    card it holds) and the progress theorem: such a round always fills the table and,
    for two or three players, finishes.
  \<^item> \<open>System\<close>: the whole backend as one state machine \<open>sys_step\<close> over events
    (HTTP request, connection accepted, inbound message, client close, close
    noticed), with \<open>end_message\<close> for how a handler ends after a message (its
    \<^verbatim>\<open>WebSocketDisconnect\<close> exit, or an exception that escapes it), reachability \<open>reach\<close> as an inductive predicate, and the invariant
    \<open>sys_inv\<close> proved for every reachable state by rule induction, one lemma per event;
    a second invariant, \<open>room_ids_ok\<close>, shows that every registry key keeps the
    8-character \<open>A-Z0-9\<close> format of \<^verbatim>\<open>generate_random_room_id\<close>.

  \<^bold>\<open>Parameters and bounds.\<close> Randomness (room ids, shuffles) and the clock are
  parameters, so every theorem holds for all random draws. The room-id loop has no
  fuel: it is a \<open>partial_function (option)\<close>, and the theorem that it returns states
  that one unused draw suffices. The engine never counts past the 52 cards; the
  theorem that a draw never meets an empty deck assumes at most 52 players, which
  the registry does not enforce.

  \<^bold>\<open>Findings\<close> (each proved by a theorem of the development):
  \<^item> a draw by a non-player pops a card and then raises \<^verbatim>\<open>KeyError\<close>: the card is lost;
  \<^item> \<^verbatim>\<open>game_sessions.room_id\<close> is unique, so no second round of a room can be finished;
  \<^item> ties are broken by table order (join order), not by play order;
  \<^item> \<open>all_ready\<close> of an empty room is true, and every further \<^verbatim>\<open>ready\<close> of a ready room
    broadcasts \<^verbatim>\<open>game_start\<close> again;
  \<^item> play failures are broadcast and finish failures unicast, the reverse of the
    protocol; \<^verbatim>\<open>restart_game\<close> in a missing room raises \<^verbatim>\<open>TypeError\<close>;
  \<^item> a send to a closed connection aborts the fan-out; a handler ended by an uncaught
    exception (an engine \<^verbatim>\<open>KeyError\<close> or \<^verbatim>\<open>TypeError\<close>, a database error, or the
    \<^verbatim>\<open>AttributeError\<close> of a message that is JSON but not an object) leaves its closed
    connection in the room's list; after that every broadcast of the room reaches
    nobody and ends the sending handler too (\<^verbatim>\<open>RuntimeError\<close>), whose connection
    also stays listed.

  \<^bold>\<open>Not modelled.\<close> The awaits inside one message: each message, request and
  disconnect runs to completion before the next, so the races of the
  read-modify-write sequences across awaits (two draws at once, a state mutated while
  a broadcast serialises it) are outside the model. Also not modelled: the JSON
  encoding of messages (messages are values of \<open>out_msg\<close>); reading files and
  decoding JSON (a configuration file is either a decoded document or an exception);
  the scoring table's conversion from JSON (the record \<open>config\<close> is a parameter);
  \<^verbatim>\<open>database.py\<close> and the startup/shutdown hooks (connection set-up). The server
  is taken to be uvicorn with the \<^verbatim>\<open>websockets\<close> protocol: a send to a socket whose
  client has closed it raises \<^verbatim>\<open>WebSocketDisconnect\<close> in the sender (Starlette wraps
  the transport's \<^verbatim>\<open>OSError\<close>), and a send to the connection of an ended handler
  raises \<^verbatim>\<open>RuntimeError\<close>. Under the \<^verbatim>\<open>wsproto\<close> protocol the latter write is
  dropped instead; that variant is not modelled. The versions are not pinned in the
  sources.
\<close>

end
